theory Spec2Isabelle
  imports Complex_Main "HOL-Library.Char_ord" "HOL-Library.List_Lexorder" "HOL-Library.Sublist"
begin

section \<open>The scheme runtime of runtime/schemes/runScheme.js\<close>

text \<open>
  The development embeds the JavaScript scheme runtime (file
  \<^verbatim>\<open>runtime/schemes/runScheme.js\<close>): its helpers \<^verbatim>\<open>parseCSV\<close>, \<^verbatim>\<open>parseDate\<close>,
  \<^verbatim>\<open>evaluateRule\<close>, \<^verbatim>\<open>findManager\<close>, \<^verbatim>\<open>calculateTieredPayout\<close> and the main function
  \<^verbatim>\<open>runScheme\<close>.

  Numbers. The runtime computes with \<^verbatim>\<open>Decimal\<close> objects of the decimal.js library
  under its default configuration: 20 significant digits, rounding mode
  \<^verbatim>\<open>ROUND_HALF_UP\<close>. A finite \<^verbatim>\<open>Decimal\<close> is represented by the rational number it
  denotes. The arithmetic methods \<^verbatim>\<open>plus\<close> (\<^verbatim>\<open>add\<close>), \<^verbatim>\<open>minus\<close>, \<^verbatim>\<open>times\<close> and
  \<^verbatim>\<open>div\<close> return the exact result rounded to 20 significant digits; comparisons,
  \<^verbatim>\<open>Decimal.max\<close> and \<^verbatim>\<open>Decimal.min\<close> do not round. The library's \<^verbatim>\<open>NaN\<close> and
  infinities have no counterpart: the development is about runs whose numbers are all
  finite.
\<close>

subsection \<open>Decimal values and their arithmetic\<close>

type_synonym decimal = rat

text \<open>
  The decimal exponent of a positive number \<open>x\<close>, the integer \<open>e\<close> with
  \<open>10^e \<le> x < 10^(e+1)\<close>: counted upwards for \<open>x \<ge> 1\<close> and downwards for \<open>x < 1\<close>.
\<close>

function decExpUp :: "rat \<Rightarrow> int" where
  "decExpUp x = (if x < 10 then 0 else decExpUp (x / 10) + 1)"
  by pat_completeness auto
termination
proof (relation "measure (\<lambda>x. nat \<lfloor>x\<rfloor>)")
  show "wf (measure (\<lambda>x::rat. nat \<lfloor>x\<rfloor>))" by simp
next
  fix x :: rat
  assume a: "\<not> x < 10"
  have "x / 10 \<le> x - 1" using a by simp
  then have "\<lfloor>x / 10\<rfloor> \<le> \<lfloor>x - 1\<rfloor>" by (rule floor_mono)
  moreover have "0 < \<lfloor>x\<rfloor>" using a by simp
  ultimately show "(x / 10, x) \<in> measure (\<lambda>x. nat \<lfloor>x\<rfloor>)" by simp
qed

function decExpDown :: "rat \<Rightarrow> int" where
  "decExpDown x = (if x \<le> 0 \<or> 1 \<le> x then 0 else decExpDown (x * 10) - 1)"
  by pat_completeness auto
termination
proof (relation "measure (\<lambda>x. nat \<lceil>1 / x\<rceil>)")
  show "wf (measure (\<lambda>x::rat. nat \<lceil>1 / x\<rceil>))" by simp
next
  fix x :: rat
  assume a: "\<not> (x \<le> 0 \<or> 1 \<le> x)"
  then have x: "0 < x" "x < 1" by auto
  then have y: "1 < 1 / x" by simp
  define k where "k = \<lceil>1 / x\<rceil>"
  have c: "2 \<le> k" unfolding k_def using y by linarith
  have le: "1 / x \<le> of_int k" unfolding k_def by simp
  have "1 / (x * 10) = (1 / x) / 10" by simp
  also have "\<dots> \<le> of_int k / 10" using le by (simp add: divide_right_mono)
  also have "\<dots> \<le> of_int (k - 1)" using c by simp
  finally have "\<lceil>1 / (x * 10)\<rceil> \<le> k - 1" by (simp only: ceiling_le_iff)
  then have "nat \<lceil>1 / (x * 10)\<rceil> < nat k" using c by linarith
  then show "(x * 10, x) \<in> measure (\<lambda>x. nat \<lceil>1 / x\<rceil>)" unfolding k_def by (simp only: in_measure)
qed

declare decExpUp.simps [simp del] decExpDown.simps [simp del]

definition decExp :: "rat \<Rightarrow> int" where
  "decExp x = (if 1 \<le> x then decExpUp x else decExpDown x)"

text \<open>
  The library's \<^verbatim>\<open>finalise\<close> at precision 20 and rounding mode \<^verbatim>\<open>ROUND_HALF_UP\<close>:
  the nearest number with at most 20 significant digits, a tie going away from zero.
\<close>

definition round20 :: "rat \<Rightarrow> decimal" where
  "round20 x =
     (if x = 0 then 0
      else let q = 10 powi (19 - decExp \<bar>x\<bar>);
               m = of_int \<lfloor>\<bar>x\<bar> * q + 1 / 2\<rfloor> / q
           in if x < 0 then - m else m)"

text \<open>\<^verbatim>\<open>x.plus(y)\<close> (also \<^verbatim>\<open>x.add(y)\<close>), \<^verbatim>\<open>x.minus(y)\<close>, \<^verbatim>\<open>x.times(y)\<close> and
  \<^verbatim>\<open>x.div(100)\<close>.\<close>

definition decAdd :: "decimal \<Rightarrow> decimal \<Rightarrow> decimal" where
  "decAdd x y = round20 (x + y)"

definition decMinus :: "decimal \<Rightarrow> decimal \<Rightarrow> decimal" where
  "decMinus x y = round20 (x - y)"

definition decTimes :: "decimal \<Rightarrow> decimal \<Rightarrow> decimal" where
  "decTimes x y = round20 (x * y)"

definition decDiv100 :: "decimal \<Rightarrow> decimal" where
  "decDiv100 x = round20 (x / 100)"

text \<open>\<^verbatim>\<open>Number.toString\<close> of a non-negative integer.\<close>

definition digitChar :: "nat \<Rightarrow> char" where
  "digitChar n = ''0123456789'' ! (n mod 10)"

function natToString :: "nat \<Rightarrow> string" where
  "natToString n = (if n < 10 then [digitChar n] else natToString (n div 10) @ [digitChar n])"
  by pat_completeness auto
termination
  by (relation "measure id") auto

declare natToString.simps [simp del]

text \<open>
  \<^verbatim>\<open>Decimal.prototype.toFixed(2)\<close> under the rounding mode \<^verbatim>\<open>ROUND_HALF_UP\<close> (to
  the nearest neighbour, ties away from zero). The sign is taken from the value
  before rounding, as the library does.
\<close>

definition toFixed2 :: "decimal \<Rightarrow> string" where
  "toFixed2 x =
     (let n = nat \<lfloor>\<bar>x\<bar> * 100 + 1 / 2\<rfloor>;
          body = natToString (n div 100) @ ''.'' @ [digitChar (n div 10), digitChar n]
      in if x < 0 then ''-'' @ body else body)"

subsection \<open>Payout tiers and \<^verbatim>\<open>calculateTieredPayout\<close>\<close>

text \<open>
  A payout tier of the scheme JSON. The field \<^verbatim>\<open>to\<close> may be \<^verbatim>\<open>null\<close> or absent
  (\<open>None\<close>).
\<close>

record tier =
  tier_id :: string
  tier_from :: decimal
  tier_to :: "decimal option"
  tier_rate :: decimal
  tier_isPercentage :: bool

text \<open>\<^verbatim>\<open>Decimal.max(0, Decimal.min(amount, tierRangeEnd).minus(tierRangeStart))\<close>.\<close>

definition amountInTier :: "decimal \<Rightarrow> decimal \<Rightarrow> decimal \<Rightarrow> decimal" where
  "amountInTier amount tierRangeStart tierRangeEnd =
     max 0 (decMinus (min amount tierRangeEnd) tierRangeStart)"

text \<open>\<^verbatim>\<open>amountInTier.times(tierRate).div(100)\<close> for a percentage tier, else
  \<^verbatim>\<open>amountInTier.times(tierRate)\<close>.\<close>

definition payoutForTier :: "tier \<Rightarrow> decimal \<Rightarrow> decimal" where
  "payoutForTier t inTier =
     (if tier_isPercentage t then decDiv100 (decTimes inTier (tier_rate t))
      else decTimes inTier (tier_rate t))"

text \<open>
  The body of the \<^verbatim>\<open>for (const tier of sortedTiers)\<close> loop, with its \<^verbatim>\<open>continue\<close>
  and its two \<^verbatim>\<open>break\<close>s; the accumulator is \<^verbatim>\<open>totalPayout\<close>.

  For a tier without \<^verbatim>\<open>to\<close> the source takes \<^verbatim>\<open>tierTo = Decimal.Infinity\<close>. The
  library has no property of that name and the repository assigns none, so
  \<^verbatim>\<open>tierTo\<close> is \<^verbatim>\<open>undefined\<close>, and \<^verbatim>\<open>Decimal.min(amount, undefined)\<close>, the first
  use of it, throws \<^verbatim>\<open>[DecimalError] Invalid argument: undefined\<close>. The loop
  therefore throws as soon as it reaches such a tier, before the \<^verbatim>\<open>continue\<close> and
  both \<^verbatim>\<open>break\<close>s; \<open>None\<close> is that exception.
\<close>

fun tierLoop :: "decimal \<Rightarrow> tier list \<Rightarrow> decimal \<Rightarrow> decimal option" where
  "tierLoop amount [] totalPayout = Some totalPayout"
| "tierLoop amount (t # ts) totalPayout =
     (case tier_to t of
        None \<Rightarrow> None
      | Some tierTo \<Rightarrow>
          (let inTier = amountInTier amount (tier_from t) tierTo
           in if inTier = 0 \<and> amount > tierTo then tierLoop amount ts totalPayout
              else if inTier = 0 \<and> amount \<le> tier_from t then Some totalPayout
              else if amount \<le> tierTo then Some (decAdd totalPayout (payoutForTier t inTier))
              else tierLoop amount ts (decAdd totalPayout (payoutForTier t inTier))))"

text \<open>\<^verbatim>\<open>[...tiers].sort((a, b) => a.from - b.from)\<close> is a stable sort on \<^verbatim>\<open>from\<close>.\<close>

definition calculateTieredPayout :: "decimal \<Rightarrow> tier list \<Rightarrow> decimal option" where
  "calculateTieredPayout amount tiers = tierLoop amount (sort_key tier_from tiers) 0"


subsection \<open>JavaScript values, rows and strings\<close>

text \<open>
  The values that reach the rule evaluator: a missing property (\<^verbatim>\<open>undefined\<close>; it
  also stands for the \<^verbatim>\<open>null\<close> that the credit-split loop assigns to its lookup
  variable, which is only tested for truthiness), a string (every cell of a parsed CSV
  file, every rule value of the scheme JSON), a boolean (the result of the per-record
  qualification check) and a \<^verbatim>\<open>Decimal\<close> (an aggregate, an adjusted amount).
\<close>

datatype jsval = Undefined | Str string | Bool bool | Dec decimal

text \<open>JavaScript truthiness; a \<^verbatim>\<open>Decimal\<close> is an object and therefore truthy.\<close>

fun truthy :: "jsval \<Rightarrow> bool" where
  "truthy Undefined = False"
| "truthy (Str s) = (s \<noteq> [])"
| "truthy (Bool b) = b"
| "truthy (Dec d) = True"

text \<open>An object with string keys; the first binding of a key is the current one, so
  an assignment \<^verbatim>\<open>o[k] = v\<close> puts the binding in front. A key without a binding
  reads as \<^verbatim>\<open>undefined\<close>: the column and field names of a scheme are taken not to
  be names that every object inherits from \<^verbatim>\<open>Object.prototype\<close>. (The agent ids of
  the data and the name of the base data file, which are looked up in objects of the
  runtime, get that treatment below.)\<close>

type_synonym row = "(string \<times> jsval) list"

definition getProp :: "row \<Rightarrow> string \<Rightarrow> jsval" where
  "getProp r k = (case map_of r k of None \<Rightarrow> Undefined | Some v \<Rightarrow> v)"

definition setProp :: "string \<Rightarrow> jsval \<Rightarrow> row \<Rightarrow> row" where
  "setProp k v r = (k, v) # r"

text \<open>\<^verbatim>\<open>String.prototype.trim\<close> on the ASCII white space characters, and
  \<^verbatim>\<open>String.prototype.split\<close> on a one-character separator.\<close>

definition isSpace :: "char \<Rightarrow> bool" where
  "isSpace c = (c \<in> set [CHR '' '', CHR 0x09, CHR 0x0A, CHR 0x0B, CHR 0x0C, CHR 0x0D])"

definition trim :: "string \<Rightarrow> string" where
  "trim s = rev (dropWhile isSpace (rev (dropWhile isSpace s)))"

fun strSplit :: "char \<Rightarrow> string \<Rightarrow> string list" where
  "strSplit sep [] = [[]]"
| "strSplit sep (c # cs) =
     (if c = sep then [] # strSplit sep cs
      else (case strSplit sep cs of [] \<Rightarrow> [[c]] | w # ws \<Rightarrow> (c # w) # ws))"

text \<open>\<^verbatim>\<open>String.prototype.includes\<close>.\<close>

fun strIncludes :: "string \<Rightarrow> string \<Rightarrow> bool" where
  "strIncludes [] t = (t = [])"
| "strIncludes (c # cs) t = (prefix t (c # cs) \<or> strIncludes cs t)"

subsection \<open>\<^verbatim>\<open>parseCSV\<close>\<close>

text \<open>The header row names the columns; a data row with fewer cells than the header
  is skipped; a later column of the same name overwrites an earlier one.\<close>

definition rowObject :: "string list \<Rightarrow> string list \<Rightarrow> row" where
  "rowObject headers vals = rev (zip headers (map Str vals))"

definition parseCSV :: "string \<Rightarrow> row list" where
  "parseCSV csvString =
     (if csvString = [] then []
      else let lines = strSplit CHR 0x0A (trim csvString) in
        if length lines < 2 then []
        else let headers = map trim (strSplit CHR '','' (hd lines)) in
          concat (map (\<lambda>line. let vals = map trim (strSplit CHR '','' line) in
                         if length vals < length headers then [] else [rowObject headers vals])
                      (tl lines)))"

subsection \<open>The host: the decimal library, the \<^verbatim>\<open>Date\<close> constructor, random ids\<close>

text \<open>
  The things that \<^verbatim>\<open>runScheme\<close> takes from outside the repository are parameters
  of the embedding, so that every theorem holds whatever they answer:

  \<^item> \<open>newDecimal\<close>: \<^verbatim>\<open>new Decimal(string)\<close>, the finite value that the library reads
    from a string, \<open>None\<close> when the constructor throws; \<open>decimalToString\<close>:
    \<^verbatim>\<open>Decimal.prototype.toString\<close>;
  \<^item> \<open>newDate\<close>: \<^verbatim>\<open>new Date(string)\<close> followed by \<^verbatim>\<open>setUTCHours(0, 0, 0, 0)\<close>, the
    UTC day that the engine reads from a string, \<open>None\<close> for an invalid date;
    \<open>newDateOfValue\<close>: the same for an argument that is no string (\<^verbatim>\<open>true\<close>, a
    \<^verbatim>\<open>Decimal\<close>);
  \<^item> \<open>randomId\<close>: the identifier \<^verbatim>\<open>rec_...\<close> made from the \<open>n\<close>-th call of
    \<^verbatim>\<open>Math.random\<close>;
  \<^item> \<open>objectPrototypeHas\<close>: whether \<^verbatim>\<open>Object.prototype\<close> has a property of the given
    name (\<^verbatim>\<open>constructor\<close>, \<^verbatim>\<open>toString\<close>, \<^verbatim>\<open>__proto__\<close> and the like), which an empty
    object literal inherits.

  A date is a UTC midnight, identified by an integer that orders days as time does;
  the runtime only compares the \<^verbatim>\<open>getTime()\<close> of such dates.
\<close>

type_synonym date = int

record host =
  newDecimal :: "string \<Rightarrow> decimal option"
  decimalToString :: "decimal \<Rightarrow> string"
  newDate :: "string \<Rightarrow> date option"
  newDateOfValue :: "jsval \<Rightarrow> date option"
  randomId :: "nat \<Rightarrow> string"
  objectPrototypeHas :: "string \<Rightarrow> bool"

text \<open>\<^verbatim>\<open>new Decimal(v)\<close> for any value; booleans and \<^verbatim>\<open>undefined\<close> make it throw.\<close>

fun toDecimal :: "host \<Rightarrow> jsval \<Rightarrow> decimal option" where
  "toDecimal hst (Str s) = newDecimal hst s"
| "toDecimal hst (Dec d) = Some d"
| "toDecimal hst Undefined = None"
| "toDecimal hst (Bool b) = None"

text \<open>
  \<^verbatim>\<open>parseDate\<close>: a falsy argument (\<^verbatim>\<open>undefined\<close>, the empty string, \<^verbatim>\<open>false\<close>)
  gives \<^verbatim>\<open>null\<close>; every other argument goes to the \<^verbatim>\<open>Date\<close> constructor (the
  format test before it only prints a warning), and an invalid date gives \<^verbatim>\<open>null\<close>.
\<close>

fun parseDate :: "host \<Rightarrow> jsval \<Rightarrow> date option" where
  "parseDate hst (Str s) = (if s = [] then None else newDate hst s)"
| "parseDate hst Undefined = None"
| "parseDate hst (Bool b) = (if b then newDateOfValue hst (Bool b) else None)"
| "parseDate hst (Dec d) = newDateOfValue hst (Dec d)"

text \<open>\<^verbatim>\<open>String(v)\<close>.\<close>

fun jsString :: "host \<Rightarrow> jsval \<Rightarrow> string" where
  "jsString hst Undefined = ''undefined''"
| "jsString hst (Str s) = s"
| "jsString hst (Bool b) = (if b then ''true'' else ''false'')"
| "jsString hst (Dec d) = decimalToString hst d"

subsection \<open>\<^verbatim>\<open>evaluateRule\<close>\<close>

text \<open>
  \<^verbatim>\<open>evaluateRule(recordValue, operator, ruleValue, dataType)\<close>. For the data type
  \<^verbatim>\<open>Number\<close> both operands go through \<^verbatim>\<open>new Decimal\<close> and an exception gives
  \<^verbatim>\<open>false\<close>. For \<^verbatim>\<open>Date\<close> the function wants \<^verbatim>\<open>Date\<close> objects; no value that the
  runtime passes is one, so the answer is \<^verbatim>\<open>false\<close>. Every other data type compares
  \<^verbatim>\<open>String(recordValue)\<close> with \<^verbatim>\<open>String(ruleValue)\<close>, by code units.
\<close>

definition evaluateRule :: "host \<Rightarrow> jsval \<Rightarrow> string \<Rightarrow> jsval \<Rightarrow> string \<Rightarrow> bool" where
  "evaluateRule hst recordValue operator ruleValue dataType =
     (if dataType = ''Number'' then
        (case toDecimal hst recordValue of
           None \<Rightarrow> False
         | Some rv \<Rightarrow>
             (case toDecimal hst ruleValue of
                None \<Rightarrow> False
              | Some v \<Rightarrow>
                  if operator = ''='' then rv = v
                  else if operator = ''>='' then rv \<ge> v
                  else if operator = ''<='' then rv \<le> v
                  else if operator = ''>'' then rv > v
                  else if operator = ''<'' then rv < v
                  else if operator = ''CONTAINS''
                    then strIncludes (decimalToString hst rv) (decimalToString hst v)
                  else if operator = ''!='' then rv \<noteq> v
                  else False))
      else if dataType = ''Date'' then False
      else
        (let rv = jsString hst recordValue; v = jsString hst ruleValue
         in if operator = ''='' then rv = v
            else if operator = ''>='' then rv \<ge> v
            else if operator = ''<='' then rv \<le> v
            else if operator = ''>'' then rv > v
            else if operator = ''<'' then rv < v
            else if operator = ''CONTAINS'' then strIncludes rv v
            else if operator = ''!='' then rv \<noteq> v
            else False))"

subsection \<open>\<^verbatim>\<open>findManager\<close>\<close>

text \<open>
  \<^verbatim>\<open>findManager(hierarchyData, agentId, transactionDate)\<close> scans the hierarchy rows
  in file order and returns the first row whose \<^verbatim>\<open>Sales Employee\<close> is strictly equal
  (\<^verbatim>\<open>===\<close>) to the agent id and whose window holds the date:
  \<^verbatim>\<open>Reports From\<close> must parse and lie on or before the date; \<^verbatim>\<open>Reports To\<close>, when it
  parses, must lie on or after it, and is no bound when it does not parse.
  \<open>None\<close> is the result \<^verbatim>\<open>null\<close>.
\<close>

record managerDetails =
  managerId :: jsval
  validFrom :: jsval
  validTo :: jsval

definition hierarchyRecordValid :: "host \<Rightarrow> row \<Rightarrow> date \<Rightarrow> bool" where
  "hierarchyRecordValid hst record targetDate =
     (let isAfterFrom = (case parseDate hst (getProp record ''Reports From'') of
                           Some fromDate \<Rightarrow> fromDate \<le> targetDate | None \<Rightarrow> False);
          isBeforeTo = (case parseDate hst (getProp record ''Reports To'') of
                          Some toDate \<Rightarrow> targetDate \<le> toDate | None \<Rightarrow> True)
      in isAfterFrom \<and> isBeforeTo)"

definition detailsOf :: "row \<Rightarrow> managerDetails" where
  "detailsOf record =
     \<lparr>managerId = getProp record ''Reports To Person'',
      validFrom = getProp record ''Reports From'',
      validTo = (if truthy (getProp record ''Reports To'')
                 then getProp record ''Reports To'' else Str ''Indefinite'')\<rparr>"

fun findManagerLoop :: "host \<Rightarrow> row list \<Rightarrow> jsval \<Rightarrow> date \<Rightarrow> managerDetails option" where
  "findManagerLoop hst [] agentId targetDate = None"
| "findManagerLoop hst (record # rest) agentId targetDate =
     (if getProp record ''Sales Employee'' = agentId \<and> hierarchyRecordValid hst record targetDate
      then Some (detailsOf record)
      else findManagerLoop hst rest agentId targetDate)"

definition findManager :: "host \<Rightarrow> row list \<Rightarrow> jsval \<Rightarrow> date \<Rightarrow> managerDetails option" where
  "findManager hst hierarchyData agentId transactionDate =
     (if \<not> truthy agentId then None
      else findManagerLoop hst hierarchyData agentId transactionDate)"


subsection \<open>The scheme configuration\<close>

text \<open>The parts of the scheme JSON that \<^verbatim>\<open>runScheme\<close> reads. A rule value is a
  string in the JSON; the runtime itself may later overwrite it with \<^verbatim>\<open>true\<close>.\<close>

record rule =
  rule_id :: string
  rule_field :: string
  rule_operator :: string
  rule_value :: jsval

text \<open>An adjustment rule: its \<^verbatim>\<open>condition\<close> object and its \<^verbatim>\<open>adjustment\<close> object.\<close>

record adjustmentRule =
  adj_id :: string
  condition_field :: string
  condition_operator :: string
  condition_value :: jsval
  adjustment_target :: string
  adjustment_type :: string
  adjustment_value :: decimal

record kpiField =
  kf_name :: string
  kf_sourceField :: string
  kf_dataType :: string
  kf_evaluationLevel :: string
  kf_aggregation :: string

record baseMapping =
  sourceFile :: string
  agentField :: string
  amountField :: string
  transactionDateField :: string

record kpiConfig =
  qualificationFields :: "kpiField list"
  adjustmentFields :: "kpiField list"
  exclusionFields :: "kpiField list"

record creditSplit =
  split_role :: string
  split_percentage :: decimal

record scheme =
  effectiveFrom :: jsval
  quotaAmount :: decimal
  baseMapping :: baseMapping
  qualificationRules :: "rule list"
  adjustmentRules :: "adjustmentRule list"
  exclusionRules :: "rule list"
  customRules :: "string list"
  creditSplits :: "creditSplit list"
  creditHierarchyFile :: string
  payoutTiers :: "tier list"
  kpiConfig :: kpiConfig

subsection \<open>Log entries\<close>

text \<open>
  The objects that \<^verbatim>\<open>logEvent\<close> pushes, one constructor per shape, with the fields
  that identify the event. Timestamps and free-text messages are left out. The rule id
  comes first where there is one; record and agent ids follow. A credit record
  (\<open>Distribution\<close>) holds \<^verbatim>\<open>fromAgent\<close>, \<^verbatim>\<open>toAgent\<close>, \<^verbatim>\<open>level\<close>, \<^verbatim>\<open>percentage\<close>,
  \<^verbatim>\<open>amount\<close>, \<^verbatim>\<open>resolvedUsing\<close> and the manager details behind \<^verbatim>\<open>validDuring\<close>.
\<close>

datatype logEntry =
    DateWarning jsval jsval
  | MissingAgentWarning
  | DataError jsval string
  | Exclusion string jsval string
  | Adjustment string jsval string
  | Custom jsval string
  | SumWarning string jsval
  | AggregationError string string
  | Qualification string string bool jsval
  | Disqualified string string
  | Quota string bool
  | PayoutCalculation string string string
  | SplitWarning string string jsval int
  | Distribution string jsval string decimal string string "managerDetails option"
  | SplitInfo string string

fun isExclusion :: "logEntry \<Rightarrow> bool" where
  "isExclusion (Exclusion ruleId recordId agentId) = True"
| "isExclusion e = False"

fun isAdjustment :: "logEntry \<Rightarrow> bool" where
  "isAdjustment (Adjustment ruleId recordId agentId) = True"
| "isAdjustment e = False"

fun isDisqualified :: "logEntry \<Rightarrow> bool" where
  "isDisqualified (Disqualified agentId ruleId) = True"
| "isDisqualified e = False"

fun isPayoutCalculation :: "logEntry \<Rightarrow> bool" where
  "isPayoutCalculation (PayoutCalculation agentId baseAmount payoutAmount) = True"
| "isPayoutCalculation e = False"

subsection \<open>Step 3 of \<^verbatim>\<open>runScheme\<close>: exclusions and adjustments of one record\<close>

text \<open>\<^verbatim>\<open>fieldDefs.find((f) => f.name === name)\<close>.\<close>

definition findField :: "kpiField list \<Rightarrow> string \<Rightarrow> kpiField option" where
  "findField fieldDefs name = find (\<lambda>f. kf_name f = name) fieldDefs"

text \<open>
  Step 3.A, the loop over \<^verbatim>\<open>scheme.exclusionRules\<close>: a rule whose field is not in
  \<^verbatim>\<open>kpiConfig.exclusionFields\<close> is passed over; the first rule that matches ends the
  loop (\<^verbatim>\<open>break\<close>). The result is that rule, or \<open>None\<close> when the loop runs out.
\<close>

fun exclusionLoop :: "host \<Rightarrow> kpiField list \<Rightarrow> rule list \<Rightarrow> row \<Rightarrow> rule option" where
  "exclusionLoop hst fieldDefs [] record = None"
| "exclusionLoop hst fieldDefs (r # rs) record =
     (case findField fieldDefs (rule_field r) of
        None \<Rightarrow> exclusionLoop hst fieldDefs rs record
      | Some fieldDef \<Rightarrow>
          if evaluateRule hst (getProp record (kf_sourceField fieldDef)) (rule_operator r)
               (rule_value r) (kf_dataType fieldDef)
          then Some r
          else exclusionLoop hst fieldDefs rs record)"

text \<open>The effect of one matching adjustment rule on \<^verbatim>\<open>currentAmount\<close> and
  \<^verbatim>\<open>rateMultiplier\<close>, in the order of the source's \<^verbatim>\<open>if\<close> chain.\<close>

definition applyAdjustment :: "adjustmentRule \<Rightarrow> decimal \<times> decimal \<Rightarrow> decimal \<times> decimal" where
  "applyAdjustment r st =
     (case st of (currentAmount, rateMultiplier) \<Rightarrow>
        if adjustment_target r = ''Amount'' then
          (if adjustment_type r = ''percentage''
             then (decAdd currentAmount (decDiv100 (decTimes currentAmount (adjustment_value r))),
                   rateMultiplier)
           else if adjustment_type r = ''fixed''
             then (decAdd currentAmount (adjustment_value r), rateMultiplier)
           else (currentAmount, rateMultiplier))
        else if adjustment_target r = ''Rate'' then
          (if adjustment_type r = ''percentage''
             then (currentAmount, decTimes rateMultiplier (decDiv100 (adjustment_value r)))
           else if adjustment_type r = ''fixed''
             then (currentAmount, decTimes rateMultiplier (adjustment_value r))
           else (currentAmount, rateMultiplier))
        else (currentAmount, rateMultiplier))"

text \<open>
  Step 3.B, the loop over \<^verbatim>\<open>scheme.adjustmentRules\<close>. The state is
  \<^verbatim>\<open>currentAmount\<close>, \<^verbatim>\<open>rateMultiplier\<close> and the entries logged so far. The
  condition reads the record, never the running amounts.
\<close>

fun adjustmentLoop ::
  "host \<Rightarrow> kpiField list \<Rightarrow> adjustmentRule list \<Rightarrow> row \<Rightarrow> jsval \<Rightarrow> string \<Rightarrow>
   (decimal \<times> decimal) \<times> logEntry list \<Rightarrow> (decimal \<times> decimal) \<times> logEntry list" where
  "adjustmentLoop hst fieldDefs [] record recordId agentId st = st"
| "adjustmentLoop hst fieldDefs (r # rs) record recordId agentId st =
     (case findField fieldDefs (condition_field r) of
        None \<Rightarrow> adjustmentLoop hst fieldDefs rs record recordId agentId st
      | Some fieldDef \<Rightarrow>
          if evaluateRule hst (getProp record (kf_sourceField fieldDef)) (condition_operator r)
               (condition_value r) (kf_dataType fieldDef)
          then adjustmentLoop hst fieldDefs rs record recordId agentId
                 (applyAdjustment r (fst st), snd st @ [Adjustment (adj_id r) recordId agentId])
          else adjustmentLoop hst fieldDefs rs record recordId agentId st)"

text \<open>
  The body of the loop over one agent's records. Its result holds the entries pushed
  to \<^verbatim>\<open>rawRecordLevelData\<close>, the amount added to \<^verbatim>\<open>totalBaseAmount\<close>, the amount
  added to \<^verbatim>\<open>totalAdjustedAmount\<close> (\<open>None\<close> when nothing is added), and the record
  as pushed to \<^verbatim>\<open>processedRecords\<close> (with its \<^verbatim>\<open>adjustedAmount\<close>), if it is.
  The body first reads the base amount; when that throws, the record gets a
  \<^verbatim>\<open>DataError\<close> entry and the loop goes to the next record. Otherwise steps 3.A to
  3.C follow (\<open>applyRecordRules\<close>): a record that an exclusion rule matches gets the
  \<^verbatim>\<open>Exclusion\<close> entry and the loop goes to the next record (\<^verbatim>\<open>continue\<close>); any
  other record goes through the adjustment rules and the custom-rule hook.
\<close>

record recordResult =
  rawLogs :: "logEntry list"
  baseAdded :: "decimal option"
  adjustedAdded :: "decimal option"
  processed :: "row option"

definition recordInternalId :: "row \<Rightarrow> jsval" where
  "recordInternalId record = getProp record ''recordInternalId''"

definition applyRecordRules :: "host \<Rightarrow> scheme \<Rightarrow> string \<Rightarrow> row \<Rightarrow> decimal \<Rightarrow> recordResult" where
  "applyRecordRules hst sch agentId record baseAmount =
     (let recordId = recordInternalId record
      in case exclusionLoop hst (exclusionFields (kpiConfig sch)) (exclusionRules sch) record of
           Some r \<Rightarrow>
             \<lparr>rawLogs = [Exclusion (rule_id r) recordId agentId], baseAdded = Some baseAmount,
              adjustedAdded = None, processed = None\<rparr>
         | None \<Rightarrow>
             (let adjusted = adjustmentLoop hst (adjustmentFields (kpiConfig sch))
                               (adjustmentRules sch) record recordId agentId
                               ((baseAmount, 1), []);
                  customLog = (if customRules sch \<noteq> [] then [Custom recordId agentId] else []);
                  finalRecordAmount = decTimes (fst (fst adjusted)) (snd (fst adjusted))
              in \<lparr>rawLogs = snd adjusted @ customLog, baseAdded = Some baseAmount,
                  adjustedAdded = Some finalRecordAmount,
                  processed = Some (setProp ''adjustedAmount'' (Dec finalRecordAmount) record)\<rparr>))"

text \<open>\<^verbatim>\<open>new Decimal(baseAmountValue || 0)\<close> inside its \<^verbatim>\<open>try\<close>; \<open>None\<close> is the
  \<^verbatim>\<open>catch\<close> branch.\<close>

definition readBaseAmount :: "host \<Rightarrow> scheme \<Rightarrow> row \<Rightarrow> decimal option" where
  "readBaseAmount hst sch record =
     (let baseAmountValue = getProp record (amountField (baseMapping sch))
      in if truthy baseAmountValue then toDecimal hst baseAmountValue else Some 0)"

definition processRecord :: "host \<Rightarrow> scheme \<Rightarrow> string \<Rightarrow> row \<Rightarrow> recordResult" where
  "processRecord hst sch agentId record =
     (case readBaseAmount hst sch record of
        None \<Rightarrow>
          \<lparr>rawLogs = [DataError (recordInternalId record) agentId], baseAdded = None,
           adjustedAdded = None, processed = None\<rparr>
      | Some baseAmount \<Rightarrow> applyRecordRules hst sch agentId record baseAmount)"

text \<open>
  The loop over one agent's records: its state is the entries pushed to
  \<^verbatim>\<open>rawRecordLevelData\<close>, \<^verbatim>\<open>agentInfo.totalBaseAmount\<close>,
  \<^verbatim>\<open>agentInfo.totalAdjustedAmount\<close> and \<^verbatim>\<open>processedRecords\<close>. The totals grow by
  \<^verbatim>\<open>add\<close>, and only where the source calls it.
\<close>

record loopState =
  loopLogs :: "logEntry list"
  loopBase :: decimal
  loopAdjusted :: decimal
  loopRecords :: "row list"

definition recordStep :: "host \<Rightarrow> scheme \<Rightarrow> string \<Rightarrow> loopState \<Rightarrow> row \<Rightarrow> loopState" where
  "recordStep hst sch agentId st record =
     (let res = processRecord hst sch agentId record
      in \<lparr>loopLogs = loopLogs st @ rawLogs res,
          loopBase = (case baseAdded res of None \<Rightarrow> loopBase st
                      | Some b \<Rightarrow> decAdd (loopBase st) b),
          loopAdjusted = (case adjustedAdded res of None \<Rightarrow> loopAdjusted st
                          | Some a \<Rightarrow> decAdd (loopAdjusted st) a),
          loopRecords = (case processed res of None \<Rightarrow> loopRecords st
                         | Some p \<Rightarrow> loopRecords st @ [p])\<rparr>)"

definition recordLoop :: "host \<Rightarrow> scheme \<Rightarrow> string \<Rightarrow> row list \<Rightarrow> loopState" where
  "recordLoop hst sch agentId recs =
     foldl (recordStep hst sch agentId)
       \<lparr>loopLogs = [], loopBase = 0, loopAdjusted = 0, loopRecords = []\<rparr> recs"

subsection \<open>Step 4 of \<^verbatim>\<open>runScheme\<close>: qualification of one agent\<close>

text \<open>
  The reducer of the \<^verbatim>\<open>Sum\<close> aggregation over the agent's processed records: the
  adjusted amount when the field is the amount field, else the field's own value
  (\<^verbatim>\<open>0\<close> when falsy). A value that is no decimal leaves the sum as it is and logs a
  warning to the agent's log.
\<close>

definition sumValue :: "host \<Rightarrow> scheme \<Rightarrow> kpiField \<Rightarrow> row \<Rightarrow> decimal option" where
  "sumValue hst sch fieldDef rec =
     (if kf_sourceField fieldDef = amountField (baseMapping sch)
         \<and> getProp rec ''adjustedAmount'' \<noteq> Undefined
      then toDecimal hst (getProp rec ''adjustedAmount'')
      else if truthy (getProp rec (kf_sourceField fieldDef))
      then toDecimal hst (getProp rec (kf_sourceField fieldDef))
      else Some 0)"

fun sumReduce ::
  "host \<Rightarrow> scheme \<Rightarrow> rule \<Rightarrow> kpiField \<Rightarrow> row list \<Rightarrow> decimal \<times> logEntry list \<Rightarrow>
   decimal \<times> logEntry list"
  where
  "sumReduce hst sch r fieldDef [] acc = acc"
| "sumReduce hst sch r fieldDef (rec # recs) acc =
     (case sumValue hst sch fieldDef rec of
        Some val \<Rightarrow> sumReduce hst sch r fieldDef recs (decAdd (fst acc) val, snd acc)
      | None \<Rightarrow> sumReduce hst sch r fieldDef recs
                  (fst acc, snd acc @ [SumWarning (rule_id r) (recordInternalId rec)]))"

text \<open>
  The assignment \<^verbatim>\<open>fieldDef.dataType = 'Boolean'\<close> changes the object that
  \<^verbatim>\<open>find\<close> returned, the first field of that name in
  \<^verbatim>\<open>kpiConfig.qualificationFields\<close>.
\<close>

fun setDataType :: "string \<Rightarrow> string \<Rightarrow> kpiField list \<Rightarrow> kpiField list" where
  "setDataType name dt [] = []"
| "setDataType name dt (f # fs) =
     (if kf_name f = name then f\<lparr>kf_dataType := dt\<rparr> # fs else f # setDataType name dt fs)"

text \<open>
  The outcome of the qualification loop: the agent's log entries, the flag
  \<^verbatim>\<open>qualified\<close>, and the rule and field objects as the loop leaves them. The loop
  writes into the scheme: on the per-record path it assigns \<^verbatim>\<open>rule.value = true\<close>,
  \<^verbatim>\<open>rule.operator = '='\<close> and \<^verbatim>\<open>fieldDef.dataType = 'Boolean'\<close>, and these
  assignments stay for every later use of the scheme object.
\<close>

record qualResult =
  qualLogs :: "logEntry list"
  qualifiedFlag :: bool
  rulesAfter :: "rule list"
  fieldsAfter :: "kpiField list"

fun qualificationLoop ::
  "host \<Rightarrow> scheme \<Rightarrow> string \<Rightarrow> row list \<Rightarrow> kpiField list \<Rightarrow> rule list \<Rightarrow> logEntry list \<Rightarrow>
   qualResult"
  where
  "qualificationLoop hst sch agentId recs fieldDefs [] lg =
     \<lparr>qualLogs = lg, qualifiedFlag = True, rulesAfter = [], fieldsAfter = fieldDefs\<rparr>"
| "qualificationLoop hst sch agentId recs fieldDefs (r # rs) lg =
     (case findField fieldDefs (rule_field r) of
        None \<Rightarrow>
          (let res = qualificationLoop hst sch agentId recs fieldDefs rs lg
           in res\<lparr>rulesAfter := r # rulesAfter res\<rparr>)
      | Some fieldDef \<Rightarrow>
          if kf_evaluationLevel fieldDef = ''Agent''
             \<and> kf_aggregation fieldDef \<noteq> ''Sum'' \<and> kf_aggregation fieldDef \<noteq> ''Count''
          then
            (let res = qualificationLoop hst sch agentId recs fieldDefs rs
                         (lg @ [AggregationError (rule_id r) (kf_aggregation fieldDef)])
             in res\<lparr>rulesAfter := r # rulesAfter res\<rparr>)
          else
            (let perRecord = (kf_evaluationLevel fieldDef \<noteq> ''Agent'');
                 summed = sumReduce hst sch r fieldDef recs (0, []);
                 foundMatch = list_ex (\<lambda>rec. evaluateRule hst (getProp rec (kf_sourceField fieldDef))
                                 (rule_operator r) (rule_value r) (kf_dataType fieldDef)) recs;
                 valueToEvaluate =
                   (if perRecord then Bool foundMatch
                    else if kf_aggregation fieldDef = ''Sum'' then Dec (fst summed)
                    else Dec (of_nat (length recs)));
                 lg1 = (if \<not> perRecord \<and> kf_aggregation fieldDef = ''Sum''
                        then lg @ snd summed else lg);
                 r1 = (if perRecord then r\<lparr>rule_operator := ''='', rule_value := Bool True\<rparr> else r);
                 fieldDefs1 = (if perRecord then setDataType (rule_field r) ''Boolean'' fieldDefs
                               else fieldDefs);
                 dataType1 = (if perRecord then ''Boolean'' else kf_dataType fieldDef);
                 ruleMet = evaluateRule hst valueToEvaluate (rule_operator r1) (rule_value r1)
                             dataType1;
                 lg2 = lg1 @ [Qualification (rule_id r) agentId ruleMet valueToEvaluate]
             in if \<not> ruleMet
                then \<lparr>qualLogs = lg2 @ [Disqualified agentId (rule_id r)], qualifiedFlag = False,
                      rulesAfter = r1 # rs, fieldsAfter = fieldDefs1\<rparr>
                else (let res = qualificationLoop hst sch agentId recs fieldDefs1 rs lg2
                      in res\<lparr>rulesAfter := r1 # rulesAfter res\<rparr>)))"

subsection \<open>Step 5 of \<^verbatim>\<open>runScheme\<close>: quota gate and payout tiers\<close>

text \<open>
  The payout of one agent and the entries logged for it. An agent that is not
  qualified gets \<^verbatim>\<open>0\<close>. A quota above zero is a gate: below it the payout is
  \<^verbatim>\<open>0\<close> and the tiers are not consulted; otherwise the tiers are applied to
  \<^verbatim>\<open>amountForTierCalc\<close>, which is the whole \<^verbatim>\<open>totalAdjustedAmount\<close>. The call of
  \<^verbatim>\<open>calculateTieredPayout\<close> is inside no \<^verbatim>\<open>try\<close>, so its exception (\<open>None\<close>) leaves
  \<^verbatim>\<open>runScheme\<close>.
\<close>

definition payoutStep ::
  "scheme \<Rightarrow> string \<Rightarrow> bool \<Rightarrow> decimal \<Rightarrow> (decimal \<times> logEntry list) option" where
  "payoutStep sch agentId qualified totalAdjusted =
     (if qualified then
        (let quota = quotaAmount sch;
             amountForTierCalc = totalAdjusted;
             meetsQuota = \<not> (quota > 0 \<and> totalAdjusted < quota);
             quotaLog = (if quota > 0 then [Quota agentId meetsQuota] else [])
         in if meetsQuota
            then (case calculateTieredPayout amountForTierCalc (payoutTiers sch) of
                    None \<Rightarrow> None
                  | Some tiered \<Rightarrow>
                      Some (tiered, quotaLog @ [PayoutCalculation agentId
                                                  (toFixed2 amountForTierCalc) (toFixed2 tiered)]))
            else Some (0, quotaLog))
      else Some (0, []))"


subsection \<open>Step 6 of \<^verbatim>\<open>runScheme\<close>: credit splits along the hierarchy\<close>

definition isDigit :: "char \<Rightarrow> bool" where
  "isDigit c = (c \<in> set ''0123456789'')"

definition digitsValue :: "string \<Rightarrow> nat" where
  "digitsValue s = foldl (\<lambda>n c. 10 * n + (of_char c - 48)) 0 s"

definition isHexDigit :: "char \<Rightarrow> bool" where
  "isHexDigit c = (c \<in> set ''0123456789abcdefABCDEF'')"

definition hexDigitValue :: "char \<Rightarrow> nat" where
  "hexDigitValue c =
     (if isDigit c then of_char c - 48
      else if c \<in> set ''abcdef'' then of_char c - 87 else of_char c - 55)"

definition hexValue :: "string \<Rightarrow> nat" where
  "hexValue s = foldl (\<lambda>n c. 16 * n + hexDigitValue c) 0 s"

text \<open>\<^verbatim>\<open>parseInt(string)\<close> without a radix; \<open>None\<close> is \<^verbatim>\<open>NaN\<close>.\<close>

definition parseInt :: "string \<Rightarrow> int option" where
  "parseInt s =
     (let t = dropWhile isSpace s;
          neg = (t \<noteq> [] \<and> hd t = CHR ''-'');
          u = (if t \<noteq> [] \<and> (hd t = CHR ''-'' \<or> hd t = CHR ''+'') then tl t else t)
      in if take 2 u = ''0x'' \<or> take 2 u = ''0X''
         then (let ds = takeWhile isHexDigit (drop 2 u)
               in if ds = [] then None
                  else Some (if neg then - int (hexValue ds) else int (hexValue ds)))
         else (let ds = takeWhile isDigit u
               in if ds = [] then None
                  else Some (if neg then - int (digitsValue ds) else int (digitsValue ds))))"

text \<open>
  The variables that the loop over the credit splits carries from one split to the
  next: \<^verbatim>\<open>currentAgentForLookup\<close> and \<^verbatim>\<open>level\<close>. They are declared before the
  loop and are not reset between splits.
\<close>

record lookupState =
  currentAgentForLookup :: jsval
  level :: int

text \<open>
  The inner loop \<^verbatim>\<open>for (let i = level; i < targetLevel; i++)\<close>, run for the given
  number of rounds: each round asks \<^verbatim>\<open>findManager\<close> for the manager of the current
  lookup agent at the run date; a hit moves one level up, a miss logs a warning under
  the originating agent, sets the lookup agent to \<^verbatim>\<open>null\<close> and leaves the loop.
  The result also holds \<^verbatim>\<open>managerDetails\<close> and the entries logged.
\<close>

fun climb ::
  "host \<Rightarrow> row list \<Rightarrow> date \<Rightarrow> string \<Rightarrow> string \<Rightarrow> nat \<Rightarrow>
   lookupState \<times> managerDetails option \<times> logEntry list \<Rightarrow>
   lookupState \<times> managerDetails option \<times> logEntry list" where
  "climb hst hierarchyData runAsOfDate agentId role 0 st = st"
| "climb hst hierarchyData runAsOfDate agentId role (Suc n) st =
     (case st of (ls, md, lg) \<Rightarrow>
        (case findManager hst hierarchyData (currentAgentForLookup ls) runAsOfDate of
           Some m \<Rightarrow>
             climb hst hierarchyData runAsOfDate agentId role n
               (\<lparr>currentAgentForLookup = managerId m, level = level ls + 1\<rparr>, Some m, lg)
         | None \<Rightarrow>
             (ls\<lparr>currentAgentForLookup := Undefined\<rparr>, None,
              lg @ [SplitWarning agentId role (currentAgentForLookup ls) (level ls)])))"

text \<open>
  One round of the loop over \<^verbatim>\<open>scheme.creditSplits\<close> for the originating agent
  \<^verbatim>\<open>agentId\<close> with payout \<^verbatim>\<open>basePayoutForSplit\<close>. Every entry goes to
  \<^verbatim>\<open>creditDistributions[agentId]\<close>, the list of the originating agent; the resolved
  target is the field \<^verbatim>\<open>toAgent\<close> of the entry.
\<close>

definition splitStep ::
  "host \<Rightarrow> string \<Rightarrow> row list \<Rightarrow> date \<Rightarrow> string \<Rightarrow> decimal \<Rightarrow> creditSplit \<Rightarrow>
   lookupState \<times> logEntry list \<Rightarrow> lookupState \<times> logEntry list" where
  "splitStep hst hierarchyFile hierarchyData runAsOfDate agentId basePayoutForSplit splitRule st =
     (let role = split_role splitRule;
          percentage = split_percentage splitRule;
          ls = fst st;
          targetLevel = parseInt (drop 1 role);
          climbed =
            (case targetLevel of
               Some lvl \<Rightarrow>
                 if role \<noteq> ''L1'' \<and> lvl > level ls
                 then climb hst hierarchyData runAsOfDate agentId role (nat (lvl - level ls))
                        (ls, None, snd st)
                 else (ls, None, snd st)
             | None \<Rightarrow> (ls, None, snd st));
          ls1 = fst climbed;
          managerDetails = fst (snd climbed);
          lg1 = snd (snd climbed);
          viaHierarchy =
            (case targetLevel of
               Some lvl \<Rightarrow> role \<noteq> ''L1'' \<and> lvl > level ls
                            \<and> truthy (currentAgentForLookup ls1) \<and> level ls1 = lvl
             | None \<Rightarrow> False);
          targetAgentId =
            (if role = ''L1'' then Str agentId
             else case targetLevel of
                    Some lvl \<Rightarrow>
                      if lvl > level ls
                      then (if viaHierarchy then currentAgentForLookup ls1 else Undefined)
                      else if lvl = level ls then currentAgentForLookup ls
                      else Undefined
                  | None \<Rightarrow> Undefined);
          resolvedUsing = (if viaHierarchy then hierarchyFile else ''Direct Assignment'');
          creditAmount = decDiv100 (decTimes basePayoutForSplit percentage)
      in if truthy targetAgentId
         then (ls1,
               if creditAmount > 0
               then lg1 @ [Distribution agentId targetAgentId role percentage
                             (toFixed2 creditAmount) resolvedUsing managerDetails]
               else lg1)
         else (ls1, if role \<noteq> ''L1'' then lg1 @ [SplitInfo agentId role] else lg1))"

definition splitLoop ::
  "host \<Rightarrow> string \<Rightarrow> row list \<Rightarrow> date \<Rightarrow> string \<Rightarrow> decimal \<Rightarrow> creditSplit list \<Rightarrow>
   logEntry list \<Rightarrow> logEntry list" where
  "splitLoop hst hierarchyFile hierarchyData runAsOfDate agentId basePayoutForSplit splits lg =
     snd (foldl (\<lambda>st splitRule. splitStep hst hierarchyFile hierarchyData runAsOfDate agentId
                                    basePayoutForSplit splitRule st)
                (\<lparr>currentAgentForLookup = Str agentId, level = 1\<rparr>, lg) splits)"


subsection \<open>Steps 1 and 2 of \<^verbatim>\<open>runScheme\<close>: date filter and grouping by agent\<close>

text \<open>
  The callback of \<^verbatim>\<open>baseData.filter\<close>: a row whose transaction date does not parse
  is dropped with a warning; a row is kept when its date is on or before the run date
  and, if the scheme's \<^verbatim>\<open>effectiveFrom\<close> parsed, on or after it.
\<close>

fun filterRecords ::
  "host \<Rightarrow> scheme \<Rightarrow> date option \<Rightarrow> date \<Rightarrow> row list \<Rightarrow> row list \<times> logEntry list" where
  "filterRecords hst sch effectiveFromDate runAsOfDate [] = ([], [])"
| "filterRecords hst sch effectiveFromDate runAsOfDate (record # rest) =
     (let more = filterRecords hst sch effectiveFromDate runAsOfDate rest;
          txDateStr = getProp record (transactionDateField (baseMapping sch));
          agent = getProp record (agentField (baseMapping sch))
      in case parseDate hst txDateStr of
           None \<Rightarrow> (fst more,
                     DateWarning txDateStr (if truthy agent then agent else Str ''Unknown'')
                       # snd more)
         | Some txDate \<Rightarrow>
             (let isAfterFrom = (case effectiveFromDate of
                                   Some eff \<Rightarrow> txDate \<ge> eff | None \<Rightarrow> True);
                  isBeforeRunDate = (txDate \<le> runAsOfDate)
              in if isAfterFrom \<and> isBeforeRunDate then (record # fst more, snd more) else more))"

text \<open>The errors that leave \<^verbatim>\<open>runScheme\<close>: the three that it throws itself, each
  carrying what its message names (the run date string, the name of the base data
  file), the \<^verbatim>\<open>TypeError\<close> of the grouping step, and the \<^verbatim>\<open>DecimalError\<close> of
  \<^verbatim>\<open>calculateTieredPayout\<close>.\<close>

datatype error =
    InvalidRunAsOfDate jsval
  | BaseDataFileNotFound string
  | BaseDataParseFailure string
  | TypeError string
  | InvalidDecimalArgument

text \<open>
  \<^verbatim>\<open>agentData\<close> is an object keyed by agent id; its keys are kept in insertion
  order. A record without an agent id is logged and passed over. An agent id that
  names a property of \<^verbatim>\<open>Object.prototype\<close> finds that inherited value under
  \<^verbatim>\<open>agentData[agentId]\<close>, so no entry is made for it, and
  \<^verbatim>\<open>agentData[agentId].records.push\<close> throws a \<^verbatim>\<open>TypeError\<close>. A record without a
  \<^verbatim>\<open>recordInternalId\<close> gets a random one; the counter is the number of identifiers
  drawn so far.
\<close>

fun addRecord :: "string \<Rightarrow> row \<Rightarrow> (string \<times> row list) list \<Rightarrow> (string \<times> row list) list" where
  "addRecord agentId record [] = [(agentId, [record])]"
| "addRecord agentId record ((a, recs) # rest) =
     (if a = agentId then (a, recs @ [record]) # rest
      else (a, recs) # addRecord agentId record rest)"

fun groupByAgent ::
  "host \<Rightarrow> scheme \<Rightarrow> nat \<Rightarrow> row list \<Rightarrow> (string \<times> row list) list \<times> logEntry list \<Rightarrow>
   error + (string \<times> row list) list \<times> logEntry list" where
  "groupByAgent hst sch n [] acc = Inr acc"
| "groupByAgent hst sch n (record # rest) acc =
     (let agentId = getProp record (agentField (baseMapping sch))
      in if \<not> truthy agentId
         then groupByAgent hst sch n rest (fst acc, snd acc @ [MissingAgentWarning])
         else if objectPrototypeHas hst (jsString hst agentId)
         then Inl (TypeError (jsString hst agentId))
         else if truthy (getProp record ''recordInternalId'')
         then groupByAgent hst sch n rest
                (addRecord (jsString hst agentId) record (fst acc), snd acc)
         else groupByAgent hst sch (Suc n) rest
                (addRecord (jsString hst agentId)
                   (setProp ''recordInternalId'' (Str (randomId hst n)) record) (fst acc),
                 snd acc))"

text \<open>
  The order in which \<^verbatim>\<open>for (const agentId in agentData)\<close> visits the keys: the keys
  that are array indices (canonical decimal numerals below \<open>2^32 - 1\<close>) come first, in
  ascending numeric order, then the other keys in insertion order.
\<close>

definition isArrayIndex :: "string \<Rightarrow> bool" where
  "isArrayIndex k =
     (k \<noteq> [] \<and> list_all isDigit k \<and> (k = ''0'' \<or> hd k \<noteq> CHR ''0'')
      \<and> digitsValue k < 2 ^ 32 - 1)"

definition forInOrder :: "(string \<times> 'a) list \<Rightarrow> (string \<times> 'a) list" where
  "forInOrder obj =
     sort_key (\<lambda>kv. digitsValue (fst kv)) (filter (\<lambda>kv. isArrayIndex (fst kv)) obj)
     @ filter (\<lambda>kv. \<not> isArrayIndex (fst kv)) obj"


subsection \<open>The loop over the agents\<close>

text \<open>The entry of \<^verbatim>\<open>agentData\<close> for one agent, as the run leaves it; the field
  \<open>agent_qualified\<close> is the source's \<^verbatim>\<open>qualified\<close>.\<close>

record agentInfo =
  records :: "row list"
  logs :: "logEntry list"
  totalBaseAmount :: decimal
  totalAdjustedAmount :: decimal
  agent_qualified :: bool
  payout :: decimal

text \<open>
  What the loop over the agents reads and writes: the scheme object (the
  qualification loop assigns to its rules and fields; the field objects of the three
  lists of \<^verbatim>\<open>kpiConfig\<close> are distinct objects, as in a parsed JSON document), the four
  result objects \<^verbatim>\<open>agentPayouts\<close>, \<^verbatim>\<open>ruleHitLogs\<close>, \<^verbatim>\<open>creditDistributions\<close> and
  \<^verbatim>\<open>rawRecordLevelData\<close>, and \<^verbatim>\<open>agentData\<close>.
\<close>

record runState =
  schemeNow :: scheme
  agentPayouts :: "string \<rightharpoonup> string"
  ruleHitLogs :: "string \<rightharpoonup> logEntry list"
  creditDistributions :: "string \<rightharpoonup> logEntry list"
  rawRecordLevelData :: "logEntry list"
  agentData :: "string \<rightharpoonup> agentInfo"

text \<open>The body of \<^verbatim>\<open>for (const agentId in agentData)\<close>: steps 3 to 6 for one agent.\<close>

definition processAgent ::
  "host \<Rightarrow> row list \<Rightarrow> date \<Rightarrow> runState \<Rightarrow> string \<times> row list \<Rightarrow> error + runState" where
  "processAgent hst hierarchyData runAsOfDate st agent =
     (let agentId = fst agent;
          sch = schemeNow st;
          rl = recordLoop hst sch agentId (snd agent);
          processedRecords = loopRecords rl;
          q = qualificationLoop hst sch agentId processedRecords
                (qualificationFields (kpiConfig sch)) (qualificationRules sch) [];
          sch1 = sch\<lparr>qualificationRules := rulesAfter q,
                     kpiConfig := (kpiConfig sch)\<lparr>qualificationFields := fieldsAfter q\<rparr>\<rparr>
      in case payoutStep sch1 agentId (qualifiedFlag q) (loopAdjusted rl) of
           None \<Rightarrow> Inl InvalidDecimalArgument
         | Some p \<Rightarrow>
             (let agentLogs = qualLogs q @ snd p;
                  splitting = (qualifiedFlag q \<and> fst p > 0 \<and> hierarchyData \<noteq> []
                               \<and> creditSplits sch1 \<noteq> [])
              in Inr \<lparr>schemeNow = sch1,
                      agentPayouts = (agentPayouts st)(agentId \<mapsto> toFixed2 (fst p)),
                      ruleHitLogs = (if agentLogs \<noteq> [] then (ruleHitLogs st)(agentId \<mapsto> agentLogs)
                                     else ruleHitLogs st),
                      creditDistributions =
                        (if splitting
                         then (creditDistributions st)(agentId \<mapsto>
                                splitLoop hst (creditHierarchyFile sch1) hierarchyData runAsOfDate
                                  agentId (fst p) (creditSplits sch1)
                                  (case creditDistributions st agentId of
                                     Some l \<Rightarrow> l | None \<Rightarrow> []))
                         else creditDistributions st),
                      rawRecordLevelData = rawRecordLevelData st @ loopLogs rl,
                      agentData = (agentData st)(agentId \<mapsto>
                        \<lparr>records = processedRecords, logs = agentLogs,
                         totalBaseAmount = loopBase rl, totalAdjustedAmount = loopAdjusted rl,
                         agent_qualified = qualifiedFlag q, payout = fst p\<rparr>)\<rparr>))"

text \<open>The loop itself; an exception ends it.\<close>

fun agentLoop ::
  "host \<Rightarrow> row list \<Rightarrow> date \<Rightarrow> runState \<Rightarrow> (string \<times> row list) list \<Rightarrow> error + runState" where
  "agentLoop hst hierarchyData runAsOfDate st [] = Inr st"
| "agentLoop hst hierarchyData runAsOfDate st (agent # rest) =
     (case processAgent hst hierarchyData runAsOfDate st agent of
        Inl e \<Rightarrow> Inl e
      | Inr st1 \<Rightarrow> agentLoop hst hierarchyData runAsOfDate st1 rest)"

subsection \<open>\<^verbatim>\<open>runScheme\<close>\<close>

text \<open>
  \<^verbatim>\<open>runScheme(scheme, uploadedFiles, runAsOfDateString)\<close>. \<^verbatim>\<open>uploadedFiles\<close> is an
  object that maps a file name to the file's CSV text. The result is the thrown error
  (\<open>Inl\<close>) or the final state of the run, whose fields \<open>agentPayouts\<close>,
  \<open>ruleHitLogs\<close>, \<open>creditDistributions\<close> and \<open>rawRecordLevelData\<close> make up the
  returned object.

  The test \<^verbatim>\<open>!baseDataFile || !uploadedFiles[baseDataFile]\<close> throws for no file name,
  for a name without an entry, and for an empty text. A name without an entry that
  names a property of \<^verbatim>\<open>Object.prototype\<close> finds that inherited value, which is
  truthy and no string: the test passes, \<^verbatim>\<open>parseCSV\<close> throws on it, and the
  \<^verbatim>\<open>catch\<close> around it throws the parse failure. For the hierarchy file the same
  exception is caught and leaves the hierarchy empty.
\<close>

text \<open>The hierarchy rows: the parsed hierarchy file when the scheme names one and it
  was uploaded, else none.\<close>

definition loadHierarchy :: "scheme \<Rightarrow> (string \<rightharpoonup> string) \<Rightarrow> row list" where
  "loadHierarchy sch uploadedFiles =
     (let hierarchyFile = creditHierarchyFile sch
      in if hierarchyFile = [] then []
         else case uploadedFiles hierarchyFile of None \<Rightarrow> [] | Some body \<Rightarrow> parseCSV body)"

definition initialState :: "scheme \<Rightarrow> logEntry list \<Rightarrow> runState" where
  "initialState sch lg =
     \<lparr>schemeNow = sch, agentPayouts = Map.empty, ruleHitLogs = Map.empty,
      creditDistributions = Map.empty, rawRecordLevelData = lg, agentData = Map.empty\<rparr>"

definition runScheme ::
  "host \<Rightarrow> scheme \<Rightarrow> (string \<rightharpoonup> string) \<Rightarrow> jsval \<Rightarrow> error + runState" where
  "runScheme hst sch uploadedFiles runAsOfDateString =
     (case parseDate hst runAsOfDateString of
        None \<Rightarrow> Inl (InvalidRunAsOfDate runAsOfDateString)
      | Some runAsOfDate \<Rightarrow>
          (let effectiveFromDate = parseDate hst (effectiveFrom sch);
               baseDataFile = sourceFile (baseMapping sch)
           in case (if baseDataFile = [] then None else uploadedFiles baseDataFile) of
                None \<Rightarrow>
                  if baseDataFile \<noteq> [] \<and> objectPrototypeHas hst baseDataFile
                  then Inl (BaseDataParseFailure baseDataFile)
                  else Inl (BaseDataFileNotFound baseDataFile)
              | Some baseText \<Rightarrow>
                  if baseText = [] then Inl (BaseDataFileNotFound baseDataFile)
                  else
                    (let baseData = parseCSV baseText;
                         hierarchyData = loadHierarchy sch uploadedFiles;
                         filtered = filterRecords hst sch effectiveFromDate runAsOfDate baseData
                     in case groupByAgent hst sch 0 (fst filtered) ([], snd filtered) of
                          Inl e \<Rightarrow> Inl e
                        | Inr grouped \<Rightarrow>
                            agentLoop hst hierarchyData runAsOfDate
                              (initialState sch (snd grouped)) (forInOrder (fst grouped)))))"

section \<open>What the specification says, in its own words\<close>

text \<open>
  The definitions of this section follow the wording of the specification, not the
  code; the theorems compare them with the runtime.
\<close>

subsection \<open>Tiered payout\<close>

text \<open>
  The slice of an amount inside a tier, \<open>max(0, min(amount, to) - from)\<close> with a
  missing \<open>to\<close> read as unbounded, the contribution \<open>slice * rate / 100\<close> of a tier,
  and the payout as the sum of the contributions of all tiers, taken in the runtime's
  decimal arithmetic, tier after tier from zero. Tiers do not overlap when each tier
  ends at or before the start of the next (so an unbounded tier is last); they are
  contiguous when each tier ends where the next starts. A valid configuration has
  well-formed ranges and is contiguous once sorted by \<open>from\<close>. A tier is bounded when
  it has a \<open>to\<close>.
\<close>

definition specSlice :: "decimal \<Rightarrow> tier \<Rightarrow> decimal" where
  "specSlice amount t =
     max 0 (decMinus (case tier_to t of None \<Rightarrow> amount | Some e \<Rightarrow> min amount e) (tier_from t))"

definition specContribution :: "decimal \<Rightarrow> tier \<Rightarrow> decimal" where
  "specContribution amount t = decDiv100 (decTimes (specSlice amount t) (tier_rate t))"

definition specTieredPayout :: "decimal \<Rightarrow> tier list \<Rightarrow> decimal" where
  "specTieredPayout amount tiers = foldl (\<lambda>acc t. decAdd acc (specContribution amount t)) 0 tiers"

fun nonOverlapping :: "tier list \<Rightarrow> bool" where
  "nonOverlapping [] = True"
| "nonOverlapping [t] = True"
| "nonOverlapping (t # u # ts) =
     ((case tier_to t of None \<Rightarrow> False | Some e \<Rightarrow> e \<le> tier_from u) \<and> nonOverlapping (u # ts))"

fun contiguous :: "tier list \<Rightarrow> bool" where
  "contiguous [] = True"
| "contiguous [t] = True"
| "contiguous (t # u # ts) = (tier_to t = Some (tier_from u) \<and> contiguous (u # ts))"

definition tierRangeOk :: "tier \<Rightarrow> bool" where
  "tierRangeOk t = (case tier_to t of None \<Rightarrow> True | Some e \<Rightarrow> tier_from t \<le> e)"

definition nonNegativeRates :: "tier list \<Rightarrow> bool" where
  "nonNegativeRates tiers = list_all (\<lambda>t. 0 \<le> tier_rate t) tiers"

definition validTierConfig :: "tier list \<Rightarrow> bool" where
  "validTierConfig tiers = (list_all tierRangeOk tiers \<and> contiguous (sort_key tier_from tiers))"

definition isBounded :: "tier \<Rightarrow> bool" where
  "isBounded t = (tier_to t \<noteq> None)"

definition allBounded :: "tier list \<Rightarrow> bool" where
  "allBounded tiers = list_all isBounded tiers"

text \<open>The order of two results of \<^verbatim>\<open>calculateTieredPayout\<close>: both calls return, and
  the first payout is at most the second.\<close>

fun payoutLe :: "decimal option \<Rightarrow> decimal option \<Rightarrow> bool" where
  "payoutLe (Some p1) (Some p2) = (p1 \<le> p2)"
| "payoutLe x y = False"

subsection \<open>Concrete tier tables\<close>

text \<open>The table of the specification's scenario (0 to 1000 at 5 percent, 1000
  upwards at 10 percent), the same table with its second tier ending at 2000, a table
  whose tiers overlap, and a bounded tier with a negative rate.\<close>

definition exampleTiers :: "tier list" where
  "exampleTiers =
     [\<lparr>tier_id = ''T1'', tier_from = 0, tier_to = Some 1000, tier_rate = 5, tier_isPercentage = True\<rparr>,
      \<lparr>tier_id = ''T2'', tier_from = 1000, tier_to = None, tier_rate = 10, tier_isPercentage = True\<rparr>]"

definition boundedTiers :: "tier list" where
  "boundedTiers =
     [\<lparr>tier_id = ''T1'', tier_from = 0, tier_to = Some 1000, tier_rate = 5, tier_isPercentage = True\<rparr>,
      \<lparr>tier_id = ''T2'', tier_from = 1000, tier_to = Some 2000, tier_rate = 10, tier_isPercentage = True\<rparr>]"

definition overlappingTiers :: "tier list" where
  "overlappingTiers =
     [\<lparr>tier_id = ''T1'', tier_from = 0, tier_to = Some 1000, tier_rate = 5, tier_isPercentage = True\<rparr>,
      \<lparr>tier_id = ''T2'', tier_from = 500, tier_to = Some 2000, tier_rate = 10, tier_isPercentage = True\<rparr>]"

definition negativeRateTiers :: "tier list" where
  "negativeRateTiers =
     [\<lparr>tier_id = ''T1'', tier_from = 0, tier_to = Some 1000, tier_rate = - 10, tier_isPercentage = True\<rparr>]"

subsection \<open>A concrete host\<close>

text \<open>
  The theorems hold for every host. The concrete runs below use a host that reads
  plain decimal literals and ISO calendar dates, as the library and the engine do:

  \<^item> \<open>parseDecimal\<close> reads an optional sign and the decimal literal
    \<^verbatim>\<open>(\d+(\.\d*)?|\.\d+)(e[+-]?\d+)?\<close>, and answers \<open>None\<close> on any other text;
  \<^item> \<open>plainDecimalString\<close> writes a decimal in plain notation;
  \<^item> \<open>parseIsoDate\<close> reads a calendar date \<^verbatim>\<open>YYYY-MM-DD\<close> and numbers the day
    \<open>10000 * year + 100 * month + day\<close>, which orders calendar days as time does;
    every other argument counts as an invalid date (the runs below pass calendar dates
    and texts without a digit);
  \<^item> the \<open>n\<close>-th random identifier is \<^verbatim>\<open>rec_n\<close>;
  \<^item> the names on \<^verbatim>\<open>Object.prototype\<close> are those of the ECMAScript standard.
\<close>

definition parseMantissa :: "string \<Rightarrow> decimal option" where
  "parseMantissa s =
     (let ip = takeWhile (\<lambda>c. c \<noteq> CHR ''.'') s;
          rest = dropWhile (\<lambda>c. c \<noteq> CHR ''.'') s;
          fp = tl rest
      in if \<not> list_all isDigit ip \<or> \<not> list_all isDigit fp then None
         else if ip = [] \<and> fp = [] then None
         else Some (of_nat (digitsValue (ip @ fp)) / 10 ^ length fp))"

definition parseExponent :: "string \<Rightarrow> int option" where
  "parseExponent s =
     (let ds = (if s \<noteq> [] \<and> (hd s = CHR ''+'' \<or> hd s = CHR ''-'') then tl s else s)
      in if ds = [] \<or> \<not> list_all isDigit ds then None
         else Some (if s \<noteq> [] \<and> hd s = CHR ''-'' then - int (digitsValue ds)
                    else int (digitsValue ds)))"

definition isExpChar :: "char \<Rightarrow> bool" where
  "isExpChar c = (c = CHR ''e'' \<or> c = CHR ''E'')"

definition parseDecimal :: "string \<Rightarrow> decimal option" where
  "parseDecimal s =
     (let neg = (s \<noteq> [] \<and> hd s = CHR ''-'');
          body = (if s \<noteq> [] \<and> (hd s = CHR ''-'' \<or> hd s = CHR ''+'') then tl s else s);
          mant = takeWhile (\<lambda>c. \<not> isExpChar c) body;
          rest = dropWhile (\<lambda>c. \<not> isExpChar c) body
      in case parseMantissa mant of
           None \<Rightarrow> None
         | Some m \<Rightarrow>
             (if rest = [] then Some (if neg then - m else m)
              else case parseExponent (tl rest) of
                     None \<Rightarrow> None
                   | Some e \<Rightarrow> Some ((if neg then - m else m) * (10 powi e))))"

fun fracDigits :: "nat \<Rightarrow> decimal \<Rightarrow> string" where
  "fracDigits 0 f = []"
| "fracDigits (Suc n) f =
     (if f = 0 then []
      else digitChar (nat \<lfloor>f * 10\<rfloor>) # fracDigits n (f * 10 - of_int \<lfloor>f * 10\<rfloor>))"

definition plainDecimalString :: "decimal \<Rightarrow> string" where
  "plainDecimalString d =
     (let a = \<bar>d\<bar>;
          body = natToString (nat \<lfloor>a\<rfloor>) @
                 (if a = of_int \<lfloor>a\<rfloor> then [] else ''.'' @ fracDigits 40 (a - of_int \<lfloor>a\<rfloor>))
      in if d < 0 then ''-'' @ body else body)"

definition isLeapYear :: "nat \<Rightarrow> bool" where
  "isLeapYear y = (y mod 4 = 0 \<and> (y mod 100 \<noteq> 0 \<or> y mod 400 = 0))"

definition daysInMonth :: "nat \<Rightarrow> nat \<Rightarrow> nat" where
  "daysInMonth y m =
     (if m = 2 then (if isLeapYear y then 29 else 28)
      else if m \<in> set [4, 6, 9, 11] then 30 else 31)"

definition parseIsoDate :: "string \<Rightarrow> date option" where
  "parseIsoDate s =
     (if length s = 10 \<and> s ! 4 = CHR ''-'' \<and> s ! 7 = CHR ''-''
         \<and> list_all isDigit (take 4 s) \<and> list_all isDigit (take 2 (drop 5 s))
         \<and> list_all isDigit (drop 8 s)
      then let y = digitsValue (take 4 s); m = digitsValue (take 2 (drop 5 s));
               d = digitsValue (drop 8 s)
           in if 1 \<le> m \<and> m \<le> 12 \<and> 1 \<le> d \<and> d \<le> daysInMonth y m
              then Some (int (10000 * y + 100 * m + d)) else None
      else None)"

definition prototypeNames :: "string list" where
  "prototypeNames =
     [''constructor'', ''hasOwnProperty'', ''isPrototypeOf'', ''propertyIsEnumerable'',
      ''toLocaleString'', ''toString'', ''valueOf'', ''__proto__'', ''__defineGetter__'',
      ''__defineSetter__'', ''__lookupGetter__'', ''__lookupSetter__'']"

definition isoHost :: host where
  "isoHost =
     \<lparr>newDecimal = parseDecimal, decimalToString = plainDecimalString,
      newDate = parseIsoDate, newDateOfValue = (\<lambda>v. None), randomId = (\<lambda>n. ''rec_'' @ natToString n),
      objectPrototypeHas = (\<lambda>k. k \<in> set prototypeNames)\<rparr>"

subsection \<open>Exclusion and adjustment rules\<close>

text \<open>
  A rule matches a record when its field resolves in the field list and the
  comparison holds on the record's value; the same for the condition of an adjustment
  rule. The adjustment of a matching rule is one of the four pairs of target and type;
  any other pair has no numeric effect. The adjustments compose in declared order on
  the running pair of current amount and rate multiplier, each condition being read
  from the record itself. Sums and products are those of the runtime's decimal
  arithmetic.
\<close>

definition ruleMatches :: "host \<Rightarrow> kpiField list \<Rightarrow> row \<Rightarrow> rule \<Rightarrow> bool" where
  "ruleMatches hst fieldDefs record r =
     (case findField fieldDefs (rule_field r) of
        None \<Rightarrow> False
      | Some fieldDef \<Rightarrow> evaluateRule hst (getProp record (kf_sourceField fieldDef))
                          (rule_operator r) (rule_value r) (kf_dataType fieldDef))"

definition conditionHolds :: "host \<Rightarrow> kpiField list \<Rightarrow> row \<Rightarrow> adjustmentRule \<Rightarrow> bool" where
  "conditionHolds hst fieldDefs record r =
     (case findField fieldDefs (condition_field r) of
        None \<Rightarrow> False
      | Some fieldDef \<Rightarrow> evaluateRule hst (getProp record (kf_sourceField fieldDef))
                          (condition_operator r) (condition_value r) (kf_dataType fieldDef))"

definition specAdjustStep :: "adjustmentRule \<Rightarrow> decimal \<times> decimal \<Rightarrow> decimal \<times> decimal" where
  "specAdjustStep r st =
     (let currentAmount = fst st; rateMultiplier = snd st; v = adjustment_value r
      in if adjustment_target r = ''Amount'' \<and> adjustment_type r = ''percentage''
           then (decAdd currentAmount (decDiv100 (decTimes currentAmount v)), rateMultiplier)
         else if adjustment_target r = ''Amount'' \<and> adjustment_type r = ''fixed''
           then (decAdd currentAmount v, rateMultiplier)
         else if adjustment_target r = ''Rate'' \<and> adjustment_type r = ''percentage''
           then (currentAmount, decTimes rateMultiplier (decDiv100 v))
         else if adjustment_target r = ''Rate'' \<and> adjustment_type r = ''fixed''
           then (currentAmount, decTimes rateMultiplier v)
         else (currentAmount, rateMultiplier))"

fun specAdjust ::
  "host \<Rightarrow> kpiField list \<Rightarrow> row \<Rightarrow> adjustmentRule list \<Rightarrow> decimal \<times> decimal \<Rightarrow>
   decimal \<times> decimal" where
  "specAdjust hst fieldDefs record [] st = st"
| "specAdjust hst fieldDefs record (r # rs) st =
     specAdjust hst fieldDefs record rs
       (if conditionHolds hst fieldDefs record r then specAdjustStep r st else st)"


subsection \<open>A concrete rule set and three records\<close>

definition ruleScheme :: scheme where
  "ruleScheme =
     \<lparr>effectiveFrom = Str ''2024-01-01'', quotaAmount = 0,
      baseMapping = \<lparr>sourceFile = ''SCH1.csv'', agentField = ''Agent'', amountField = ''Amount'',
                     transactionDateField = ''Date''\<rparr>,
      qualificationRules = [],
      adjustmentRules =
        [\<lparr>adj_id = ''A1'', condition_field = ''Payer'', condition_operator = ''='',
          condition_value = Str ''P1'', adjustment_target = ''Amount'',
          adjustment_type = ''percentage'', adjustment_value = 10\<rparr>,
         \<lparr>adj_id = ''A2'', condition_field = ''Payer'', condition_operator = ''='',
          condition_value = Str ''P1'', adjustment_target = ''Amount'',
          adjustment_type = ''fixed'', adjustment_value = 50\<rparr>,
         \<lparr>adj_id = ''A3'', condition_field = ''Payer'', condition_operator = ''='',
          condition_value = Str ''P9'', adjustment_target = ''Amount'',
          adjustment_type = ''fixed'', adjustment_value = 1000\<rparr>,
         \<lparr>adj_id = ''A4'', condition_field = ''Payer'', condition_operator = ''CONTAINS'',
          condition_value = Str ''P'', adjustment_target = ''Rate'',
          adjustment_type = ''percentage'', adjustment_value = 200\<rparr>,
         \<lparr>adj_id = ''A5'', condition_field = ''Payer'', condition_operator = ''!='',
          condition_value = Str ''X'', adjustment_target = ''Rate'',
          adjustment_type = ''fixed'', adjustment_value = 3 / 2\<rparr>],
      exclusionRules =
        [\<lparr>rule_id = ''X1'', rule_field = ''Status'', rule_operator = ''='',
          rule_value = Str ''Cancelled''\<rparr>,
         \<lparr>rule_id = ''X2'', rule_field = ''Org'', rule_operator = ''>='',
          rule_value = Str ''1000''\<rparr>],
      customRules = [], creditSplits = [], creditHierarchyFile = [],
      payoutTiers = [],
      kpiConfig =
        \<lparr>qualificationFields = [],
         adjustmentFields =
           [\<lparr>kf_name = ''Payer'', kf_sourceField = ''Payer'', kf_dataType = ''String'',
             kf_evaluationLevel = ''Per Record'', kf_aggregation = ''NotApplicable''\<rparr>],
         exclusionFields =
           [\<lparr>kf_name = ''Status'', kf_sourceField = ''Delivery Status'', kf_dataType = ''String'',
             kf_evaluationLevel = ''Per Record'', kf_aggregation = ''NotApplicable''\<rparr>,
            \<lparr>kf_name = ''Org'', kf_sourceField = ''Sales Organization'', kf_dataType = ''Number'',
             kf_evaluationLevel = ''Per Record'', kf_aggregation = ''NotApplicable''\<rparr>]\<rparr>\<rparr>"


definition deliveredRecord :: row where
  "deliveredRecord =
     [(''recordInternalId'', Str ''rec_1''), (''Payer'', Str ''P1''),
      (''Delivery Status'', Str ''Delivered''), (''Sales Organization'', Str ''500''),
      (''Date'', Str ''2024-06-02''), (''Amount'', Str ''1000''), (''Agent'', Str ''A'')]"

definition unreadableRecord :: row where
  "unreadableRecord =
     [(''recordInternalId'', Str ''rec_2''), (''Payer'', Str ''P1''),
      (''Delivery Status'', Str ''Cancelled''), (''Sales Organization'', Str ''500''),
      (''Date'', Str ''2024-06-03''), (''Amount'', Str ''abc''), (''Agent'', Str ''A'')]"

subsection \<open>Notions used in the statements about a whole run\<close>

text \<open>
  The part of the scheme that the loop over the agents never writes: everything but
  the qualification rules and the qualification fields. The agent a credit entry
  originates from (\<^verbatim>\<open>fromAgent\<close>). The entries that the qualification loop logs.
  What a credit entry of agent \<open>A\<close> with payout \<open>p\<close> looks like: a record names a
  declared split, and its amount is \<open>p * percentage / 100\<close>, positive, written with two
  digits. The base data file is missing when the scheme names none, or the file table
  has no entry of that name (its own or inherited), or the file is empty.
\<close>

definition staticPart :: "scheme \<Rightarrow> scheme" where
  "staticPart sch =
     sch\<lparr>qualificationRules := [], kpiConfig := (kpiConfig sch)\<lparr>qualificationFields := []\<rparr>\<rparr>"



fun isQualEntry :: "logEntry \<Rightarrow> bool" where
  "isQualEntry (SumWarning ruleId recordId) = True"
| "isQualEntry (AggregationError ruleId aggregation) = True"
| "isQualEntry (Qualification ruleId agentId matched evaluated) = True"
| "isQualEntry (Disqualified agentId ruleId) = True"
| "isQualEntry e = False"


definition tiersStartAtOrAboveZero :: "tier list \<Rightarrow> bool" where
  "tiersStartAtOrAboveZero tiers = list_all (\<lambda>t. 0 \<le> tier_from t) tiers"

definition baseFileMissing :: "host \<Rightarrow> scheme \<Rightarrow> (string \<rightharpoonup> string) \<Rightarrow> bool" where
  "baseFileMissing hst sch uploadedFiles =
     (sourceFile (baseMapping sch) = []
      \<or> (uploadedFiles (sourceFile (baseMapping sch)) = None
          \<and> \<not> objectPrototypeHas hst (sourceFile (baseMapping sch)))
      \<or> uploadedFiles (sourceFile (baseMapping sch)) = Some [])"

fun isInvalidRunAsOfDate :: "error + runState \<Rightarrow> bool" where
  "isInvalidRunAsOfDate (Inl (InvalidRunAsOfDate v)) = True"
| "isInvalidRunAsOfDate r = False"

fun isBaseDataFileNotFound :: "error + runState \<Rightarrow> bool" where
  "isBaseDataFileNotFound (Inl (BaseDataFileNotFound f)) = True"
| "isBaseDataFileNotFound r = False"

subsection \<open>Concrete runs\<close>

text \<open>
  A scheme with one percentage tier, 0 to 1000000 at 10 percent, and no rules; the same
  scheme with a credit split of 20 percent for the role L2 and a hierarchy file; with
  an \<open>effectiveFrom\<close> that is no date; with a quota of 2000; and with one qualification
  rule that is evaluated per record. The files are CSV texts.
\<close>

definition plainScheme :: scheme where
  "plainScheme =
     \<lparr>effectiveFrom = Str ''2024-01-01'', quotaAmount = 0,
      baseMapping = \<lparr>sourceFile = ''SCH1.csv'', agentField = ''Agent'', amountField = ''Amount'',
                     transactionDateField = ''Date''\<rparr>,
      qualificationRules = [], adjustmentRules = [], exclusionRules = [], customRules = [],
      creditSplits = [], creditHierarchyFile = [],
      payoutTiers = [\<lparr>tier_id = ''T1'', tier_from = 0, tier_to = Some 1000000, tier_rate = 10,
                      tier_isPercentage = True\<rparr>],
      kpiConfig = \<lparr>qualificationFields = [], adjustmentFields = [], exclusionFields = []\<rparr>\<rparr>"

definition creditScheme :: scheme where
  "creditScheme =
     plainScheme\<lparr>creditSplits := [\<lparr>split_role = ''L2'', split_percentage = 20\<rparr>],
                 creditHierarchyFile := ''MH.csv''\<rparr>"

definition lateFromScheme :: scheme where
  "lateFromScheme = creditScheme\<lparr>effectiveFrom := Str ''not-a-date''\<rparr>"

definition creditFiles :: "string \<rightharpoonup> string" where
  "creditFiles =
     [''SCH1.csv'' \<mapsto> ''Agent,Amount,Date\<newline>A,3000,2024-06-01'',
      ''MH.csv'' \<mapsto> ''Sales Employee,Reports To Person,Reports From,Reports To\<newline>A,M,2024-01-01,2024-12-31'']"

definition creditHierarchy :: "row list" where
  "creditHierarchy =
     [[(''Reports To'', Str ''2024-12-31''), (''Reports From'', Str ''2024-01-01''),
       (''Reports To Person'', Str ''M''), (''Sales Employee'', Str ''A'')]]"

definition managerM :: managerDetails where
  "managerM = \<lparr>managerId = Str ''M'', validFrom = Str ''2024-01-01'', validTo = Str ''2024-12-31''\<rparr>"

definition saleRecord :: "string \<Rightarrow> string \<Rightarrow> string \<Rightarrow> row" where
  "saleRecord recordId agent amount =
     [(''recordInternalId'', Str recordId), (''Date'', Str ''2024-06-01''),
      (''Amount'', Str amount), (''Agent'', Str agent)]"

definition processedRecord :: "string \<Rightarrow> string \<Rightarrow> string \<Rightarrow> decimal \<Rightarrow> row" where
  "processedRecord recordId agent amount adjusted =
     (''adjustedAmount'', Dec adjusted) # saleRecord recordId agent amount"

definition creditInfo :: agentInfo where
  "creditInfo =
     \<lparr>records = [processedRecord ''rec_0'' ''A'' ''3000'' 3000],
      logs = [PayoutCalculation ''A'' ''3000.00'' ''300.00''],
      totalBaseAmount = 3000, totalAdjustedAmount = 3000, agent_qualified = True,
      payout = 300\<rparr>"

definition creditFinal :: "jsval \<Rightarrow> runState" where
  "creditFinal e =
     \<lparr>schemeNow = creditScheme\<lparr>effectiveFrom := e\<rparr>,
      agentPayouts = [''A'' \<mapsto> ''300.00''],
      ruleHitLogs = [''A'' \<mapsto> [PayoutCalculation ''A'' ''3000.00'' ''300.00'']],
      creditDistributions =
        [''A'' \<mapsto> [Distribution ''A'' (Str ''M'') ''L2'' 20 ''60.00'' ''MH.csv'' (Some managerM)]],
      rawRecordLevelData = [],
      agentData = [''A'' \<mapsto> creditInfo]\<rparr>"

definition zeroFiles :: "string \<rightharpoonup> string" where
  "zeroFiles = [''SCH1.csv'' \<mapsto> ''Agent,Amount,Date\<newline>A,0,2024-06-01'']"

definition zeroInfo :: agentInfo where
  "zeroInfo =
     \<lparr>records = [processedRecord ''rec_0'' ''A'' ''0'' 0],
      logs = [PayoutCalculation ''A'' ''0.00'' ''0.00''],
      totalBaseAmount = 0, totalAdjustedAmount = 0, agent_qualified = True, payout = 0\<rparr>"

definition zeroFinal :: runState where
  "zeroFinal =
     \<lparr>schemeNow = plainScheme,
      agentPayouts = [''A'' \<mapsto> ''0.00''],
      ruleHitLogs = [''A'' \<mapsto> [PayoutCalculation ''A'' ''0.00'' ''0.00'']],
      creditDistributions = Map.empty,
      rawRecordLevelData = [],
      agentData = [''A'' \<mapsto> zeroInfo]\<rparr>"

definition quotaScheme :: scheme where
  "quotaScheme = plainScheme\<lparr>quotaAmount := 2000\<rparr>"

definition quotaFiles :: "string \<rightharpoonup> string" where
  "quotaFiles =
     [''SCH1.csv'' \<mapsto> ''Agent,Amount,Date\<newline>A,1500,2024-06-01\<newline>B,3000,2024-06-01'']"

definition quotaInfoA :: agentInfo where
  "quotaInfoA =
     \<lparr>records = [processedRecord ''rec_0'' ''A'' ''1500'' 1500], logs = [Quota ''A'' False],
      totalBaseAmount = 1500, totalAdjustedAmount = 1500, agent_qualified = True, payout = 0\<rparr>"

definition quotaInfoB :: agentInfo where
  "quotaInfoB =
     \<lparr>records = [processedRecord ''rec_1'' ''B'' ''3000'' 3000],
      logs = [Quota ''B'' True, PayoutCalculation ''B'' ''3000.00'' ''300.00''],
      totalBaseAmount = 3000, totalAdjustedAmount = 3000, agent_qualified = True, payout = 300\<rparr>"

definition quotaFinal :: runState where
  "quotaFinal =
     \<lparr>schemeNow = quotaScheme,
      agentPayouts = [''A'' \<mapsto> ''0.00'', ''B'' \<mapsto> ''300.00''],
      ruleHitLogs = [''A'' \<mapsto> [Quota ''A'' False],
                     ''B'' \<mapsto> [Quota ''B'' True, PayoutCalculation ''B'' ''3000.00'' ''300.00'']],
      creditDistributions = Map.empty,
      rawRecordLevelData = [],
      agentData = [''A'' \<mapsto> quotaInfoA, ''B'' \<mapsto> quotaInfoB]\<rparr>"

definition statusField :: kpiField where
  "statusField =
     \<lparr>kf_name = ''Status'', kf_sourceField = ''Status'', kf_dataType = ''String'',
      kf_evaluationLevel = ''Per Record'', kf_aggregation = ''NotApplicable''\<rparr>"

definition deliveredRule :: rule where
  "deliveredRule =
     \<lparr>rule_id = ''Q1'', rule_field = ''Status'', rule_operator = ''='',
      rule_value = Str ''Delivered''\<rparr>"

definition qualScheme :: scheme where
  "qualScheme =
     plainScheme\<lparr>qualificationRules := [deliveredRule],
                 kpiConfig := \<lparr>qualificationFields = [statusField], adjustmentFields = [],
                               exclusionFields = []\<rparr>\<rparr>"

text \<open>The scheme object as the qualification loop of the first agent leaves it.\<close>

definition qualSchemeAfterFirstAgent :: scheme where
  "qualSchemeAfterFirstAgent =
     qualScheme\<lparr>qualificationRules :=
                  [deliveredRule\<lparr>rule_operator := ''='', rule_value := Bool True\<rparr>],
                kpiConfig := (kpiConfig qualScheme)\<lparr>qualificationFields :=
                  [statusField\<lparr>kf_dataType := ''Boolean''\<rparr>]\<rparr>\<rparr>"

definition twoAgentFiles :: "string \<rightharpoonup> string" where
  "twoAgentFiles =
     [''SCH1.csv'' \<mapsto>
        ''Agent,Amount,Date,Status\<newline>A,1000,2024-06-01,Delivered\<newline>B,1000,2024-06-01,Delivered'']"

definition oneAgentFiles :: "string \<rightharpoonup> string" where
  "oneAgentFiles =
     [''SCH1.csv'' \<mapsto> ''Agent,Amount,Date,Status\<newline>B,1000,2024-06-01,Delivered'']"

definition deliveredSale :: "string \<Rightarrow> string \<Rightarrow> row" where
  "deliveredSale recordId agent =
     [(''recordInternalId'', Str recordId), (''Status'', Str ''Delivered''),
      (''Date'', Str ''2024-06-01''), (''Amount'', Str ''1000''), (''Agent'', Str agent)]"

definition deliveredProcessed :: "string \<Rightarrow> string \<Rightarrow> row" where
  "deliveredProcessed recordId agent = (''adjustedAmount'', Dec 1000) # deliveredSale recordId agent"

definition twoAgentFinal :: runState where
  "twoAgentFinal =
     \<lparr>schemeNow = qualSchemeAfterFirstAgent,
      agentPayouts = [''A'' \<mapsto> ''100.00'', ''B'' \<mapsto> ''0.00''],
      ruleHitLogs =
        [''A'' \<mapsto> [Qualification ''Q1'' ''A'' True (Bool True),
                   PayoutCalculation ''A'' ''1000.00'' ''100.00''],
         ''B'' \<mapsto> [Qualification ''Q1'' ''B'' False (Bool False), Disqualified ''B'' ''Q1'']],
      creditDistributions = Map.empty,
      rawRecordLevelData = [],
      agentData =
        [''A'' \<mapsto> \<lparr>records = [deliveredProcessed ''rec_0'' ''A''],
                    logs = [Qualification ''Q1'' ''A'' True (Bool True),
                            PayoutCalculation ''A'' ''1000.00'' ''100.00''],
                    totalBaseAmount = 1000, totalAdjustedAmount = 1000, agent_qualified = True,
                    payout = 100\<rparr>,
         ''B'' \<mapsto> \<lparr>records = [deliveredProcessed ''rec_1'' ''B''],
                    logs = [Qualification ''Q1'' ''B'' False (Bool False), Disqualified ''B'' ''Q1''],
                    totalBaseAmount = 1000, totalAdjustedAmount = 1000, agent_qualified = False,
                    payout = 0\<rparr>]\<rparr>"

definition oneAgentFinal :: runState where
  "oneAgentFinal =
     \<lparr>schemeNow = qualSchemeAfterFirstAgent,
      agentPayouts = [''B'' \<mapsto> ''100.00''],
      ruleHitLogs =
        [''B'' \<mapsto> [Qualification ''Q1'' ''B'' True (Bool True),
                   PayoutCalculation ''B'' ''1000.00'' ''100.00'']],
      creditDistributions = Map.empty,
      rawRecordLevelData = [],
      agentData =
        [''B'' \<mapsto> \<lparr>records = [deliveredProcessed ''rec_0'' ''B''],
                    logs = [Qualification ''Q1'' ''B'' True (Bool True),
                            PayoutCalculation ''B'' ''1000.00'' ''100.00''],
                    totalBaseAmount = 1000, totalAdjustedAmount = 1000, agent_qualified = True,
                    payout = 100\<rparr>]\<rparr>"


text \<open>The scheme with the tier table of the specification's scenario, whose second
  tier has no \<open>to\<close>, and a file with one sale of 1500.\<close>

definition unboundedScheme :: scheme where
  "unboundedScheme = plainScheme\<lparr>payoutTiers := exampleTiers\<rparr>"

definition unboundedFiles :: "string \<rightharpoonup> string" where
  "unboundedFiles = [''SCH1.csv'' \<mapsto> ''Agent,Amount,Date\<newline>A,1500,2024-06-01'']"

subsection \<open>Manager lookup\<close>

text \<open>
  The window test of the lookup: \<open>Reports From\<close> parses and is on or before the date,
  and \<open>Reports To\<close> is on or after the date or does not parse. The selection that the
  specification describes: the agent id matches without regard to case, and the
  validity window overlaps the interval from the scheme's \<open>effectiveFrom\<close> to the run
  date, \<open>reportsFrom \<le> runAsOfDate\<close> and \<open>reportsTo \<ge> effectiveFrom\<close>.
\<close>

definition windowContains :: "host \<Rightarrow> row \<Rightarrow> date \<Rightarrow> bool" where
  "windowContains hst r d =
     (case parseDate hst (getProp r ''Reports From'') of
        None \<Rightarrow> False
      | Some fromDate \<Rightarrow>
          fromDate \<le> d \<and>
          (case parseDate hst (getProp r ''Reports To'') of
             None \<Rightarrow> True | Some toDate \<Rightarrow> d \<le> toDate))"

definition lowercase :: "string \<Rightarrow> string" where
  "lowercase s =
     map (\<lambda>c. if CHR ''A'' \<le> c \<and> c \<le> CHR ''Z'' then char_of (of_char c + (32 :: nat)) else c) s"

definition specSelects :: "host \<Rightarrow> date \<Rightarrow> date \<Rightarrow> jsval \<Rightarrow> row \<Rightarrow> bool" where
  "specSelects hst schemeEffectiveFrom runAsOfDate agentId r =
     (lowercase (jsString hst (getProp r ''Sales Employee'')) = lowercase (jsString hst agentId)
      \<and> (case parseDate hst (getProp r ''Reports From'') of
            None \<Rightarrow> False | Some reportsFrom \<Rightarrow> reportsFrom \<le> runAsOfDate)
      \<and> (case parseDate hst (getProp r ''Reports To'') of
            None \<Rightarrow> True | Some reportsTo \<Rightarrow> schemeEffectiveFrom \<le> reportsTo))"

definition lowerCaseRow :: row where
  "lowerCaseRow =
     [(''Reports To'', Str ''2024-12-31''), (''Reports From'', Str ''2024-01-01''),
      (''Reports To Person'', Str ''M''), (''Sales Employee'', Str ''a001'')]"

definition endedRow :: row where
  "endedRow =
     [(''Reports To'', Str ''2024-03-31''), (''Reports From'', Str ''2024-01-01''),
      (''Reports To Person'', Str ''M''), (''Sales Employee'', Str ''B'')]"

section \<open>Rounding to 20 significant digits\<close>

lemma decExpUp_bounds:
  "1 \<le> x \<Longrightarrow> 10 powi decExpUp x \<le> x \<and> x < 10 powi (decExpUp x + 1)"
proof (induction x rule: decExpUp.induct)
  case (1 x)
  show ?case
  proof (cases "x < 10")
    case True
    then show ?thesis using 1(2) by (simp add: decExpUp.simps [of x])
  next
    case False
    then have "1 \<le> x / 10" by simp
    from 1(1) [OF False this] have ih: "10 powi decExpUp (x / 10) \<le> x / 10" "x / 10 < 10 powi (decExpUp (x / 10) + 1)" by auto
    have e: "decExpUp x = decExpUp (x / 10) + 1" using False by (simp add: decExpUp.simps [of x])
    have p: "\<And>n. (10::rat) powi (n + 1) = 10 powi n * 10" by (simp add: power_int_add)
    show ?thesis using ih unfolding e p by simp
  qed
qed

lemma decExpDown_bounds:
  "0 < x \<Longrightarrow> x < 1 \<Longrightarrow> 10 powi decExpDown x \<le> x \<and> x < 10 powi (decExpDown x + 1)"
proof (induction x rule: decExpDown.induct)
  case (1 x)
  have e: "decExpDown x = decExpDown (x * 10) - 1" using 1(2,3) by (simp add: decExpDown.simps [of x])
  have p: "\<And>n. (10::rat) powi (n - 1) = 10 powi n / 10" by (simp add: power_int_diff)
  show ?case
  proof (cases "x * 10 < 1")
    case True
    have "\<not> (x \<le> 0 \<or> 1 \<le> x)" using 1(2,3) by simp
    from 1(1) [OF this] True 1(2)
    have ih: "10 powi decExpDown (x * 10) \<le> x * 10" "x * 10 < 10 powi (decExpDown (x * 10) + 1)" by auto
    have p2: "\<And>n. (10::rat) powi (n + 1) = 10 powi n * 10" by (simp add: power_int_add)
    show ?thesis using ih unfolding e p p2 by simp
  next
    case False
    then have "decExpDown (x * 10) = 0" by (simp add: decExpDown.simps [of "x * 10"])
    then show ?thesis using False 1(2,3) unfolding e by simp
  qed
qed

lemma decExp_bounds:
  assumes "0 < x"
  shows "10 powi decExp x \<le> x" "x < 10 powi (decExp x + 1)"
  using assms decExpUp_bounds [of x] decExpDown_bounds [of x]
  by (auto simp: decExp_def)


lemma round20_zero: "round20 0 = 0"
  by (simp add: round20_def)

lemma round20_minus: "round20 (- x) = - round20 x"
  by (simp add: round20_def Let_def)

lemma round20_pos_eq:
  "0 < x \<Longrightarrow> round20 x = of_int \<lfloor>x * 10 powi (19 - decExp x) + 1 / 2\<rfloor> / 10 powi (19 - decExp x)"
  by (simp add: round20_def Let_def)

lemma scaled_bounds:
  assumes "0 < x"
  shows "10 ^ 19 \<le> x * 10 powi (19 - decExp x)" "x * 10 powi (19 - decExp x) < 10 ^ 20"
proof -
  let ?e = "decExp x"
  let ?q = "(10::rat) powi (19 - ?e)"
  have q: "0 < ?q" by simp
  have a: "(10::rat) powi ?e * ?q = 10 ^ 19"
    by (simp flip: power_int_add)
  have b: "(10::rat) powi (?e + 1) * ?q = 10 ^ 20"
    by (simp flip: power_int_add)
  have "10 powi ?e * ?q \<le> x * ?q"
    using decExp_bounds(1) [OF assms] q by (simp only: mult_le_cancel_right_pos)
  then show "10 ^ 19 \<le> x * ?q" unfolding a .
  have "x * ?q < 10 powi (?e + 1) * ?q"
    using decExp_bounds(2) [OF assms] q by (simp only: mult_less_cancel_right_pos)
  then show "x * ?q < 10 ^ 20" unfolding b .
qed

lemma round20_pos_bounds:
  assumes "0 < x"
  shows "10 powi decExp x \<le> round20 x" "round20 x \<le> 10 powi (decExp x + 1)"
proof -
  let ?e = "decExp x"
  let ?q = "(10::rat) powi (19 - ?e)"
  let ?n = "\<lfloor>x * ?q + 1 / 2\<rfloor>"
  have q: "0 < ?q" by simp
  have r: "round20 x = of_int ?n / ?q" by (rule round20_pos_eq [OF assms])
  have a: "(10::rat) powi ?e * ?q = 10 ^ 19" by (simp flip: power_int_add)
  have b: "(10::rat) powi (?e + 1) * ?q = 10 ^ 20" by (simp flip: power_int_add)
  have "(10::int) ^ 19 \<le> ?n"
  proof -
    have "of_int ((10::int) ^ 19) \<le> x * ?q + 1 / 2" using scaled_bounds(1) [OF assms] by simp
    then show ?thesis by (simp only: le_floor_iff)
  qed
  then have "(10::rat) ^ 19 \<le> of_int ?n" by (metis of_int_le_iff of_int_numeral of_int_power)
  then have "10 powi ?e * ?q \<le> of_int ?n" unfolding a .
  then show "10 powi ?e \<le> round20 x" unfolding r using q by (simp add: pos_le_divide_eq)
  have "?n < 10 ^ 20 + 1"
  proof -
    have "x * ?q + 1 / 2 < of_int ((10::int) ^ 20 + 1)" using scaled_bounds(2) [OF assms] by simp
    then show ?thesis by (simp only: floor_less_iff)
  qed
  then have "?n \<le> 10 ^ 20" by simp
  then have "of_int ?n \<le> (10::rat) ^ 20" by (metis of_int_le_iff of_int_numeral of_int_power)
  then have "of_int ?n \<le> 10 powi (?e + 1) * ?q" unfolding b .
  then show "round20 x \<le> 10 powi (?e + 1)" unfolding r using q by (simp add: pos_divide_le_eq)
qed

lemma round20_pos: "0 < x \<Longrightarrow> 0 < round20 x"
  using round20_pos_bounds(1) [of x] zero_less_power_int [of "10::rat" "decExp x"]
  by linarith

lemma round20_neg: "x < 0 \<Longrightarrow> round20 x < 0"
  using round20_pos [of "- x"] by (simp add: round20_minus)

lemma round20_eq_zero_iff: "round20 x = 0 \<longleftrightarrow> x = 0"
  using round20_pos [of x] round20_neg [of x] round20_zero
  by (cases "x = 0"; cases "0 < x"; force)

lemma round20_nonneg: "0 \<le> x \<Longrightarrow> 0 \<le> round20 x"
  using round20_pos [of x] round20_zero by (cases "x = 0") auto

lemma round20_nonpos: "x \<le> 0 \<Longrightarrow> round20 x \<le> 0"
  using round20_neg [of x] round20_zero by (cases "x = 0") auto

lemma round20_le_zero_iff: "round20 x \<le> 0 \<longleftrightarrow> x \<le> 0"
  using round20_pos [of x] round20_nonpos [of x] by force

lemma powi_less_imp:
  assumes "(10::rat) powi a < 10 powi b"
  shows "a < b"
proof (rule ccontr)
  assume "\<not> a < b"
  then have "b \<le> a" by simp
  then have "(10::rat) powi b \<le> 10 powi a" by (rule power_int_increasing) simp
  with assms show False by simp
qed

lemma round20_mono_pos:
  assumes "0 < x" "x \<le> y"
  shows "round20 x \<le> round20 y"
proof -
  have y: "0 < y" using assms by simp
  have "10 powi decExp x \<le> x" by (rule decExp_bounds(1) [OF assms(1)])
  also have "x \<le> y" by fact
  also have "y < 10 powi (decExp y + 1)" by (rule decExp_bounds(2) [OF y])
  finally have le: "decExp x \<le> decExp y" using powi_less_imp by fastforce
  show ?thesis
  proof (cases "decExp x = decExp y")
    case True
    let ?q = "(10::rat) powi (19 - decExp y)"
    have q: "0 < ?q" by simp
    have "x * ?q + 1 / 2 \<le> y * ?q + 1 / 2" using assms(2) q by simp
    then have "\<lfloor>x * ?q + 1 / 2\<rfloor> \<le> \<lfloor>y * ?q + 1 / 2\<rfloor>" by (rule floor_mono)
    then have "(of_int \<lfloor>x * ?q + 1 / 2\<rfloor> :: rat) \<le> of_int \<lfloor>y * ?q + 1 / 2\<rfloor>" by (simp only: of_int_le_iff)
    then have "of_int \<lfloor>x * ?q + 1 / 2\<rfloor> / ?q \<le> of_int \<lfloor>y * ?q + 1 / 2\<rfloor> / ?q"
      by (rule divide_right_mono) (rule less_imp_le [OF q])
    then show ?thesis
      unfolding round20_pos_eq [OF assms(1)] round20_pos_eq [OF y] True .
  next
    case False
    with le have "decExp x + 1 \<le> decExp y" by simp
    then have "(10::rat) powi (decExp x + 1) \<le> 10 powi decExp y" by (rule power_int_increasing) simp
    with round20_pos_bounds(2) [OF assms(1)] round20_pos_bounds(1) [OF y]
    show ?thesis by linarith
  qed
qed

lemma round20_mono: "x \<le> y \<Longrightarrow> round20 x \<le> round20 y"
proof -
  assume xy: "x \<le> y"
  consider "0 < x" | "x \<le> 0" "0 \<le> y" | "y < 0" by linarith
  then show ?thesis
  proof cases
    case 1
    then show ?thesis using xy by (rule round20_mono_pos)
  next
    case 2
    then show ?thesis using round20_nonpos [of x] round20_nonneg [of y] by linarith
  next
    case 3
    then have "0 < - y" "- y \<le> - x" using xy by simp_all
    then have "round20 (- y) \<le> round20 (- x)" by (rule round20_mono_pos)
    then show ?thesis by (simp add: round20_minus)
  qed
qed

lemma round20_exact_pos:
  assumes "0 < x" "x * 10 powi j = of_int n" "n < 10 ^ 20"
  shows "round20 x = x"
proof -
  let ?e = "decExp x"
  let ?q = "(10::rat) powi (19 - ?e)"
  have x: "x = of_int n * 10 powi (- j)"
  proof -
    have "x = (x * 10 powi j) * 10 powi (- j)" by (simp add: power_int_minus)
    then show ?thesis using assms(2) by simp
  qed
  have "(of_int n :: rat) < 10 ^ 20" using assms(3) by (metis of_int_less_iff of_int_numeral of_int_power)
  then have "of_int n * (10::rat) powi (- j) < 10 ^ 20 * 10 powi (- j)" by simp
  also have "\<dots> = 10 powi (20 - j)"
    using power_int_add [of "10::rat" 20 "- j"] by simp
  finally have "x < 10 powi (20 - j)" using x by simp
  with decExp_bounds(1) [OF assms(1)] have "(10::rat) powi ?e < 10 powi (20 - j)" by linarith
  then have "?e < 20 - j" by (rule powi_less_imp)
  then have k: "0 \<le> 19 - ?e - j" by simp
  have "x * ?q = of_int n * (10 powi (- j) * 10 powi (19 - ?e))" using x by (metis mult.assoc)
  also have "10 powi (- j) * (10::rat) powi (19 - ?e) = 10 powi (19 - ?e - j)"
    using power_int_add [of "10::rat" "- j" "19 - ?e"] by (simp add: algebra_simps)
  also have "(10::rat) powi (19 - ?e - j) = of_int (10 ^ nat (19 - ?e - j))"
    using k by (simp add: power_int_def)
  finally have "x * ?q = of_int (n * 10 ^ nat (19 - ?e - j))" by simp
  then have "\<lfloor>x * ?q + 1 / 2\<rfloor> = n * 10 ^ nat (19 - ?e - j)" "of_int (n * 10 ^ nat (19 - ?e - j)) = x * ?q"
    by (simp_all only: floor_add_int[symmetric]) linarith+
  then show ?thesis unfolding round20_pos_eq [OF assms(1)] by simp
qed

lemma round20_exact:
  assumes "x * 10 powi j = of_int n" "\<bar>n\<bar> < 10 ^ 20"
  shows "round20 x = x"
proof -
  consider "x = 0" | "0 < x" | "x < 0" by linarith
  then show ?thesis
  proof cases
    case 1 then show ?thesis by (simp add: round20_zero)
  next
    case 2
    show ?thesis by (rule round20_exact_pos [OF 2 assms(1)]) (use assms(2) in simp)
  next
    case 3
    have "(- x) * 10 powi j = of_int (- n)" using assms(1) by simp
    from round20_exact_pos [OF _ this] 3 assms(2) have "round20 (- x) = - x" by simp
    then show ?thesis by (simp add: round20_minus)
  qed
qed

lemma round20_idem: "round20 (round20 x) = round20 x"
proof -
  have pos: "round20 (round20 x) = round20 x" if x: "0 < x" for x
  proof -
    let ?e = "decExp x"
    let ?q = "(10::rat) powi (19 - ?e)"
    let ?n = "\<lfloor>x * ?q + 1 / 2\<rfloor>"
    have r: "round20 x = of_int ?n / ?q" by (rule round20_pos_eq [OF x])
    have rp: "0 < round20 x" by (rule round20_pos [OF x])
    have rq: "round20 x * ?q = of_int ?n" unfolding r by simp
    have "?n < 10 ^ 20 + 1"
    proof -
      have "x * ?q + 1 / 2 < of_int ((10::int) ^ 20 + 1)" using scaled_bounds(2) [OF x] by simp
      then show ?thesis by (simp only: floor_less_iff)
    qed
    then consider "?n < 10 ^ 20" | "?n = 10 ^ 20" by linarith
    then show ?thesis
    proof cases
      case 1
      show ?thesis by (rule round20_exact_pos [OF rp rq 1])
    next
      case 2
      have "(10::rat) powi (19 - ?e - 1) = ?q / 10" by (simp add: power_int_diff)
      then have "round20 x * 10 powi (19 - ?e - 1) = (round20 x * ?q) / 10" by (simp only: times_divide_eq_right)
      also have "\<dots> = of_int ?n / 10" by (simp only: rq)
      also have "\<dots> = of_int (10 ^ 19)" unfolding 2 by simp
      finally show ?thesis by (rule round20_exact_pos [OF rp]) simp
    qed
  qed
  consider "x = 0" | "0 < x" | "x < 0" by linarith
  then show ?thesis
  proof cases
    case 1 then show ?thesis by (simp add: round20_zero)
  next
    case 2 then show ?thesis by (rule pos)
  next
    case 3
    then have "round20 (round20 (- x)) = round20 (- x)" by (intro pos) simp
    then show ?thesis by (simp add: round20_minus)
  qed
qed

lemma round20_of_int: "\<bar>n\<bar> < 10 ^ 20 \<Longrightarrow> round20 (of_int n) = of_int n"
  using round20_exact [of "of_int n" 0 n] by simp

lemma round20_numeral:
  "(numeral k :: int) < 100000000000000000000 \<Longrightarrow> round20 (numeral k) = numeral k"
  using round20_of_int [of "numeral k"] by simp

lemma round20_neg_numeral:
  "(numeral k :: int) < 100000000000000000000 \<Longrightarrow> round20 (- numeral k) = - numeral k"
  using round20_of_int [of "- numeral k"] by simp

lemma round20_one: "round20 1 = 1"
  using round20_of_int [of 1] by simp

section \<open>Evaluation lemmas\<close>

lemma natToString_small: "n < 10 \<Longrightarrow> natToString n = [digitChar n]"
  by (subst natToString.simps) simp

lemma natToString_large: "\<not> n < 10 \<Longrightarrow> natToString n = natToString (n div 10) @ [digitChar n]"
  by (subst natToString.simps) simp

lemma floor_rat_numeral: "\<lfloor>(numeral a :: rat) / numeral b\<rfloor> = numeral a div numeral b"
  using floor_divide_of_int_eq [of "numeral a" "numeral b", where ?'a = rat] by simp

lemmas toFixed2_eval = toFixed2_def Let_def natToString_small natToString_large digitChar_def
  floor_rat_numeral

lemmas dec_eval = decAdd_def decMinus_def decTimes_def decDiv100_def round20_zero
  round20_numeral round20_neg_numeral round20_one

lemmas tier_eval = calculateTieredPayout_def amountInTier_def payoutForTier_def dec_eval

lemma toFixed2_zero: "toFixed2 0 = ''0.00''"
  by (simp add: toFixed2_eval)

section \<open>Tiered payout (claims C7 and C8)\<close>

lemma decAdd_zero_right: "round20 acc = acc \<Longrightarrow> decAdd acc 0 = acc"
  by (simp add: decAdd_def)

lemma decAdd_rep: "round20 (decAdd x y) = decAdd x y"
  by (simp add: decAdd_def round20_idem)

lemma decAdd_mono: "x1 \<le> x2 \<Longrightarrow> y1 \<le> y2 \<Longrightarrow> decAdd x1 y1 \<le> decAdd x2 y2"
  by (simp add: decAdd_def round20_mono add_mono)

lemma decAdd_ge: "round20 acc = acc \<Longrightarrow> 0 \<le> p \<Longrightarrow> acc \<le> decAdd acc p"
proof -
  assume r: "round20 acc = acc" and p: "0 \<le> p"
  have "round20 acc \<le> round20 (acc + p)" using p by (intro round20_mono) simp
  then show ?thesis using r by (simp add: decAdd_def)
qed

lemma amountInTier_nonneg: "0 \<le> amountInTier amount f e"
  by (simp add: amountInTier_def)

lemma amountInTier_below: "amount \<le> f \<Longrightarrow> amountInTier amount f e = 0"
proof -
  assume "amount \<le> f"
  then have "min amount e - f \<le> 0" by simp
  then have "round20 (min amount e - f) \<le> 0" by (rule round20_nonpos)
  then show ?thesis by (simp add: amountInTier_def decMinus_def)
qed

lemma amountInTier_zero_iff: "amountInTier amount f e = 0 \<longleftrightarrow> min amount e \<le> f"
proof -
  have "amountInTier amount f e = 0 \<longleftrightarrow> round20 (min amount e - f) \<le> 0"
    by (auto simp: amountInTier_def decMinus_def max_def)
  also have "\<dots> \<longleftrightarrow> min amount e - f \<le> 0" by (rule round20_le_zero_iff)
  finally show ?thesis by simp
qed

lemma amountInTier_mono: "a1 \<le> a2 \<Longrightarrow> amountInTier a1 f e \<le> amountInTier a2 f e"
proof -
  assume "a1 \<le> a2"
  then have "min a1 e - f \<le> min a2 e - f" by (simp add: min_le_iff_disj)
  then have "round20 (min a1 e - f) \<le> round20 (min a2 e - f)" by (rule round20_mono)
  then show ?thesis by (simp add: amountInTier_def decMinus_def max_def)
qed

lemma amountInTier_above: "e < a1 \<Longrightarrow> a1 \<le> a2 \<Longrightarrow> amountInTier a2 f e = amountInTier a1 f e"
  by (simp add: amountInTier_def)

lemma payoutForTier_zero: "payoutForTier t 0 = 0"
  by (simp add: payoutForTier_def decTimes_def decDiv100_def round20_zero)

lemma payoutForTier_mono:
  assumes "0 \<le> tier_rate t" and "s1 \<le> s2"
  shows "payoutForTier t s1 \<le> payoutForTier t s2"
proof -
  have m: "s1 * tier_rate t \<le> s2 * tier_rate t"
    using assms(2) assms(1) by (rule mult_right_mono)
  then have r: "round20 (s1 * tier_rate t) \<le> round20 (s2 * tier_rate t)" by (rule round20_mono)
  then have "round20 (s1 * tier_rate t) / 100 \<le> round20 (s2 * tier_rate t) / 100"
    by (rule divide_right_mono) simp
  then have "round20 (round20 (s1 * tier_rate t) / 100) \<le> round20 (round20 (s2 * tier_rate t) / 100)"
    by (rule round20_mono)
  with r show ?thesis by (simp add: payoutForTier_def decTimes_def decDiv100_def)
qed

lemma payoutForTier_nonneg: "0 \<le> tier_rate t \<Longrightarrow> 0 \<le> s \<Longrightarrow> 0 \<le> payoutForTier t s"
  using payoutForTier_mono [of t 0 s] by (simp add: payoutForTier_zero)

lemma specSlice_bounded: "tier_to t = Some e \<Longrightarrow> specSlice amount t = amountInTier amount (tier_from t) e"
  by (simp add: specSlice_def amountInTier_def)

lemma specSlice_below: "amount \<le> tier_from t \<Longrightarrow> specSlice amount t = 0"
proof -
  assume a: "amount \<le> tier_from t"
  have "(case tier_to t of None \<Rightarrow> amount | Some e \<Rightarrow> min amount e) - tier_from t \<le> 0"
    using a by (simp add: min_le_iff_disj split: option.splits)
  then have "round20 ((case tier_to t of None \<Rightarrow> amount | Some e \<Rightarrow> min amount e) - tier_from t) \<le> 0"
    by (rule round20_nonpos)
  then show ?thesis by (simp add: specSlice_def decMinus_def)
qed

lemma specContribution_below: "amount \<le> tier_from t \<Longrightarrow> specContribution amount t = 0"
  by (simp add: specContribution_def specSlice_below decTimes_def decDiv100_def round20_zero)

lemma specSum_below:
  "\<forall>t \<in> set ts. amount \<le> tier_from t \<Longrightarrow> round20 acc = acc \<Longrightarrow>
   foldl (\<lambda>acc t. decAdd acc (specContribution amount t)) acc ts = acc"
  by (induction ts arbitrary: acc) (simp_all add: specContribution_below decAdd_zero_right)

lemma specContribution_pct:
  "tier_to t = Some e \<Longrightarrow> tier_isPercentage t \<Longrightarrow>
   payoutForTier t (amountInTier amount (tier_from t) e) = specContribution amount t"
  by (simp add: specContribution_def payoutForTier_def specSlice_bounded)

lemma tierLoop_step:
  assumes "tier_to t = Some e"
  shows "tierLoop amount (t # ts) acc =
     (if amountInTier amount (tier_from t) e = 0 \<and> e < amount then tierLoop amount ts acc
      else if amountInTier amount (tier_from t) e = 0 \<and> amount \<le> tier_from t then Some acc
      else if amount \<le> e then Some (decAdd acc (payoutForTier t (amountInTier amount (tier_from t) e)))
      else tierLoop amount ts (decAdd acc (payoutForTier t (amountInTier amount (tier_from t) e))))"
  using assms by (simp add: Let_def)

lemma tierLoop_sum:
  "sorted (map tier_from ts) \<Longrightarrow> nonOverlapping ts \<Longrightarrow> list_all tier_isPercentage ts \<Longrightarrow>
   allBounded ts \<Longrightarrow> round20 acc = acc \<Longrightarrow>
   tierLoop amount ts acc = Some (foldl (\<lambda>acc t. decAdd acc (specContribution amount t)) acc ts)"
proof (induction ts arbitrary: acc)
  case Nil
  then show ?case by simp
next
  case (Cons t ts)
  obtain e where e: "tier_to t = Some e"
    using Cons.prems(4) by (auto simp: allBounded_def isBounded_def)
  let ?s = "amountInTier amount (tier_from t) e"
  let ?f = "\<lambda>acc t. decAdd acc (specContribution amount t)"
  have pct: "payoutForTier t ?s = specContribution amount t"
    using Cons.prems(3) e by (simp add: specContribution_pct)
  have srt: "sorted (map tier_from ts)" and ge: "\<forall>u \<in> set ts. tier_from t \<le> tier_from u"
    using Cons.prems(1) by auto
  have nov: "nonOverlapping ts"
    using Cons.prems(2) by (cases ts) auto
  have allp: "list_all tier_isPercentage ts"
    using Cons.prems(3) by simp
  have allb: "allBounded ts"
    using Cons.prems(4) by (simp add: allBounded_def)
  have rep: "round20 acc = acc" by fact
  have rep1: "round20 (decAdd acc (specContribution amount t)) = decAdd acc (specContribution amount t)"
    by (rule decAdd_rep)
  note IH = Cons.IH [OF srt nov allp allb]
  have zero: "?s = 0 \<Longrightarrow> decAdd acc (specContribution amount t) = acc"
    using pct rep by (simp add: payoutForTier_zero decAdd_zero_right)
  have rest_from: "amount \<le> tier_from t \<Longrightarrow> foldl ?f acc ts = acc"
    using ge rep by (intro specSum_below) auto
  have rest_to: "amount \<le> e \<Longrightarrow>
      foldl ?f (decAdd acc (specContribution amount t)) ts = decAdd acc (specContribution amount t)"
  proof -
    assume lt: "amount \<le> e"
    show ?thesis
    proof (cases ts)
      case Nil
      then show ?thesis by simp
    next
      case (Cons u us)
      with Cons.prems(2) e have "e \<le> tier_from u" by simp
      with lt have "amount \<le> tier_from u" by simp
      moreover have "\<forall>v \<in> set ts. tier_from u \<le> tier_from v"
        using srt Cons by auto
      ultimately have "\<forall>v \<in> set ts. amount \<le> tier_from v" by fastforce
      then show ?thesis using rep1 by (rule specSum_below)
    qed
  qed
  show ?case
  proof (cases "?s = 0 \<and> e < amount")
    case True
    then show ?thesis using zero IH [OF rep] by (simp add: tierLoop_step [OF e] del: tierLoop.simps)
  next
    case c1: False
    show ?thesis
    proof (cases "?s = 0 \<and> amount \<le> tier_from t")
      case True
      then show ?thesis
        using c1 zero rest_from by (simp add: tierLoop_step [OF e] del: tierLoop.simps)
    next
      case c2: False
      show ?thesis
      proof (cases "amount \<le> e")
        case True
        have "tierLoop amount (t # ts) acc = Some (decAdd acc (payoutForTier t ?s))"
          using c1 c2 True by (auto simp: tierLoop_step [OF e] simp del: tierLoop.simps)
        then show ?thesis using pct rest_to [OF True] by simp
      next
        case False
        have "tierLoop amount (t # ts) acc = tierLoop amount ts (decAdd acc (payoutForTier t ?s))"
          using c1 c2 False by (auto simp: tierLoop_step [OF e] simp del: tierLoop.simps)
        then show ?thesis using pct IH [OF rep1] by simp
      qed
    qed
  qed
qed

lemma tierLoop_ge_acc:
  "allBounded ts \<Longrightarrow> nonNegativeRates ts \<Longrightarrow> round20 acc = acc \<Longrightarrow>
   \<exists>r. tierLoop amount ts acc = Some r \<and> acc \<le> r"
proof (induction ts arbitrary: acc)
  case Nil
  then show ?case by simp
next
  case (Cons t ts)
  obtain e where e: "tier_to t = Some e"
    using Cons.prems(1) by (auto simp: allBounded_def isBounded_def)
  let ?s = "amountInTier amount (tier_from t) e"
  have allb: "allBounded ts" using Cons.prems(1) by (simp add: allBounded_def)
  have rates: "nonNegativeRates ts" and rt: "0 \<le> tier_rate t"
    using Cons.prems(2) by (simp_all add: nonNegativeRates_def)
  have p: "0 \<le> payoutForTier t ?s" using rt by (simp add: payoutForTier_nonneg amountInTier_nonneg)
  have a: "acc \<le> decAdd acc (payoutForTier t ?s)" using Cons.prems(3) p by (rule decAdd_ge)
  obtain r1 where r1: "tierLoop amount ts acc = Some r1" "acc \<le> r1"
    using Cons.IH [OF allb rates Cons.prems(3)] by auto
  obtain r2 where r2: "tierLoop amount ts (decAdd acc (payoutForTier t ?s)) = Some r2"
      "decAdd acc (payoutForTier t ?s) \<le> r2"
    using Cons.IH [OF allb rates decAdd_rep] by auto
  from a r2(2) have "acc \<le> r2" by linarith
  then show ?case using r1 r2 a by (simp add: tierLoop_step [OF e] del: tierLoop.simps)
qed

lemma tierLoop_mono:
  "allBounded ts \<Longrightarrow> nonNegativeRates ts \<Longrightarrow> a1 \<le> a2 \<Longrightarrow> acc1 \<le> acc2 \<Longrightarrow>
   round20 acc1 = acc1 \<Longrightarrow> round20 acc2 = acc2 \<Longrightarrow>
   payoutLe (tierLoop a1 ts acc1) (tierLoop a2 ts acc2)"
proof (induction ts arbitrary: acc1 acc2)
  case Nil
  then show ?case by simp
next
  case (Cons t ts)
  obtain e where e: "tier_to t = Some e"
    using Cons.prems(1) by (auto simp: allBounded_def isBounded_def)
  let ?f = "tier_from t"
  let ?s1 = "amountInTier a1 ?f e"
  let ?s2 = "amountInTier a2 ?f e"
  let ?p1 = "payoutForTier t ?s1"
  let ?p2 = "payoutForTier t ?s2"
  have allb: "allBounded ts" using Cons.prems(1) by (simp add: allBounded_def)
  have rates: "nonNegativeRates ts" and rt: "0 \<le> tier_rate t"
    using Cons.prems(2) by (simp_all add: nonNegativeRates_def)
  have le12: "a1 \<le> a2" by fact
  have sm: "?s1 \<le> ?s2" using le12 by (rule amountInTier_mono)
  have pm: "?p1 \<le> ?p2" using rt sm by (rule payoutForTier_mono)
  have am: "decAdd acc1 ?p1 \<le> decAdd acc2 ?p2" using Cons.prems(4) pm by (rule decAdd_mono)
  obtain g2 where g2: "tierLoop a2 (t # ts) acc2 = Some g2" "acc2 \<le> g2"
    using tierLoop_ge_acc [OF Cons.prems(1,2) Cons.prems(6)] by blast
  obtain h2 where h2: "tierLoop a2 ts (decAdd acc2 ?p2) = Some h2" "decAdd acc2 ?p2 \<le> h2"
    using tierLoop_ge_acc [OF allb rates decAdd_rep] by blast
  show ?case
  proof (cases "e < a1")
    case True
    then have gt2: "e < a2" using le12 by simp
    have eqS: "?s2 = ?s1" using True le12 by (rule amountInTier_above)
    show ?thesis
    proof (cases "?s1 = 0")
      case z: True
      then show ?thesis
        using True gt2 eqS Cons.IH [OF allb rates le12 Cons.prems(4,5,6)]
        by (simp add: tierLoop_step [OF e] del: tierLoop.simps)
    next
      case nz: False
      have "payoutLe (tierLoop a1 ts (decAdd acc1 ?p1)) (tierLoop a2 ts (decAdd acc2 ?p2))"
        using allb rates le12 am decAdd_rep decAdd_rep by (rule Cons.IH)
      then show ?thesis
        using True gt2 eqS nz by (simp add: tierLoop_step [OF e] del: tierLoop.simps)
    qed
  next
    case False
    then have l1: "a1 \<le> e" by simp
    show ?thesis
    proof (cases "?s1 = 0 \<and> a1 \<le> ?f")
      case True
      then have "tierLoop a1 (t # ts) acc1 = Some acc1"
        using l1 by (simp add: tierLoop_step [OF e] del: tierLoop.simps)
      then show ?thesis using g2 Cons.prems(4) by simp
    next
      case nb: False
      have pos: "?s1 \<noteq> 0"
      proof
        assume z: "?s1 = 0"
        then have "min a1 e \<le> ?f" by (simp only: amountInTier_zero_iff)
        with l1 have "a1 \<le> ?f" by simp
        with z nb show False by simp
      qed
      then have pos2: "?s2 \<noteq> 0"
        using sm amountInTier_nonneg [of a1 ?f e] by linarith
      have r1: "tierLoop a1 (t # ts) acc1 = Some (decAdd acc1 ?p1)"
        using l1 pos by (simp add: tierLoop_step [OF e] del: tierLoop.simps)
      have r2: "tierLoop a2 (t # ts) acc2 = (if a2 \<le> e then Some (decAdd acc2 ?p2) else Some h2)"
        using pos2 h2 by (simp add: tierLoop_step [OF e] del: tierLoop.simps)
      show ?thesis using r1 r2 am h2(2) by auto
    qed
  qed
qed


text \<open>
  Claim C7, as amended. For every tier list that is sorted ascending by \<open>from\<close>, whose
  tiers all have a \<open>to\<close>, do not overlap (each tier's \<open>to\<close> is at most the next
  tier's \<open>from\<close>) and are all percentage tiers, the tiered payout of an amount is
  returned and equals the sum over the tiers of \<open>slice * rate / 100\<close> with
  \<open>slice = max(0, min(amount, to) - from)\<close>, in the runtime's decimal arithmetic.
\<close>

theorem tiered_payout_is_sum_of_slices:
  assumes "sorted (map tier_from tiers)" and "nonOverlapping tiers"
    and "list_all tier_isPercentage tiers" and "allBounded tiers"
  shows "calculateTieredPayout amount tiers = Some (specTieredPayout amount tiers)"
proof -
  have "tierLoop amount tiers 0 =
      Some (foldl (\<lambda>acc t. decAdd acc (specContribution amount t)) 0 tiers)"
    using assms by (intro tierLoop_sum) (simp_all add: round20_zero)
  with assms(1) show ?thesis
    by (simp add: calculateTieredPayout_def specTieredPayout_def sort_key_id_if_sorted)
qed

theorem tiered_payout_is_sum_of_slices_witness:
  "sorted (map tier_from boundedTiers) \<and> nonOverlapping boundedTiers
   \<and> list_all tier_isPercentage boundedTiers \<and> allBounded boundedTiers
   \<and> calculateTieredPayout 1500 boundedTiers = Some (specTieredPayout 1500 boundedTiers)
   \<and> specTieredPayout 1500 boundedTiers = 100
   \<and> toFixed2 (specTieredPayout 1500 boundedTiers) = ''100.00''"
proof -
  have h1: "sorted (map tier_from boundedTiers)" by (simp add: boundedTiers_def)
  have h2: "nonOverlapping boundedTiers" by (simp add: boundedTiers_def)
  have h3: "list_all tier_isPercentage boundedTiers" by (simp add: boundedTiers_def)
  have h4: "allBounded boundedTiers" by (simp add: boundedTiers_def allBounded_def isBounded_def)
  have v: "specTieredPayout 1500 boundedTiers = 100"
    by (simp add: boundedTiers_def specTieredPayout_def specContribution_def specSlice_def dec_eval)
  have w: "toFixed2 (100 :: decimal) = ''100.00''" by (simp add: toFixed2_eval)
  from h1 h2 h3 h4 v w tiered_payout_is_sum_of_slices [OF h1 h2 h3 h4, of 1500]
  show ?thesis by simp
qed

text \<open>
  Claim C7 as stated fails for a sorted list whose tiers overlap: with the tiers 0 to
  1000 at 5 percent and 500 to 2000 at 10 percent the runtime stops after the first
  tier for the amount 800 and pays 40, while the sum over the tiers is 70.
\<close>

theorem tiered_payout_overlap_counterexample:
  "sorted (map tier_from overlappingTiers) \<and> list_all tier_isPercentage overlappingTiers
   \<and> calculateTieredPayout 800 overlappingTiers = Some 40
   \<and> specTieredPayout 800 overlappingTiers = 70"
  by (simp add: overlappingTiers_def tier_eval specTieredPayout_def specContribution_def
      specSlice_def)

text \<open>
  The scenario of the specification itself, the tiers 0 to 1000 at 5 percent and 1000
  upwards at 10 percent: the amount 900 ends in the first tier and pays 45; the amount
  1500 reaches the tier without \<open>to\<close>, and the call throws.
\<close>

lemma unbounded_tier_throws:
  "calculateTieredPayout 900 exampleTiers = Some 45
   \<and> calculateTieredPayout 1500 exampleTiers = None"
  by (simp add: exampleTiers_def tier_eval)

text \<open>
  Claim C8, as amended. For every fixed valid tier configuration (contiguous,
  non-overlapping tiers when sorted by \<open>from\<close>) whose tiers all have a \<open>to\<close> and whose
  rates are all non-negative, the tiered payout is returned for every amount and is
  monotonic non-decreasing in the amount: for all amounts \<open>a1 \<le> a2\<close>,
  \<open>payout(a1, tiers) \<le> payout(a2, tiers)\<close>.
\<close>

theorem tiered_payout_monotone:
  assumes "validTierConfig tiers" and "allBounded tiers" and "nonNegativeRates tiers"
    and "a1 \<le> a2"
  shows "payoutLe (calculateTieredPayout a1 tiers) (calculateTieredPayout a2 tiers)"
proof -
  have b: "allBounded (sort_key tier_from tiers)"
    using assms(2) by (simp add: allBounded_def list_all_iff)
  have r: "nonNegativeRates (sort_key tier_from tiers)"
    using assms(3) by (simp add: nonNegativeRates_def list_all_iff)
  show ?thesis
    unfolding calculateTieredPayout_def
    using b r assms(4) by (rule tierLoop_mono) (simp_all add: round20_zero)
qed

theorem tiered_payout_monotone_witness:
  "validTierConfig boundedTiers \<and> allBounded boundedTiers \<and> nonNegativeRates boundedTiers
   \<and> (900 :: decimal) \<le> 1500
   \<and> payoutLe (calculateTieredPayout 900 boundedTiers) (calculateTieredPayout 1500 boundedTiers)
   \<and> calculateTieredPayout 900 boundedTiers = Some 45
   \<and> calculateTieredPayout 1500 boundedTiers = Some 100"
proof -
  have h1: "validTierConfig boundedTiers"
    by (simp add: boundedTiers_def validTierConfig_def tierRangeOk_def)
  have h2: "allBounded boundedTiers" by (simp add: boundedTiers_def allBounded_def isBounded_def)
  have h3: "nonNegativeRates boundedTiers"
    by (simp add: boundedTiers_def nonNegativeRates_def)
  have h4: "(900 :: decimal) \<le> 1500" by simp
  have v: "calculateTieredPayout 900 boundedTiers = Some 45
      \<and> calculateTieredPayout 1500 boundedTiers = Some 100"
    by (simp add: boundedTiers_def tier_eval)
  from h1 h2 h3 h4 v tiered_payout_monotone [OF h1 h2 h3 h4] show ?thesis by simp
qed

text \<open>
  Claim C8 as stated fails for a valid configuration with a negative rate: the single
  tier 0 to 1000 at minus 10 percent pays \<open>-10\<close> for the amount 100 and \<open>-20\<close> for the
  amount 200.
\<close>

theorem tiered_payout_negative_rate_counterexample:
  "validTierConfig negativeRateTiers \<and> (100 :: decimal) \<le> 200
   \<and> calculateTieredPayout 100 negativeRateTiers = Some (- 10)
   \<and> calculateTieredPayout 200 negativeRateTiers = Some (- 20)
   \<and> \<not> payoutLe (calculateTieredPayout 100 negativeRateTiers)
           (calculateTieredPayout 200 negativeRateTiers)"
  by (simp add: negativeRateTiers_def validTierConfig_def tierRangeOk_def tier_eval)

section \<open>Exclusion and adjustment of one record (claims C5 and C6)\<close>

lemma exclusionLoop_find:
  "exclusionLoop hst fieldDefs rules record = find (ruleMatches hst fieldDefs record) rules"
  by (induction rules) (auto simp: ruleMatches_def split: option.splits)

lemma applyAdjustment_spec: "applyAdjustment r st = specAdjustStep r st"
  by (cases st) (simp add: applyAdjustment_def specAdjustStep_def)

lemma adjustmentLoop_spec:
  "adjustmentLoop hst fieldDefs rules record recordId agentId (st, lg) =
     (specAdjust hst fieldDefs record rules st,
      lg @ map (\<lambda>r. Adjustment (adj_id r) recordId agentId)
               (filter (conditionHolds hst fieldDefs record) rules))"
  by (induction rules arbitrary: st lg)
     (auto simp: conditionHolds_def applyAdjustment_spec split: option.splits)


lemma applyRecordRules_kept:
  assumes "find (ruleMatches hst (exclusionFields (kpiConfig sch)) record) (exclusionRules sch) = None"
  shows "applyRecordRules hst sch agentId record baseAmount =
     (let s = specAdjust hst (adjustmentFields (kpiConfig sch)) record (adjustmentRules sch)
                (baseAmount, 1)
      in \<lparr>rawLogs = map (\<lambda>r. Adjustment (adj_id r) (recordInternalId record) agentId)
                      (filter (conditionHolds hst (adjustmentFields (kpiConfig sch)) record)
                         (adjustmentRules sch))
                    @ (if customRules sch \<noteq> [] then [Custom (recordInternalId record) agentId] else []),
          baseAdded = Some baseAmount, adjustedAdded = Some (decTimes (fst s) (snd s)),
          processed = Some (setProp ''adjustedAmount'' (Dec (decTimes (fst s) (snd s))) record)\<rparr>)"
  using assms by (simp add: applyRecordRules_def exclusionLoop_find adjustmentLoop_spec Let_def)

lemmas parse_eval = parseDecimal_def parseMantissa_def parseExponent_def isExpChar_def
  isDigit_def digitsValue_def Let_def

lemmas rule_eval = ruleMatches_def conditionHolds_def findField_def evaluateRule_def getProp_def
  recordInternalId_def readBaseAmount_def isoHost_def






text \<open>
  A record whose base amount cannot be read does not come to the exclusion rules: the
  record with the amount \<^verbatim>\<open>abc\<close> would match the exclusion rule \<^verbatim>\<open>X1\<close>, and its only
  log entry is the data-error entry.
\<close>

lemma unreadable_amount_dropped:
  "ruleMatches isoHost (exclusionFields (kpiConfig ruleScheme)) unreadableRecord
     (exclusionRules ruleScheme ! 0)
   \<and> processRecord isoHost ruleScheme ''A'' unreadableRecord =
       \<lparr>rawLogs = [DataError (Str ''rec_2'') ''A''], baseAdded = None, adjustedAdded = None,
        processed = None\<rparr>"
proof -
  have a: "readBaseAmount isoHost ruleScheme unreadableRecord = None"
    by (simp add: ruleScheme_def unreadableRecord_def rule_eval parse_eval)
  have m: "ruleMatches isoHost (exclusionFields (kpiConfig ruleScheme)) unreadableRecord
      (exclusionRules ruleScheme ! 0)"
    by (simp add: ruleScheme_def unreadableRecord_def rule_eval)
  have d: "recordInternalId unreadableRecord = Str ''rec_2''"
    by (simp add: unreadableRecord_def rule_eval)
  from a m d show ?thesis by (simp add: processRecord_def)
qed

text \<open>
  Claim C6. For every record that no exclusion rule matches and whose base amount
  parses, the adjustment rules are applied in declared order starting from the base
  amount and the rate multiplier 1. A matching rule with target Amount and type
  percentage adds \<open>currentAmount * value / 100\<close> to the current amount; Amount and
  fixed adds \<open>value\<close>; Rate and percentage multiplies the rate multiplier by
  \<open>value / 100\<close>; Rate and fixed multiplies it by \<open>value\<close>. Each later rule works on
  the running amount and multiplier of the earlier ones, while its condition is
  evaluated on the fields of the record itself. The final adjusted amount of the record
  is \<open>currentAmount * rateMultiplier\<close>, and one adjustment entry is logged per matching
  rule, in declared order.
\<close>

theorem adjustments_compose_in_declared_order:
  assumes "readBaseAmount hst sch record = Some baseAmount"
    and "exclusionLoop hst (exclusionFields (kpiConfig sch)) (exclusionRules sch) record = None"
  shows "adjustedAdded (processRecord hst sch agentId record) =
           Some (decTimes
             (fst (specAdjust hst (adjustmentFields (kpiConfig sch)) record (adjustmentRules sch)
                     (baseAmount, 1)))
             (snd (specAdjust hst (adjustmentFields (kpiConfig sch)) record (adjustmentRules sch)
                     (baseAmount, 1))))
       \<and> processed (processRecord hst sch agentId record) =
           map_option (\<lambda>a. setProp ''adjustedAmount'' (Dec a) record)
             (adjustedAdded (processRecord hst sch agentId record))
       \<and> filter isAdjustment (rawLogs (processRecord hst sch agentId record)) =
           map (\<lambda>r. Adjustment (adj_id r) (recordInternalId record) agentId)
             (filter (conditionHolds hst (adjustmentFields (kpiConfig sch)) record)
                (adjustmentRules sch))"
proof -
  have n: "find (ruleMatches hst (exclusionFields (kpiConfig sch)) record) (exclusionRules sch) = None"
    using assms(2) by (simp add: exclusionLoop_find)
  have f: "filter isAdjustment (map (\<lambda>r. Adjustment (adj_id r) rid aid) rs) =
      map (\<lambda>r. Adjustment (adj_id r) rid aid) rs" for rid aid and rs :: "adjustmentRule list"
    by (induction rs) simp_all
  show ?thesis
    using assms(1) by (simp add: processRecord_def applyRecordRules_kept [OF n] Let_def f)
qed

theorem adjustments_compose_in_declared_order_witness:
  "readBaseAmount isoHost ruleScheme deliveredRecord = Some 1000
   \<and> exclusionLoop isoHost (exclusionFields (kpiConfig ruleScheme)) (exclusionRules ruleScheme)
       deliveredRecord = None
   \<and> specAdjust isoHost (adjustmentFields (kpiConfig ruleScheme)) deliveredRecord
       (adjustmentRules ruleScheme) (1000, 1) = (1150, 3)
   \<and> adjustedAdded (processRecord isoHost ruleScheme ''A'' deliveredRecord) = Some 3450
   \<and> filter isAdjustment (rawLogs (processRecord isoHost ruleScheme ''A'' deliveredRecord)) =
       [Adjustment ''A1'' (Str ''rec_1'') ''A'', Adjustment ''A2'' (Str ''rec_1'') ''A'',
        Adjustment ''A4'' (Str ''rec_1'') ''A'', Adjustment ''A5'' (Str ''rec_1'') ''A'']"
proof -
  have h1: "readBaseAmount isoHost ruleScheme deliveredRecord = Some 1000"
    by (simp add: ruleScheme_def deliveredRecord_def rule_eval parse_eval)
  have h2: "exclusionLoop isoHost (exclusionFields (kpiConfig ruleScheme)) (exclusionRules ruleScheme)
      deliveredRecord = None"
    by (simp add: exclusionLoop_find ruleScheme_def deliveredRecord_def rule_eval parse_eval)
  have s: "specAdjust isoHost (adjustmentFields (kpiConfig ruleScheme)) deliveredRecord
      (adjustmentRules ruleScheme) (1000, 1) = (1150, 3)"
    by (simp add: ruleScheme_def deliveredRecord_def rule_eval specAdjustStep_def dec_eval)
  have c: "filter (conditionHolds isoHost (adjustmentFields (kpiConfig ruleScheme)) deliveredRecord)
      (adjustmentRules ruleScheme) =
      [adjustmentRules ruleScheme ! 0, adjustmentRules ruleScheme ! 1,
       adjustmentRules ruleScheme ! 3, adjustmentRules ruleScheme ! 4]"
    by (simp add: ruleScheme_def deliveredRecord_def rule_eval)
  have r: "recordInternalId deliveredRecord = Str ''rec_1''"
    by (simp add: deliveredRecord_def rule_eval)
  note t = adjustments_compose_in_declared_order [OF h1 h2, of "''A''"]
  from t s have a: "adjustedAdded (processRecord isoHost ruleScheme ''A'' deliveredRecord) = Some 3450"
    by (simp add: dec_eval)
  from t c r have l: "filter isAdjustment (rawLogs (processRecord isoHost ruleScheme ''A'' deliveredRecord)) =
      [Adjustment (adj_id (adjustmentRules ruleScheme ! 0)) (Str ''rec_1'') ''A'',
       Adjustment (adj_id (adjustmentRules ruleScheme ! 1)) (Str ''rec_1'') ''A'',
       Adjustment (adj_id (adjustmentRules ruleScheme ! 3)) (Str ''rec_1'') ''A'',
       Adjustment (adj_id (adjustmentRules ruleScheme ! 4)) (Str ''rec_1'') ''A'']"
    by simp
  have ids: "adj_id (adjustmentRules ruleScheme ! 0) = ''A1''"
    "adj_id (adjustmentRules ruleScheme ! 1) = ''A2''"
    "adj_id (adjustmentRules ruleScheme ! 3) = ''A4''"
    "adj_id (adjustmentRules ruleScheme ! 4) = ''A5''"
    by (simp_all add: ruleScheme_def)
  from h1 h2 s a l ids show ?thesis by simp
qed

section \<open>The run as a whole\<close>

lemma runScheme_stages:
  assumes "parseDate hst d = Some rd"
    and "sourceFile (baseMapping sch) \<noteq> []"
    and "files (sourceFile (baseMapping sch)) = Some body"
    and "body \<noteq> []"
    and "parseCSV body = base"
    and "filterRecords hst sch (parseDate hst (effectiveFrom sch)) rd base = (fr, fl)"
    and "groupByAgent hst sch 0 fr ([], fl) = Inr (g, gl)"
    and "forInOrder g = ags"
  shows "runScheme hst sch files d =
     agentLoop hst (loadHierarchy sch files) rd (initialState sch gl) ags"
  using assms by (simp add: runScheme_def Let_def)

subsection \<open>Keys\<close>

lemma map_fst_addRecord:
  "map fst (addRecord a r g) = (if a \<in> set (map fst g) then map fst g else map fst g @ [a])"
  by (induction g) (auto simp: rev_image_eqI)

lemma distinct_addRecord: "distinct (map fst g) \<Longrightarrow> distinct (map fst (addRecord a r g))"
  by (simp add: map_fst_addRecord)

lemma distinct_groupByAgent:
  "groupByAgent hst sch n recs acc = Inr res \<Longrightarrow> distinct (map fst (fst acc)) \<Longrightarrow>
   distinct (map fst (fst res))"
proof (induction recs arbitrary: n acc)
  case Nil
  then show ?case by simp
next
  case (Cons rc rest)
  show ?case
    using Cons.prems Cons.IH
    by (auto simp: Let_def distinct_addRecord split: if_splits)
qed

lemma distinct_forInOrder:
  assumes "distinct (map fst g)"
  shows "distinct (map fst (forInOrder g))"
proof -
  let ?P = "\<lambda>kv. isArrayIndex (fst kv)"
  have s: "set (map fst (forInOrder g)) = set (map fst g)"
    by (auto simp: forInOrder_def)
  have l: "length (map fst (forInOrder g)) = length (map fst g)"
    using sum_length_filter_compl [of ?P g] by (simp add: forInOrder_def)
  from assms have "card (set (map fst g)) = length (map fst g)" by (rule distinct_card)
  with s l have "card (set (map fst (forInOrder g))) = length (map fst (forInOrder g))" by simp
  then show ?thesis by (rule card_distinct)
qed

subsection \<open>What one agent's turn leaves alone\<close>

lemma processAgent_frame:
  assumes "processAgent hst h rd st agent = Inr st1" and "k \<noteq> fst agent"
  shows "agentPayouts st1 k = agentPayouts st k"
    and "ruleHitLogs st1 k = ruleHitLogs st k"
    and "creditDistributions st1 k = creditDistributions st k"
    and "agentData st1 k = agentData st k"
  using assms by (auto simp: processAgent_def Let_def split: option.splits)

lemma processAgent_static:
  "processAgent hst h rd st agent = Inr st1 \<Longrightarrow>
   staticPart (schemeNow st1) = staticPart (schemeNow st)"
  by (auto simp: processAgent_def Let_def staticPart_def split: option.splits)

lemma agentLoop_frame:
  assumes "agentLoop hst h rd st ags = Inr fin" and "k \<notin> fst ` set ags"
  shows "agentPayouts fin k = agentPayouts st k
       \<and> ruleHitLogs fin k = ruleHitLogs st k
       \<and> creditDistributions fin k = creditDistributions st k
       \<and> agentData fin k = agentData st k"
  using assms
proof (induction ags arbitrary: st)
  case Nil
  then show ?case by simp
next
  case (Cons a ags)
  from Cons.prems(1) obtain st1 where
    s: "processAgent hst h rd st a = Inr st1" "agentLoop hst h rd st1 ags = Inr fin"
    by (auto split: sum.splits)
  have k: "k \<noteq> fst a" and r: "k \<notin> fst ` set ags"
    using Cons.prems(2) by auto
  show ?case
    using Cons.IH [OF s(2) r] processAgent_frame [OF s(1) k] by simp
qed

lemma agentLoop_errors:
  "agentLoop hst h rd st ags = Inl e \<Longrightarrow> e = InvalidDecimalArgument"
proof (induction ags arbitrary: st)
  case Nil
  then show ?case by simp
next
  case (Cons a ags)
  show ?case
  proof (cases "processAgent hst h rd st a")
    case (Inl e1)
    then have "e1 = InvalidDecimalArgument"
      by (auto simp: processAgent_def Let_def split: option.splits)
    with Inl Cons.prems show ?thesis by simp
  next
    case (Inr st1)
    with Cons.prems Cons.IH show ?thesis by simp
  qed
qed

lemma groupByAgent_errors:
  "groupByAgent hst sch n recs acc = Inl e \<Longrightarrow> \<exists>k. e = TypeError k"
  by (induction recs arbitrary: n acc) (auto simp: Let_def split: if_splits)

lemma runScheme_Inr:
  assumes "runScheme hst sch files d = Inr fin"
  shows "\<exists>rd ags raw. parseDate hst d = Some rd \<and> distinct (map fst ags)
           \<and> agentLoop hst (loadHierarchy sch files) rd (initialState sch raw) ags = Inr fin"
proof -
  from assms obtain rd where rd: "parseDate hst d = Some rd"
    by (auto simp: runScheme_def split: option.splits)
  from assms rd obtain body where body: "files (sourceFile (baseMapping sch)) = Some body" "body \<noteq> []"
    "sourceFile (baseMapping sch) \<noteq> []"
    by (auto simp: runScheme_def Let_def split: option.splits if_splits)
  obtain fr fl where
    f: "filterRecords hst sch (parseDate hst (effectiveFrom sch)) rd (parseCSV body) = (fr, fl)"
    by (cases "filterRecords hst sch (parseDate hst (effectiveFrom sch)) rd (parseCSV body)") auto
  from assms rd body f obtain g gl where g: "groupByAgent hst sch 0 fr ([], fl) = Inr (g, gl)"
    by (cases "groupByAgent hst sch 0 fr ([], fl)") (auto simp: runScheme_def Let_def)
  have "distinct (map fst (fst (g, gl)))"
    using g by (rule distinct_groupByAgent) simp
  then have "distinct (map fst (forInOrder g))"
    by (simp add: distinct_forInOrder)
  moreover have "runScheme hst sch files d =
      agentLoop hst (loadHierarchy sch files) rd (initialState sch gl) (forInOrder g)"
    using rd body(3) body(1) body(2) refl f g refl by (rule runScheme_stages)
  ultimately show ?thesis using assms rd by auto
qed

text \<open>Every agent of the final state had its turn: the final entries under its key are
  the ones its own turn wrote, in some state whose static scheme is the input's.\<close>

lemma agentLoop_agent_turn:
  assumes "distinct (map fst ags)" and "agentLoop hst h rd st0 ags = Inr fin"
    and "agentData fin A = Some info" and "agentData st0 A = None"
  shows "\<exists>st recs st1. staticPart (schemeNow st) = staticPart (schemeNow st0)
          \<and> processAgent hst h rd st (A, recs) = Inr st1
          \<and> agentData st1 A = Some info
          \<and> agentPayouts fin A = agentPayouts st1 A
          \<and> ruleHitLogs fin A = ruleHitLogs st1 A
          \<and> creditDistributions fin A = creditDistributions st1 A
          \<and> creditDistributions st A = creditDistributions st0 A"
  using assms
proof (induction ags arbitrary: st0)
  case Nil
  then show ?case by simp
next
  case (Cons a ags)
  from Cons.prems(2) obtain sa where
    s: "processAgent hst h rd st0 a = Inr sa" "agentLoop hst h rd sa ags = Inr fin"
    by (auto split: sum.splits)
  show ?case
  proof (cases "fst a = A")
    case True
    then have notin: "A \<notin> fst ` set ags" using Cons.prems(1) by auto
    have a: "a = (A, snd a)" using True by (cases a) simp
    note fr = agentLoop_frame [OF s(2) notin]
    have "staticPart (schemeNow st0) = staticPart (schemeNow st0)
        \<and> processAgent hst h rd st0 (A, snd a) = Inr sa
        \<and> agentData sa A = Some info
        \<and> agentPayouts fin A = agentPayouts sa A
        \<and> ruleHitLogs fin A = ruleHitLogs sa A
        \<and> creditDistributions fin A = creditDistributions sa A
        \<and> creditDistributions st0 A = creditDistributions st0 A"
      using fr Cons.prems(3) a s(1) by simp
    then show ?thesis by blast
  next
    case False
    then have ne: "A \<noteq> fst a" by simp
    have d: "distinct (map fst ags)" using Cons.prems(1) by simp
    have n: "agentData sa A = None"
      using processAgent_frame(4) [OF s(1) ne] Cons.prems(4) by simp
    from Cons.IH [OF d s(2) Cons.prems(3) n] obtain st recs st1 where
      t: "staticPart (schemeNow st) = staticPart (schemeNow sa)"
        "processAgent hst h rd st (A, recs) = Inr st1"
        "agentData st1 A = Some info"
        "agentPayouts fin A = agentPayouts st1 A"
        "ruleHitLogs fin A = ruleHitLogs st1 A"
        "creditDistributions fin A = creditDistributions st1 A"
        "creditDistributions st A = creditDistributions sa A"
      by blast
    have "staticPart (schemeNow st) = staticPart (schemeNow st0)"
      using t(1) processAgent_static [OF s(1)] by simp
    moreover have "creditDistributions st A = creditDistributions st0 A"
      using t(7) processAgent_frame(3) [OF s(1) ne] by simp
    ultimately show ?thesis using t(2-6) by blast
  qed
qed

lemma runScheme_agent_turn:
  assumes "runScheme hst sch files d = Inr fin" and "agentData fin A = Some info"
  shows "\<exists>rd st recs st1. parseDate hst d = Some rd
          \<and> staticPart (schemeNow st) = staticPart sch
          \<and> creditDistributions st A = None
          \<and> processAgent hst (loadHierarchy sch files) rd st (A, recs) = Inr st1
          \<and> agentData st1 A = Some info
          \<and> agentPayouts fin A = agentPayouts st1 A
          \<and> ruleHitLogs fin A = ruleHitLogs st1 A
          \<and> creditDistributions fin A = creditDistributions st1 A"
proof -
  from runScheme_Inr [OF assms(1)] obtain rd ags raw where
    r: "parseDate hst d = Some rd" "distinct (map fst ags)"
      "agentLoop hst (loadHierarchy sch files) rd (initialState sch raw) ags = Inr fin"
    by blast
  have i: "agentData (initialState sch raw) A = None" "schemeNow (initialState sch raw) = sch"
    "creditDistributions (initialState sch raw) A = None"
    by (simp_all add: initialState_def)
  from agentLoop_agent_turn [OF r(2) r(3) assms(2) i(1)] r(1) i(2,3)
  show ?thesis by auto
qed

subsection \<open>The entries of the qualification loop\<close>

lemma sumReduce_logs:
  "\<exists>ws. snd (sumReduce hst sch r fieldDef recs (v, lg)) = lg @ ws
        \<and> list_all (\<lambda>e. isQualEntry e \<and> \<not> isDisqualified e) ws"
proof (induction recs arbitrary: v lg)
  case Nil
  then show ?case by simp
next
  case (Cons rec recs)
  show ?case
  proof (cases "sumValue hst sch fieldDef rec")
    case None
    from Cons [of v "lg @ [SumWarning (rule_id r) (recordInternalId rec)]"] obtain ws where
      "snd (sumReduce hst sch r fieldDef recs (v, lg @ [SumWarning (rule_id r) (recordInternalId rec)]))
         = (lg @ [SumWarning (rule_id r) (recordInternalId rec)]) @ ws"
      "list_all (\<lambda>e. isQualEntry e \<and> \<not> isDisqualified e) ws" by blast
    then have "snd (sumReduce hst sch r fieldDef (rec # recs) (v, lg)) =
        lg @ (SumWarning (rule_id r) (recordInternalId rec) # ws)
        \<and> list_all (\<lambda>e. isQualEntry e \<and> \<not> isDisqualified e)
             (SumWarning (rule_id r) (recordInternalId rec) # ws)"
      using None by simp
    then show ?thesis by blast
  next
    case (Some val)
    with Cons [of "decAdd v val" lg] show ?thesis by simp
  qed
qed

lemma qualificationLoop_logs:
  "\<exists>ql. qualLogs (qualificationLoop hst sch agentId recs fieldDefs rules lg) = lg @ ql
        \<and> list_all isQualEntry ql
        \<and> (qualifiedFlag (qualificationLoop hst sch agentId recs fieldDefs rules lg)
             \<longleftrightarrow> \<not> list_ex isDisqualified ql)"
proof (induction rules arbitrary: fieldDefs lg)
  case Nil
  then show ?case by simp
next
  case (Cons r rs)
  show ?case
  proof (cases "findField fieldDefs (rule_field r)")
    case None
    with Cons [of fieldDefs lg] show ?thesis by (simp add: Let_def)
  next
    case (Some fieldDef)
    show ?thesis
    proof (cases "kf_evaluationLevel fieldDef = ''Agent''
             \<and> kf_aggregation fieldDef \<noteq> ''Sum'' \<and> kf_aggregation fieldDef \<noteq> ''Count''")
      case True
      from Cons [of fieldDefs "lg @ [AggregationError (rule_id r) (kf_aggregation fieldDef)]"]
      obtain ql where q: "qualLogs (qualificationLoop hst sch agentId recs fieldDefs rs
             (lg @ [AggregationError (rule_id r) (kf_aggregation fieldDef)])) =
           (lg @ [AggregationError (rule_id r) (kf_aggregation fieldDef)]) @ ql"
        "list_all isQualEntry ql"
        "qualifiedFlag (qualificationLoop hst sch agentId recs fieldDefs rs
             (lg @ [AggregationError (rule_id r) (kf_aggregation fieldDef)]))
          \<longleftrightarrow> \<not> list_ex isDisqualified ql" by blast
      have "qualLogs (qualificationLoop hst sch agentId recs fieldDefs (r # rs) lg) =
            lg @ (AggregationError (rule_id r) (kf_aggregation fieldDef) # ql)
          \<and> list_all isQualEntry (AggregationError (rule_id r) (kf_aggregation fieldDef) # ql)
          \<and> (qualifiedFlag (qualificationLoop hst sch agentId recs fieldDefs (r # rs) lg)
               \<longleftrightarrow> \<not> list_ex isDisqualified (AggregationError (rule_id r) (kf_aggregation fieldDef) # ql))"
        using Some True q by (simp add: Let_def)
      then show ?thesis by blast
    next
      case False
      define perRecord where "perRecord = (kf_evaluationLevel fieldDef \<noteq> ''Agent'')"
      define summed where "summed = sumReduce hst sch r fieldDef recs (0, [])"
      define valueToEvaluate where "valueToEvaluate =
          (if perRecord
           then Bool (list_ex (\<lambda>rec. evaluateRule hst (getProp rec (kf_sourceField fieldDef))
                                 (rule_operator r) (rule_value r) (kf_dataType fieldDef)) recs)
           else if kf_aggregation fieldDef = ''Sum'' then Dec (fst summed)
           else Dec (of_nat (length recs)))"
      define lg1 where "lg1 = (if \<not> perRecord \<and> kf_aggregation fieldDef = ''Sum''
                          then lg @ snd summed else lg)"
      define r1 where "r1 = (if perRecord then r\<lparr>rule_operator := ''='', rule_value := Bool True\<rparr> else r)"
      define fieldDefs1 where "fieldDefs1 = (if perRecord then setDataType (rule_field r) ''Boolean'' fieldDefs
                               else fieldDefs)"
      define dataType1 where "dataType1 = (if perRecord then ''Boolean'' else kf_dataType fieldDef)"
      define ruleMet where "ruleMet = evaluateRule hst valueToEvaluate (rule_operator r1) (rule_value r1) dataType1"
      define lg2 where "lg2 = lg1 @ [Qualification (rule_id r) agentId ruleMet valueToEvaluate]"
      have unfold: "qualificationLoop hst sch agentId recs fieldDefs (r # rs) lg =
          (if \<not> ruleMet
           then \<lparr>qualLogs = lg2 @ [Disqualified agentId (rule_id r)], qualifiedFlag = False,
                 rulesAfter = r1 # rs, fieldsAfter = fieldDefs1\<rparr>
           else (let res = qualificationLoop hst sch agentId recs fieldDefs1 rs lg2
                 in res\<lparr>rulesAfter := r1 # rulesAfter res\<rparr>))"
        unfolding lg2_def ruleMet_def dataType1_def fieldDefs1_def r1_def lg1_def
          valueToEvaluate_def summed_def perRecord_def
        by (subst qualificationLoop.simps) (simp only: Some option.case False if_False Let_def)
      obtain ws where ws: "lg1 = lg @ ws" "list_all (\<lambda>e. isQualEntry e \<and> \<not> isDisqualified e) ws"
      proof (cases "\<not> perRecord \<and> kf_aggregation fieldDef = ''Sum''")
        case True
        from sumReduce_logs [of hst sch r fieldDef recs 0 "[]"] obtain w where
          "snd summed = w" "list_all (\<lambda>e. isQualEntry e \<and> \<not> isDisqualified e) w"
          by (auto simp: summed_def)
        with True that [of w] show ?thesis by (simp add: lg1_def)
      next
        case False
        with that [of "[]"] show ?thesis by (simp add: lg1_def)
      qed
      have ws': "list_all isQualEntry ws" "\<not> list_ex isDisqualified ws"
        using ws(2) by (auto simp: list_all_iff list_ex_iff)
      show ?thesis
      proof (cases ruleMet)
        case False
        have "qualLogs (qualificationLoop hst sch agentId recs fieldDefs (r # rs) lg) =
            lg @ (ws @ [Qualification (rule_id r) agentId ruleMet valueToEvaluate,
                        Disqualified agentId (rule_id r)])"
          using unfold False ws(1) by (simp add: lg2_def)
        moreover have "list_all isQualEntry (ws @ [Qualification (rule_id r) agentId ruleMet valueToEvaluate,
                        Disqualified agentId (rule_id r)])"
          using ws'(1) by simp
        moreover have "qualifiedFlag (qualificationLoop hst sch agentId recs fieldDefs (r # rs) lg)
            \<longleftrightarrow> \<not> list_ex isDisqualified (ws @ [Qualification (rule_id r) agentId ruleMet valueToEvaluate,
                        Disqualified agentId (rule_id r)])"
          using unfold False by simp
        ultimately show ?thesis by blast
      next
        case True
        from Cons [of fieldDefs1 lg2] obtain ql where q:
          "qualLogs (qualificationLoop hst sch agentId recs fieldDefs1 rs lg2) = lg2 @ ql"
          "list_all isQualEntry ql"
          "qualifiedFlag (qualificationLoop hst sch agentId recs fieldDefs1 rs lg2)
            \<longleftrightarrow> \<not> list_ex isDisqualified ql" by blast
        have "qualLogs (qualificationLoop hst sch agentId recs fieldDefs (r # rs) lg) =
            lg @ (ws @ Qualification (rule_id r) agentId ruleMet valueToEvaluate # ql)"
          using unfold True ws(1) q(1) by (simp add: lg2_def Let_def)
        moreover have "list_all isQualEntry (ws @ Qualification (rule_id r) agentId ruleMet valueToEvaluate # ql)"
          using ws'(1) q(2) by simp
        moreover have "qualifiedFlag (qualificationLoop hst sch agentId recs fieldDefs (r # rs) lg)
            \<longleftrightarrow> \<not> list_ex isDisqualified (ws @ Qualification (rule_id r) agentId ruleMet valueToEvaluate # ql)"
          using unfold True q(3) ws'(2) by (simp add: Let_def)
        ultimately show ?thesis by blast
      qed
    qed
  qed
qed

lemma static_fields:
  assumes "staticPart s1 = staticPart s2"
  shows "creditSplits s1 = creditSplits s2" and "creditHierarchyFile s1 = creditHierarchyFile s2"
    and "quotaAmount s1 = quotaAmount s2" and "payoutTiers s1 = payoutTiers s2"
proof -
  have "creditSplits (staticPart s1) = creditSplits s1" "creditSplits (staticPart s2) = creditSplits s2"
    "creditHierarchyFile (staticPart s1) = creditHierarchyFile s1"
    "creditHierarchyFile (staticPart s2) = creditHierarchyFile s2"
    "quotaAmount (staticPart s1) = quotaAmount s1" "payoutTiers (staticPart s1) = payoutTiers s1"
    "quotaAmount (staticPart s2) = quotaAmount s2" "payoutTiers (staticPart s2) = payoutTiers s2"
    by (simp_all add: staticPart_def)
  with assms show "creditSplits s1 = creditSplits s2"
    and "creditHierarchyFile s1 = creditHierarchyFile s2"
    and "quotaAmount s1 = quotaAmount s2" and "payoutTiers s1 = payoutTiers s2" by simp_all
qed

lemma payoutStep_static:
  "staticPart s1 = staticPart s2 \<Longrightarrow> payoutStep s1 = payoutStep s2"
proof -
  assume e: "staticPart s1 = staticPart s2"
  note f = static_fields [OF e]
  show ?thesis by (intro ext) (simp add: payoutStep_def Let_def f)
qed

text \<open>What the final state holds for an agent, in terms of the scheme as passed in.\<close>

lemma agent_summary:
  assumes "runScheme hst sch files d = Inr fin" and "agentData fin A = Some info"
  shows "\<exists>rd ql pl. parseDate hst d = Some rd
          \<and> list_all isQualEntry ql
          \<and> (agent_qualified info \<longleftrightarrow> \<not> list_ex isDisqualified ql)
          \<and> payoutStep sch A (agent_qualified info) (totalAdjustedAmount info)
              = Some (payout info, pl)
          \<and> logs info = ql @ pl
          \<and> agentPayouts fin A = Some (toFixed2 (payout info))
          \<and> creditDistributions fin A =
              (if agent_qualified info \<and> 0 < payout info \<and> loadHierarchy sch files \<noteq> []
                  \<and> creditSplits sch \<noteq> []
               then Some (splitLoop hst (creditHierarchyFile sch) (loadHierarchy sch files) rd A
                            (payout info) (creditSplits sch) [])
               else None)"
proof -
  from runScheme_agent_turn [OF assms] obtain rd st recs st1 where
    t: "parseDate hst d = Some rd" "staticPart (schemeNow st) = staticPart sch"
      "creditDistributions st A = None"
      "processAgent hst (loadHierarchy sch files) rd st (A, recs) = Inr st1"
      "agentData st1 A = Some info"
      "agentPayouts fin A = agentPayouts st1 A"
      "creditDistributions fin A = creditDistributions st1 A"
    by blast
  define rl where "rl = recordLoop hst (schemeNow st) A recs"
  define q where "q = qualificationLoop hst (schemeNow st) A (loopRecords rl)
      (qualificationFields (kpiConfig (schemeNow st))) (qualificationRules (schemeNow st)) []"
  define sch1 where "sch1 = (schemeNow st)\<lparr>qualificationRules := rulesAfter q,
      kpiConfig := (kpiConfig (schemeNow st))\<lparr>qualificationFields := fieldsAfter q\<rparr>\<rparr>"
  have s1: "staticPart sch1 = staticPart sch"
    using t(2) by (simp add: sch1_def staticPart_def)
  note sf = static_fields [OF s1]
  have ps: "payoutStep sch1 = payoutStep sch" using s1 by (rule payoutStep_static)
  define h where "h = loadHierarchy sch files"
  have pa: "processAgent hst h rd st (A, recs) =
     (case payoutStep sch1 A (qualifiedFlag q) (loopAdjusted rl) of
        None \<Rightarrow> Inl InvalidDecimalArgument
      | Some p \<Rightarrow>
     Inr \<lparr>schemeNow = sch1,
      agentPayouts = (agentPayouts st)(A \<mapsto> toFixed2 (fst p)),
      ruleHitLogs = (if qualLogs q @ snd p \<noteq> [] then (ruleHitLogs st)(A \<mapsto> qualLogs q @ snd p)
                     else ruleHitLogs st),
      creditDistributions =
        (if (qualifiedFlag q \<and> fst p > 0 \<and> h \<noteq> [] \<and> creditSplits sch1 \<noteq> [])
         then (creditDistributions st)(A \<mapsto>
                splitLoop hst (creditHierarchyFile sch1) h rd A (fst p) (creditSplits sch1)
                  (case creditDistributions st A of Some l \<Rightarrow> l | None \<Rightarrow> []))
         else creditDistributions st),
      rawRecordLevelData = rawRecordLevelData st @ loopLogs rl,
      agentData = (agentData st)(A \<mapsto>
        \<lparr>records = loopRecords rl, logs = qualLogs q @ snd p, totalBaseAmount = loopBase rl,
         totalAdjustedAmount = loopAdjusted rl, agent_qualified = qualifiedFlag q,
         payout = fst p\<rparr>)\<rparr>)"
    by (simp only: processAgent_def Let_def fst_conv snd_conv rl_def q_def sch1_def)
  from t(4) pa [unfolded ps] obtain p where p: "payoutStep sch A (qualifiedFlag q) (loopAdjusted rl) = Some p"
    and st1: "st1 = \<lparr>schemeNow = sch1,
      agentPayouts = (agentPayouts st)(A \<mapsto> toFixed2 (fst p)),
      ruleHitLogs = (if qualLogs q @ snd p \<noteq> [] then (ruleHitLogs st)(A \<mapsto> qualLogs q @ snd p)
                     else ruleHitLogs st),
      creditDistributions =
        (if (qualifiedFlag q \<and> fst p > 0 \<and> h \<noteq> [] \<and> creditSplits sch1 \<noteq> [])
         then (creditDistributions st)(A \<mapsto>
                splitLoop hst (creditHierarchyFile sch1) h rd A (fst p) (creditSplits sch1)
                  (case creditDistributions st A of Some l \<Rightarrow> l | None \<Rightarrow> []))
         else creditDistributions st),
      rawRecordLevelData = rawRecordLevelData st @ loopLogs rl,
      agentData = (agentData st)(A \<mapsto>
        \<lparr>records = loopRecords rl, logs = qualLogs q @ snd p, totalBaseAmount = loopBase rl,
         totalAdjustedAmount = loopAdjusted rl, agent_qualified = qualifiedFlag q,
         payout = fst p\<rparr>)\<rparr>"
    by (auto simp: h_def split: option.splits)
  have info: "info = \<lparr>records = loopRecords rl, logs = qualLogs q @ snd p,
      totalBaseAmount = loopBase rl, totalAdjustedAmount = loopAdjusted rl,
      agent_qualified = qualifiedFlag q, payout = fst p\<rparr>"
    using t(5) by (simp add: st1)
  have pay: "agentPayouts fin A = Some (toFixed2 (fst p))"
    using t(6) by (simp add: st1)
  have cd: "creditDistributions fin A =
      (if qualifiedFlag q \<and> 0 < fst p \<and> h \<noteq> [] \<and> creditSplits sch \<noteq> []
       then Some (splitLoop hst (creditHierarchyFile sch) h rd A (fst p) (creditSplits sch) [])
       else None)"
    using t(7) t(3) by (simp add: st1 sf(1,2))
  from qualificationLoop_logs [of hst "schemeNow st" A "loopRecords rl"
      "qualificationFields (kpiConfig (schemeNow st))" "qualificationRules (schemeNow st)" "[]"]
  obtain ql where ql: "qualLogs q = ql" "list_all isQualEntry ql"
    "qualifiedFlag q \<longleftrightarrow> \<not> list_ex isDisqualified ql"
    by (auto simp: q_def)
  have pe: "payoutStep sch A (qualifiedFlag q) (loopAdjusted rl) = Some (fst p, snd p)"
    using p by simp
  show ?thesis
    using t(1) ql info pay cd pe by (auto simp: h_def)
qed

section \<open>Quota gate, tier payout and credit entries of one agent\<close>

lemma qualEntry_kinds:
  "isQualEntry e \<Longrightarrow> \<not> isPayoutCalculation e \<and> e \<noteq> Quota a b"
  by (cases e) simp_all

lemma payoutStep_below_quota:
  assumes "0 < quotaAmount sch" and "amt < quotaAmount sch"
  shows "payoutStep sch A True amt = Some (0, [Quota A False])"
  using assms by (simp add: payoutStep_def Let_def)

lemma payoutStep_meets_quota:
  assumes "0 < quotaAmount sch" and "quotaAmount sch \<le> amt"
  shows "payoutStep sch A True amt =
     map_option (\<lambda>tiered. (tiered, [Quota A True,
                   PayoutCalculation A (toFixed2 amt) (toFixed2 tiered)]))
       (calculateTieredPayout amt (payoutTiers sch))"
  using assms by (simp add: payoutStep_def Let_def split: option.splits)

lemma tierLoop_below:
  "\<forall>t \<in> set ts. amount \<le> tier_from t \<Longrightarrow> tierLoop amount ts acc = Some r \<Longrightarrow> r = acc"
proof (induction ts)
  case Nil
  then show ?case by simp
next
  case (Cons t ts)
  from Cons.prems(2) obtain e where e: "tier_to t = Some e"
    by (cases "tier_to t") simp_all
  have b: "amount \<le> tier_from t" using Cons.prems(1) by simp
  have z: "amountInTier amount (tier_from t) e = 0" using b by (rule amountInTier_below)
  have r: "\<forall>t \<in> set ts. amount \<le> tier_from t" using Cons.prems(1) by simp
  show ?case
  proof (cases "e < amount")
    case True
    with Cons.prems(2) z have "tierLoop amount ts acc = Some r"
      by (simp add: tierLoop_step [OF e] del: tierLoop.simps)
    with r show ?thesis by (rule Cons.IH)
  next
    case False
    with Cons.prems(2) z b show ?thesis
      by (simp add: tierLoop_step [OF e] del: tierLoop.simps)
  qed
qed

lemma calculateTieredPayout_below:
  assumes "tiersStartAtOrAboveZero tiers" and "amount \<le> 0"
    and "calculateTieredPayout amount tiers = Some p"
  shows "p = 0"
proof -
  have "\<forall>t \<in> set (sort_key tier_from tiers). amount \<le> tier_from t"
    using assms(1,2) by (auto simp: tiersStartAtOrAboveZero_def list_all_iff)
  then show ?thesis using assms(3) unfolding calculateTieredPayout_def by (rule tierLoop_below)
qed

lemma payoutStep_nonpositive:
  assumes "tiersStartAtOrAboveZero (payoutTiers sch)" and "amt \<le> 0"
    and "payoutStep sch A qf amt = Some (p, pl)"
  shows "p = 0"
  using assms(3) calculateTieredPayout_below [OF assms(1,2)]
  by (auto simp: payoutStep_def Let_def split: if_splits option.splits)

lemma payoutStep_logs:
  "payoutStep sch A qf amt = Some (p, pl) \<Longrightarrow> \<not> list_ex isDisqualified pl"
  by (auto simp: payoutStep_def Let_def split: if_splits option.splits)

subsection \<open>Credit entries\<close>













section \<open>Claims about a whole run (C1, C2, C9, C10)\<close>

text \<open>
  Claim C10. If the scheme declares a quota strictly greater than 0, then in the
  result of a run every qualified agent whose total adjusted amount is strictly less
  than the quota
  receives the payout "0.00" with no tier calculation performed (a quota entry with
  \<open>matched = false\<close> is logged, and no payout-calculation entry), and every qualified
  agent whose total adjusted amount is greater than or equal to the quota has the
  payout tiers applied to the full total adjusted amount, not only to the excess above
  the quota: its payout is the result of \<^verbatim>\<open>calculateTieredPayout\<close> on the total.
\<close>

theorem quota_gate:
  assumes "runScheme hst sch files d = Inr fin" and "agentData fin A = Some info"
    and "agent_qualified info" and "0 < quotaAmount sch"
  shows "(totalAdjustedAmount info < quotaAmount sch \<longrightarrow>
            agentPayouts fin A = Some ''0.00'' \<and> payout info = 0
            \<and> Quota A False \<in> set (logs info) \<and> \<not> list_ex isPayoutCalculation (logs info))
       \<and> (quotaAmount sch \<le> totalAdjustedAmount info \<longrightarrow>
            calculateTieredPayout (totalAdjustedAmount info) (payoutTiers sch) = Some (payout info)
            \<and> agentPayouts fin A = Some (toFixed2 (payout info))
            \<and> Quota A True \<in> set (logs info)
            \<and> PayoutCalculation A (toFixed2 (totalAdjustedAmount info)) (toFixed2 (payout info))
                \<in> set (logs info))"
proof -
  from agent_summary [OF assms(1,2)] obtain rd ql pl where
    s: "list_all isQualEntry ql"
      "payoutStep sch A (agent_qualified info) (totalAdjustedAmount info) = Some (payout info, pl)"
      "logs info = ql @ pl"
      "agentPayouts fin A = Some (toFixed2 (payout info))"
    by blast
  have nq: "\<not> list_ex isPayoutCalculation ql"
    using s(1) qualEntry_kinds by (auto simp: list_all_iff list_ex_iff)
  show ?thesis
  proof (intro conjI impI)
    assume b: "totalAdjustedAmount info < quotaAmount sch"
    note p = payoutStep_below_quota [OF assms(4) b, of A]
    from s(2) p assms(3) show z: "payout info = 0" by simp
    from s(4) z show "agentPayouts fin A = Some ''0.00''" by (simp add: toFixed2_zero)
    from s(2) p assms(3) have pl: "pl = [Quota A False]" by simp
    from s(3) pl show "Quota A False \<in> set (logs info)" by simp
    from s(3) pl nq show "\<not> list_ex isPayoutCalculation (logs info)" by simp
  next
    assume m: "quotaAmount sch \<le> totalAdjustedAmount info"
    note p = payoutStep_meets_quota [OF assms(4) m, of A]
    from s(2) p assms(3)
    show v: "calculateTieredPayout (totalAdjustedAmount info) (payoutTiers sch) = Some (payout info)"
      by auto
    from s(4) show "agentPayouts fin A = Some (toFixed2 (payout info))" .
    from s(2,3) p assms(3) v show "Quota A True \<in> set (logs info)" by auto
    from s(2,3) p assms(3) v
    show "PayoutCalculation A (toFixed2 (totalAdjustedAmount info)) (toFixed2 (payout info))
        \<in> set (logs info)" by auto
  qed
qed

text \<open>
  Claim C2, as amended. For every agent in the result of a run whose total adjusted
  amount is less than or equal to 0, the returned payout is the string "0.00", provided
  that no payout tier starts below zero. The agent is marked not qualified exactly when one of
  its qualification rules failed: there is no zero-credit skip, the agent goes through
  the qualification rules, the quota gate and the tiers like any other agent.
\<close>

theorem nonpositive_total_pays_zero:
  assumes "runScheme hst sch files d = Inr fin" and "agentData fin A = Some info"
    and "totalAdjustedAmount info \<le> 0" and "tiersStartAtOrAboveZero (payoutTiers sch)"
  shows "agentPayouts fin A = Some ''0.00'' \<and> payout info = 0
       \<and> (agent_qualified info \<longleftrightarrow> \<not> list_ex isDisqualified (logs info))"
proof -
  from agent_summary [OF assms(1,2)] obtain rd ql pl where
    s: "agent_qualified info \<longleftrightarrow> \<not> list_ex isDisqualified ql"
      "payoutStep sch A (agent_qualified info) (totalAdjustedAmount info) = Some (payout info, pl)"
      "logs info = ql @ pl"
      "agentPayouts fin A = Some (toFixed2 (payout info))"
    by blast
  have z: "payout info = 0"
    using assms(4,3) s(2) by (rule payoutStep_nonpositive)
  have q: "agent_qualified info \<longleftrightarrow> \<not> list_ex isDisqualified (logs info)"
    using s(1,3) payoutStep_logs [OF s(2)] by simp
  from z q s(4) show ?thesis by (simp add: toFixed2_zero)
qed


text \<open>
  Claim C9, as amended. \<^verbatim>\<open>runScheme\<close> aborts the entire run, returning no result, by
  throwing an error that names the run date whenever the run date does not parse, and
  by throwing an error that names the base data file whenever that file is absent
  from the uploaded-file table (or empty). An \<open>effectiveFrom\<close> that does not parse is
  no error: with a run date that parses and the base data file present, the run throws
  neither of these errors, whatever \<open>effectiveFrom\<close> is.
\<close>

theorem runScheme_fatal_errors:
  "(parseDate hst d = None \<longrightarrow> runScheme hst sch files d = Inl (InvalidRunAsOfDate d))
   \<and> (parseDate hst d \<noteq> None \<and> baseFileMissing hst sch files
        \<longrightarrow> runScheme hst sch files d = Inl (BaseDataFileNotFound (sourceFile (baseMapping sch))))
   \<and> (parseDate hst d \<noteq> None \<and> \<not> baseFileMissing hst sch files
        \<longrightarrow> \<not> isInvalidRunAsOfDate (runScheme hst (sch\<lparr>effectiveFrom := e\<rparr>) files d)
            \<and> \<not> isBaseDataFileNotFound (runScheme hst (sch\<lparr>effectiveFrom := e\<rparr>) files d))"
proof (intro conjI impI)
  assume "parseDate hst d = None"
  then show "runScheme hst sch files d = Inl (InvalidRunAsOfDate d)"
    by (simp add: runScheme_def)
next
  assume "parseDate hst d \<noteq> None \<and> baseFileMissing hst sch files"
  then show "runScheme hst sch files d = Inl (BaseDataFileNotFound (sourceFile (baseMapping sch)))"
    by (auto simp: runScheme_def baseFileMissing_def Let_def)
next
  assume a: "parseDate hst d \<noteq> None \<and> \<not> baseFileMissing hst sch files"
  let ?s = "sch\<lparr>effectiveFrom := e\<rparr>"
  have r: "runScheme hst ?s files d = Inr fin \<or> runScheme hst ?s files d = Inl InvalidDecimalArgument
      \<or> runScheme hst ?s files d = Inl (TypeError k)" if "runScheme hst ?s files d = x"
      "x = Inr fin \<or> x = Inl InvalidDecimalArgument \<or> x = Inl (TypeError k)" for x fin k
    using that by auto
  have "(\<exists>fin. runScheme hst ?s files d = Inr fin) \<or> runScheme hst ?s files d = Inl InvalidDecimalArgument
      \<or> (\<exists>k. runScheme hst ?s files d = Inl (TypeError k))
      \<or> (\<exists>f. runScheme hst ?s files d = Inl (BaseDataParseFailure f))"
  proof (cases "files (sourceFile (baseMapping sch))")
    case None
    with a obtain rd where "parseDate hst d = Some rd" "sourceFile (baseMapping sch) \<noteq> []"
      "objectPrototypeHas hst (sourceFile (baseMapping sch))"
      by (auto simp: baseFileMissing_def)
    with None have "runScheme hst ?s files d = Inl (BaseDataParseFailure (sourceFile (baseMapping sch)))"
      by (simp add: runScheme_def Let_def)
    then show ?thesis by blast
  next
    case (Some body)
    with a obtain rd where rd: "parseDate hst d = Some rd"
      and b: "sourceFile (baseMapping sch) \<noteq> []" "files (sourceFile (baseMapping sch)) = Some body"
        "body \<noteq> []"
      by (auto simp: baseFileMissing_def)
    obtain fr fl where
      f: "filterRecords hst ?s (parseDate hst (effectiveFrom ?s)) rd (parseCSV body) = (fr, fl)"
      by (cases "filterRecords hst ?s (parseDate hst (effectiveFrom ?s)) rd (parseCSV body)") auto
    show ?thesis
    proof (cases "groupByAgent hst ?s 0 fr ([], fl)")
      case (Inl err)
      then obtain k where "err = TypeError k" using groupByAgent_errors by blast
      with Inl rd b f have "runScheme hst ?s files d = Inl (TypeError k)"
        by (simp add: runScheme_def Let_def)
      then show ?thesis by blast
    next
      case (Inr grouped)
      with rd b f have e: "runScheme hst ?s files d =
          agentLoop hst (loadHierarchy ?s files) rd (initialState ?s (snd grouped))
            (forInOrder (fst grouped))"
        by (simp add: runScheme_def Let_def)
      show ?thesis
      proof (cases "agentLoop hst (loadHierarchy ?s files) rd (initialState ?s (snd grouped))
            (forInOrder (fst grouped))")
        case (Inl err)
        then have "err = InvalidDecimalArgument" by (rule agentLoop_errors)
        with Inl e show ?thesis by simp
      next
        case (Inr fin)
        with e show ?thesis by simp
      qed
    qed
  qed
  then show "\<not> isInvalidRunAsOfDate (runScheme hst ?s files d)"
    and "\<not> isBaseDataFileNotFound (runScheme hst ?s files d)"
    by auto
qed

section \<open>Concrete runs, evaluated\<close>

lemmas csv_eval = parseCSV_def trim_def isSpace_def rowObject_def Let_def
lemmas date_eval = isoHost_def parseIsoDate_def isDigit_def digitsValue_def daysInMonth_def
  isLeapYear_def Let_def
lemmas group_eval = getProp_def setProp_def natToString_small natToString_large digitChar_def
  isArrayIndex_def forInOrder_def isDigit_def digitsValue_def isoHost_def prototypeNames_def Let_def
lemmas record_eval = processRecord_def applyRecordRules_def readBaseAmount_def recordStep_def
  recordLoop_def recordInternalId_def getProp_def setProp_def isoHost_def parseDecimal_def
  parseMantissa_def parseExponent_def isExpChar_def isDigit_def digitsValue_def dec_eval Let_def
lemmas payout_eval = payoutStep_def calculateTieredPayout_def amountInTier_def payoutForTier_def
  dec_eval toFixed2_def natToString_small natToString_large digitChar_def floor_rat_numeral Let_def
lemmas split_eval = splitLoop_def splitStep_def parseInt_def isSpace_def isDigit_def digitsValue_def
  findManager_def hierarchyRecordValid_def detailsOf_def getProp_def isoHost_def parseIsoDate_def
  daysInMonth_def isLeapYear_def dec_eval toFixed2_def natToString_small natToString_large
  digitChar_def floor_rat_numeral Let_def

lemma processAgent_stages:
  assumes "recordLoop hst sch A recs =
             \<lparr>loopLogs = rlogs, loopBase = ba, loopAdjusted = aa, loopRecords = procs\<rparr>"
    and "qualificationLoop hst sch A procs (qualificationFields (kpiConfig sch))
           (qualificationRules sch) [] =
         \<lparr>qualLogs = ql, qualifiedFlag = qf, rulesAfter = ra, fieldsAfter = fa\<rparr>"
    and "payoutStep sch A qf aa = Some (p, pl)"
  shows "processAgent hst h rd
           \<lparr>schemeNow = sch, agentPayouts = ap, ruleHitLogs = rh, creditDistributions = cds,
            rawRecordLevelData = raw, agentData = ad\<rparr> (A, recs) =
     Inr \<lparr>schemeNow = sch\<lparr>qualificationRules := ra,
                       kpiConfig := (kpiConfig sch)\<lparr>qualificationFields := fa\<rparr>\<rparr>,
      agentPayouts = ap(A \<mapsto> toFixed2 p),
      ruleHitLogs = (if ql @ pl \<noteq> [] then rh(A \<mapsto> ql @ pl) else rh),
      creditDistributions =
        (if qf \<and> 0 < p \<and> h \<noteq> [] \<and> creditSplits sch \<noteq> []
         then cds(A \<mapsto> splitLoop hst (creditHierarchyFile sch) h rd A p (creditSplits sch)
                          (case cds A of Some l \<Rightarrow> l | None \<Rightarrow> []))
         else cds),
      rawRecordLevelData = raw @ rlogs,
      agentData = ad(A \<mapsto>
        \<lparr>records = procs, logs = ql @ pl, totalBaseAmount = ba, totalAdjustedAmount = aa,
         agent_qualified = qf, payout = p\<rparr>)\<rparr>"
proof -
  define sch1 where "sch1 = sch\<lparr>qualificationRules := ra,
      kpiConfig := (kpiConfig sch)\<lparr>qualificationFields := fa\<rparr>\<rparr>"
  have s1: "staticPart sch1 = staticPart sch" by (simp add: sch1_def staticPart_def)
  have ps: "payoutStep sch1 A qf aa = Some (p, pl)"
    using payoutStep_static [OF s1] assms(3) by simp
  note sf = static_fields(1,2) [OF s1]
  show ?thesis
    by (simp only: processAgent_def Let_def fst_conv snd_conv runState.select_convs assms(1,2)
        loopState.select_convs qualResult.select_convs ps [unfolded sch1_def]
        sf [unfolded sch1_def] option.case)
qed

lemma processAgent_throws:
  assumes "recordLoop hst sch A recs =
             \<lparr>loopLogs = rlogs, loopBase = ba, loopAdjusted = aa, loopRecords = procs\<rparr>"
    and "qualificationLoop hst sch A procs (qualificationFields (kpiConfig sch))
           (qualificationRules sch) [] =
         \<lparr>qualLogs = ql, qualifiedFlag = qf, rulesAfter = ra, fieldsAfter = fa\<rparr>"
    and "payoutStep sch A qf aa = None"
  shows "processAgent hst h rd
           \<lparr>schemeNow = sch, agentPayouts = ap, ruleHitLogs = rh, creditDistributions = cds,
            rawRecordLevelData = raw, agentData = ad\<rparr> (A, recs) = Inl InvalidDecimalArgument"
proof -
  define sch1 where "sch1 = sch\<lparr>qualificationRules := ra,
      kpiConfig := (kpiConfig sch)\<lparr>qualificationFields := fa\<rparr>\<rparr>"
  have s1: "staticPart sch1 = staticPart sch" by (simp add: sch1_def staticPart_def)
  have ps: "payoutStep sch1 A qf aa = None"
    using payoutStep_static [OF s1] assms(3) by simp
  show ?thesis
    by (simp only: processAgent_def Let_def fst_conv snd_conv runState.select_convs assms(1,2)
        loopState.select_convs qualResult.select_convs ps [unfolded sch1_def] option.case)
qed

lemma date_0615: "parseDate isoHost (Str ''2024-06-15'') = Some 20240615"
  by (simp add: date_eval)

lemma toFixed2_300: "toFixed2 300 = ''300.00''"
  by (simp add: toFixed2_eval)

lemma toFixed2_100: "toFixed2 100 = ''100.00''"
  by (simp add: toFixed2_eval)

subsection \<open>The credit run, for any \<open>effectiveFrom\<close> that is the start of 2024 or does not parse\<close>

lemma credit_hierarchy:
  "loadHierarchy (creditScheme\<lparr>effectiveFrom := e\<rparr>) creditFiles = creditHierarchy"
  by (simp add: loadHierarchy_def creditScheme_def plainScheme_def creditFiles_def
      creditHierarchy_def csv_eval)

lemma credit_stages:
  assumes "parseDate isoHost e = None \<or> parseDate isoHost e = Some 20240101"
  shows "runScheme isoHost (creditScheme\<lparr>effectiveFrom := e\<rparr>) creditFiles (Str ''2024-06-15'') =
     agentLoop isoHost creditHierarchy 20240615
       (initialState (creditScheme\<lparr>effectiveFrom := e\<rparr>) [])
       [(''A'', [saleRecord ''rec_0'' ''A'' ''3000''])]"
proof -
  let ?sch = "creditScheme\<lparr>effectiveFrom := e\<rparr>"
  let ?base = "[[(''Date'', Str ''2024-06-01''), (''Amount'', Str ''3000''), (''Agent'', Str ''A'')]]"
  have "runScheme isoHost ?sch creditFiles (Str ''2024-06-15'') =
     agentLoop isoHost (loadHierarchy ?sch creditFiles) 20240615 (initialState ?sch [])
       [(''A'', [saleRecord ''rec_0'' ''A'' ''3000''])]"
  proof (rule runScheme_stages)
    show "parseDate isoHost (Str ''2024-06-15'') = Some 20240615" by (rule date_0615)
    show "sourceFile (baseMapping ?sch) \<noteq> []" by (simp add: creditScheme_def plainScheme_def)
    show "creditFiles (sourceFile (baseMapping ?sch)) = Some ''Agent,Amount,Date\<newline>A,3000,2024-06-01''"
      by (simp add: creditScheme_def plainScheme_def creditFiles_def)
    show "''Agent,Amount,Date\<newline>A,3000,2024-06-01'' \<noteq> []" by simp
    show "parseCSV ''Agent,Amount,Date\<newline>A,3000,2024-06-01'' = ?base"
      by (simp add: csv_eval)
    have d: "newDate isoHost ''2024-06-01'' = Some 20240601" by (simp add: date_eval)
    show "filterRecords isoHost ?sch (parseDate isoHost (effectiveFrom ?sch)) 20240615 ?base = (?base, [])"
      using assms by (auto simp: creditScheme_def plainScheme_def d getProp_def Let_def)
    show "groupByAgent isoHost ?sch 0 ?base ([], []) =
        Inr ([(''A'', [saleRecord ''rec_0'' ''A'' ''3000''])], [])"
      by (simp add: creditScheme_def plainScheme_def group_eval saleRecord_def)
    show "forInOrder [(''A'', [saleRecord ''rec_0'' ''A'' ''3000''])] = [(''A'', [saleRecord ''rec_0'' ''A'' ''3000''])]"
      by (simp add: group_eval)
  qed
  then show ?thesis by (simp add: credit_hierarchy)
qed

lemma credit_records:
  "recordLoop isoHost (creditScheme\<lparr>effectiveFrom := e\<rparr>) ''A'' [saleRecord ''rec_0'' ''A'' ''3000''] =
   \<lparr>loopLogs = [], loopBase = 3000, loopAdjusted = 3000,
    loopRecords = [processedRecord ''rec_0'' ''A'' ''3000'' 3000]\<rparr>"
  by (simp add: creditScheme_def plainScheme_def saleRecord_def processedRecord_def record_eval)

lemma credit_payout:
  "payoutStep (creditScheme\<lparr>effectiveFrom := e\<rparr>) ''A'' True 3000 =
     Some (300, [PayoutCalculation ''A'' ''3000.00'' ''300.00''])"
  by (simp add: creditScheme_def plainScheme_def payout_eval)


lemma credit_split:
  "splitLoop isoHost ''MH.csv'' creditHierarchy 20240615 ''A'' 300
     [\<lparr>split_role = ''L2'', split_percentage = 20\<rparr>] [] =
   [Distribution ''A'' (Str ''M'') ''L2'' 20 ''60.00'' ''MH.csv'' (Some managerM)]"
  by (simp add: creditHierarchy_def managerM_def split_eval)

lemma credit_qualification:
  "qualificationLoop isoHost (creditScheme\<lparr>effectiveFrom := e\<rparr>) ''A''
     [processedRecord ''rec_0'' ''A'' ''3000'' 3000]
     (qualificationFields (kpiConfig (creditScheme\<lparr>effectiveFrom := e\<rparr>)))
     (qualificationRules (creditScheme\<lparr>effectiveFrom := e\<rparr>)) [] =
   \<lparr>qualLogs = [], qualifiedFlag = True, rulesAfter = [], fieldsAfter = []\<rparr>"
  by (simp add: creditScheme_def plainScheme_def)

lemma credit_agent:
  "processAgent isoHost creditHierarchy 20240615
     (initialState (creditScheme\<lparr>effectiveFrom := e\<rparr>) [])
     (''A'', [saleRecord ''rec_0'' ''A'' ''3000'']) = Inr (creditFinal e)"
proof -
  let ?sch = "creditScheme\<lparr>effectiveFrom := e\<rparr>"
  have sch: "?sch\<lparr>qualificationRules := [],
      kpiConfig := (kpiConfig ?sch)\<lparr>qualificationFields := []\<rparr>\<rparr> = ?sch"
    by (simp add: creditScheme_def plainScheme_def)
  have q: "creditSplits ?sch = [\<lparr>split_role = ''L2'', split_percentage = 20\<rparr>]"
    "creditHierarchyFile ?sch = ''MH.csv''"
    by (simp_all add: creditScheme_def plainScheme_def)
  have h: "creditHierarchy \<noteq> []" by (simp add: creditHierarchy_def)
  note st = processAgent_stages [OF credit_records credit_qualification credit_payout,
      where h = creditHierarchy and rd = 20240615 and ap = Map.empty and rh = Map.empty
        and cds = Map.empty and raw = "[]" and ad = Map.empty]
  show ?thesis
    unfolding initialState_def creditFinal_def creditInfo_def
    by (simp only: st sch) (simp add: q h credit_split toFixed2_300)
qed

lemma credit_final:
  assumes "parseDate isoHost e = None \<or> parseDate isoHost e = Some 20240101"
  shows "runScheme isoHost (creditScheme\<lparr>effectiveFrom := e\<rparr>) creditFiles (Str ''2024-06-15'') =
     Inr (creditFinal e)"
  using credit_stages [OF assms] by (simp add: credit_agent)


lemma lateFrom_unparseable: "parseDate isoHost (effectiveFrom lateFromScheme) = None"
  by (simp add: lateFromScheme_def date_eval)

lemma lateFrom_run:
  "runScheme isoHost lateFromScheme creditFiles (Str ''2024-06-15'') =
     Inr (creditFinal (Str ''not-a-date''))"
proof -
  have "parseDate isoHost (Str ''not-a-date'') = None
      \<or> parseDate isoHost (Str ''not-a-date'') = Some 20240101"
    by (simp add: date_eval)
  from credit_final [OF this] show ?thesis by (simp only: lateFromScheme_def)
qed

subsection \<open>The zero-amount run\<close>

lemma zero_stages:
  "runScheme isoHost plainScheme zeroFiles (Str ''2024-06-15'') =
     agentLoop isoHost [] 20240615 (initialState plainScheme [])
       [(''A'', [saleRecord ''rec_0'' ''A'' ''0''])]"
proof -
  let ?base = "[[(''Date'', Str ''2024-06-01''), (''Amount'', Str ''0''), (''Agent'', Str ''A'')]]"
  have h: "loadHierarchy plainScheme zeroFiles = []"
    by (simp add: loadHierarchy_def plainScheme_def)
  have "runScheme isoHost plainScheme zeroFiles (Str ''2024-06-15'') =
     agentLoop isoHost (loadHierarchy plainScheme zeroFiles) 20240615
       (initialState plainScheme []) [(''A'', [saleRecord ''rec_0'' ''A'' ''0''])]"
  proof (rule runScheme_stages)
    show "parseDate isoHost (Str ''2024-06-15'') = Some 20240615" by (rule date_0615)
    show "sourceFile (baseMapping plainScheme) \<noteq> []" by (simp add: plainScheme_def)
    show "zeroFiles (sourceFile (baseMapping plainScheme)) = Some ''Agent,Amount,Date\<newline>A,0,2024-06-01''"
      by (simp add: plainScheme_def zeroFiles_def)
    show "''Agent,Amount,Date\<newline>A,0,2024-06-01'' \<noteq> []" by simp
    show "parseCSV ''Agent,Amount,Date\<newline>A,0,2024-06-01'' = ?base"
      by (simp add: csv_eval)
    show "filterRecords isoHost plainScheme (parseDate isoHost (effectiveFrom plainScheme)) 20240615 ?base = (?base, [])"
      by (simp add: plainScheme_def date_eval getProp_def)
    show "groupByAgent isoHost plainScheme 0 ?base ([], []) =
        Inr ([(''A'', [saleRecord ''rec_0'' ''A'' ''0''])], [])"
      by (simp add: plainScheme_def group_eval saleRecord_def)
    show "forInOrder [(''A'', [saleRecord ''rec_0'' ''A'' ''0''])] = [(''A'', [saleRecord ''rec_0'' ''A'' ''0''])]"
      by (simp add: group_eval)
  qed
  then show ?thesis by (simp add: h)
qed

lemma zero_records:
  "recordLoop isoHost plainScheme ''A'' [saleRecord ''rec_0'' ''A'' ''0''] =
   \<lparr>loopLogs = [], loopBase = 0, loopAdjusted = 0,
    loopRecords = [processedRecord ''rec_0'' ''A'' ''0'' 0]\<rparr>"
  by (simp add: plainScheme_def saleRecord_def processedRecord_def record_eval)

lemma zero_qualification:
  "qualificationLoop isoHost plainScheme ''A'' [processedRecord ''rec_0'' ''A'' ''0'' 0]
     (qualificationFields (kpiConfig plainScheme)) (qualificationRules plainScheme) [] =
   \<lparr>qualLogs = [], qualifiedFlag = True, rulesAfter = [], fieldsAfter = []\<rparr>"
  by (simp add: plainScheme_def)

lemma zero_payout:
  "payoutStep plainScheme ''A'' True 0 = Some (0, [PayoutCalculation ''A'' ''0.00'' ''0.00''])"
  by (simp add: plainScheme_def payout_eval)

lemma plainScheme_unchanged:
  "plainScheme\<lparr>qualificationRules := [],
      kpiConfig := (kpiConfig plainScheme)\<lparr>qualificationFields := []\<rparr>\<rparr> = plainScheme"
  by (simp add: plainScheme_def)

lemma zero_run:
  "runScheme isoHost plainScheme zeroFiles (Str ''2024-06-15'') = Inr zeroFinal"
proof -
  note st = processAgent_stages [OF zero_records zero_qualification zero_payout,
      where h = "[]" and rd = 20240615 and ap = Map.empty and rh = Map.empty
        and cds = Map.empty and raw = "[]" and ad = Map.empty]
  show ?thesis
    unfolding zero_stages initialState_def zeroFinal_def zeroInfo_def
    by (simp only: agentLoop.simps st plainScheme_unchanged sum.case) (simp add: toFixed2_zero)
qed

subsection \<open>The quota run\<close>

lemma quota_stages:
  "runScheme isoHost quotaScheme quotaFiles (Str ''2024-06-15'') =
     agentLoop isoHost [] 20240615 (initialState quotaScheme [])
       [(''A'', [saleRecord ''rec_0'' ''A'' ''1500'']),
        (''B'', [saleRecord ''rec_1'' ''B'' ''3000''])]"
proof -
  let ?base = "[[(''Date'', Str ''2024-06-01''), (''Amount'', Str ''1500''), (''Agent'', Str ''A'')],
                [(''Date'', Str ''2024-06-01''), (''Amount'', Str ''3000''), (''Agent'', Str ''B'')]]"
  let ?ags = "[(''A'', [saleRecord ''rec_0'' ''A'' ''1500'']),
               (''B'', [saleRecord ''rec_1'' ''B'' ''3000''])]"
  have h: "loadHierarchy quotaScheme quotaFiles = []"
    by (simp add: loadHierarchy_def quotaScheme_def plainScheme_def)
  have "runScheme isoHost quotaScheme quotaFiles (Str ''2024-06-15'') =
     agentLoop isoHost (loadHierarchy quotaScheme quotaFiles) 20240615
       (initialState quotaScheme []) ?ags"
  proof (rule runScheme_stages)
    show "parseDate isoHost (Str ''2024-06-15'') = Some 20240615" by (rule date_0615)
    show "sourceFile (baseMapping quotaScheme) \<noteq> []" by (simp add: quotaScheme_def plainScheme_def)
    show "quotaFiles (sourceFile (baseMapping quotaScheme)) =
        Some ''Agent,Amount,Date\<newline>A,1500,2024-06-01\<newline>B,3000,2024-06-01''"
      by (simp add: quotaScheme_def plainScheme_def quotaFiles_def)
    show "''Agent,Amount,Date\<newline>A,1500,2024-06-01\<newline>B,3000,2024-06-01'' \<noteq> []" by simp
    show "parseCSV ''Agent,Amount,Date\<newline>A,1500,2024-06-01\<newline>B,3000,2024-06-01'' = ?base"
      by (simp add: csv_eval)
    show "filterRecords isoHost quotaScheme (parseDate isoHost (effectiveFrom quotaScheme)) 20240615 ?base = (?base, [])"
      by (simp add: quotaScheme_def plainScheme_def date_eval getProp_def)
    show "groupByAgent isoHost quotaScheme 0 ?base ([], []) = Inr (?ags, [])"
      by (simp add: quotaScheme_def plainScheme_def group_eval saleRecord_def)
    show "forInOrder ?ags = ?ags"
      by (simp add: group_eval)
  qed
  then show ?thesis by (simp add: h)
qed

lemma quota_records_A:
  "recordLoop isoHost quotaScheme ''A'' [saleRecord ''rec_0'' ''A'' ''1500''] =
   \<lparr>loopLogs = [], loopBase = 1500, loopAdjusted = 1500,
    loopRecords = [processedRecord ''rec_0'' ''A'' ''1500'' 1500]\<rparr>"
  by (simp add: quotaScheme_def plainScheme_def saleRecord_def processedRecord_def record_eval)

lemma quota_records_B:
  "recordLoop isoHost quotaScheme ''B'' [saleRecord ''rec_1'' ''B'' ''3000''] =
   \<lparr>loopLogs = [], loopBase = 3000, loopAdjusted = 3000,
    loopRecords = [processedRecord ''rec_1'' ''B'' ''3000'' 3000]\<rparr>"
  by (simp add: quotaScheme_def plainScheme_def saleRecord_def processedRecord_def record_eval)

lemma quota_qualification:
  "qualificationLoop isoHost quotaScheme agent recs
     (qualificationFields (kpiConfig quotaScheme)) (qualificationRules quotaScheme) [] =
   \<lparr>qualLogs = [], qualifiedFlag = True, rulesAfter = [], fieldsAfter = []\<rparr>"
  by (simp add: quotaScheme_def plainScheme_def)

lemma quota_payout_A:
  "payoutStep quotaScheme ''A'' True 1500 = Some (0, [Quota ''A'' False])"
  by (simp add: quotaScheme_def plainScheme_def payout_eval)

lemma quota_payout_B:
  "payoutStep quotaScheme ''B'' True 3000 =
     Some (300, [Quota ''B'' True, PayoutCalculation ''B'' ''3000.00'' ''300.00''])"
  by (simp add: quotaScheme_def plainScheme_def payout_eval)

lemma quotaScheme_unchanged:
  "quotaScheme\<lparr>qualificationRules := [],
      kpiConfig := (kpiConfig quotaScheme)\<lparr>qualificationFields := []\<rparr>\<rparr> = quotaScheme"
  by (simp add: quotaScheme_def plainScheme_def)

lemma quota_run:
  "runScheme isoHost quotaScheme quotaFiles (Str ''2024-06-15'') = Inr quotaFinal"
proof -
  note stA = processAgent_stages [OF quota_records_A quota_qualification quota_payout_A,
      where h = "[]" and rd = 20240615]
  note stB = processAgent_stages [OF quota_records_B quota_qualification quota_payout_B,
      where h = "[]" and rd = 20240615]
  show ?thesis
    unfolding quota_stages initialState_def quotaFinal_def
    by (simp only: agentLoop.simps stA stB quotaScheme_unchanged sum.case)
       (simp add: toFixed2_zero toFixed2_300 quotaInfoA_def quotaInfoB_def)
qed

subsection \<open>The runs with a qualification rule that is evaluated per record\<close>

lemmas qual_defs = qualScheme_def plainScheme_def deliveredRule_def statusField_def
  qualSchemeAfterFirstAgent_def

lemma two_agent_stages:
  "runScheme isoHost qualScheme twoAgentFiles (Str ''2024-06-15'') =
     agentLoop isoHost [] 20240615 (initialState qualScheme [])
       [(''A'', [deliveredSale ''rec_0'' ''A'']), (''B'', [deliveredSale ''rec_1'' ''B''])]"
proof -
  let ?base = "[[(''Status'', Str ''Delivered''), (''Date'', Str ''2024-06-01''),
                 (''Amount'', Str ''1000''), (''Agent'', Str ''A'')],
                [(''Status'', Str ''Delivered''), (''Date'', Str ''2024-06-01''),
                 (''Amount'', Str ''1000''), (''Agent'', Str ''B'')]]"
  let ?ags = "[(''A'', [deliveredSale ''rec_0'' ''A'']), (''B'', [deliveredSale ''rec_1'' ''B''])]"
  have h: "loadHierarchy qualScheme twoAgentFiles = []"
    by (simp add: loadHierarchy_def qual_defs)
  have "runScheme isoHost qualScheme twoAgentFiles (Str ''2024-06-15'') =
     agentLoop isoHost (loadHierarchy qualScheme twoAgentFiles) 20240615
       (initialState qualScheme []) ?ags"
  proof (rule runScheme_stages)
    show "parseDate isoHost (Str ''2024-06-15'') = Some 20240615" by (rule date_0615)
    show "sourceFile (baseMapping qualScheme) \<noteq> []" by (simp add: qual_defs)
    show "twoAgentFiles (sourceFile (baseMapping qualScheme)) =
        Some ''Agent,Amount,Date,Status\<newline>A,1000,2024-06-01,Delivered\<newline>B,1000,2024-06-01,Delivered''"
      by (simp add: qual_defs twoAgentFiles_def)
    show "''Agent,Amount,Date,Status\<newline>A,1000,2024-06-01,Delivered\<newline>B,1000,2024-06-01,Delivered'' \<noteq> []"
      by simp
    show "parseCSV ''Agent,Amount,Date,Status\<newline>A,1000,2024-06-01,Delivered\<newline>B,1000,2024-06-01,Delivered'' = ?base"
      by (simp add: csv_eval)
    show "filterRecords isoHost qualScheme (parseDate isoHost (effectiveFrom qualScheme)) 20240615 ?base = (?base, [])"
      by (simp add: qual_defs date_eval getProp_def)
    show "groupByAgent isoHost qualScheme 0 ?base ([], []) = Inr (?ags, [])"
      by (simp add: qual_defs group_eval deliveredSale_def)
    show "forInOrder ?ags = ?ags"
      by (simp add: group_eval)
  qed
  then show ?thesis by (simp add: h)
qed

lemma one_agent_stages:
  "runScheme isoHost qualScheme oneAgentFiles (Str ''2024-06-15'') =
     agentLoop isoHost [] 20240615 (initialState qualScheme [])
       [(''B'', [deliveredSale ''rec_0'' ''B''])]"
proof -
  let ?base = "[[(''Status'', Str ''Delivered''), (''Date'', Str ''2024-06-01''),
                 (''Amount'', Str ''1000''), (''Agent'', Str ''B'')]]"
  let ?ags = "[(''B'', [deliveredSale ''rec_0'' ''B''])]"
  have h: "loadHierarchy qualScheme oneAgentFiles = []"
    by (simp add: loadHierarchy_def qual_defs)
  have "runScheme isoHost qualScheme oneAgentFiles (Str ''2024-06-15'') =
     agentLoop isoHost (loadHierarchy qualScheme oneAgentFiles) 20240615
       (initialState qualScheme []) ?ags"
  proof (rule runScheme_stages)
    show "parseDate isoHost (Str ''2024-06-15'') = Some 20240615" by (rule date_0615)
    show "sourceFile (baseMapping qualScheme) \<noteq> []" by (simp add: qual_defs)
    show "oneAgentFiles (sourceFile (baseMapping qualScheme)) =
        Some ''Agent,Amount,Date,Status\<newline>B,1000,2024-06-01,Delivered''"
      by (simp add: qual_defs oneAgentFiles_def)
    show "''Agent,Amount,Date,Status\<newline>B,1000,2024-06-01,Delivered'' \<noteq> []"
      by simp
    show "parseCSV ''Agent,Amount,Date,Status\<newline>B,1000,2024-06-01,Delivered'' = ?base"
      by (simp add: csv_eval)
    show "filterRecords isoHost qualScheme (parseDate isoHost (effectiveFrom qualScheme)) 20240615 ?base = (?base, [])"
      by (simp add: qual_defs date_eval getProp_def)
    show "groupByAgent isoHost qualScheme 0 ?base ([], []) = Inr (?ags, [])"
      by (simp add: qual_defs group_eval deliveredSale_def)
    show "forInOrder ?ags = ?ags"
      by (simp add: group_eval)
  qed
  then show ?thesis by (simp add: h)
qed

lemma delivered_records:
  "recordLoop isoHost qualScheme agent [deliveredSale recordId agent] =
   \<lparr>loopLogs = [], loopBase = 1000, loopAdjusted = 1000,
    loopRecords = [deliveredProcessed recordId agent]\<rparr>"
  by (simp add: qual_defs deliveredSale_def deliveredProcessed_def record_eval)

lemma delivered_records_after:
  "recordLoop isoHost qualSchemeAfterFirstAgent agent [deliveredSale recordId agent] =
   \<lparr>loopLogs = [], loopBase = 1000, loopAdjusted = 1000,
    loopRecords = [deliveredProcessed recordId agent]\<rparr>"
  by (simp add: qual_defs deliveredSale_def deliveredProcessed_def record_eval)

lemma first_qualification:
  "qualificationLoop isoHost qualScheme agent [deliveredProcessed recordId agent]
     (qualificationFields (kpiConfig qualScheme)) (qualificationRules qualScheme) [] =
   \<lparr>qualLogs = [Qualification ''Q1'' agent True (Bool True)], qualifiedFlag = True,
    rulesAfter = [deliveredRule\<lparr>rule_operator := ''='', rule_value := Bool True\<rparr>],
    fieldsAfter = [statusField\<lparr>kf_dataType := ''Boolean''\<rparr>]\<rparr>"
  by (simp add: qual_defs deliveredProcessed_def deliveredSale_def findField_def evaluateRule_def
      getProp_def Let_def)

lemma second_qualification:
  "qualificationLoop isoHost qualSchemeAfterFirstAgent agent [deliveredProcessed recordId agent]
     (qualificationFields (kpiConfig qualSchemeAfterFirstAgent))
     (qualificationRules qualSchemeAfterFirstAgent) [] =
   \<lparr>qualLogs = [Qualification ''Q1'' agent False (Bool False), Disqualified agent ''Q1''],
    qualifiedFlag = False,
    rulesAfter = [deliveredRule\<lparr>rule_operator := ''='', rule_value := Bool True\<rparr>],
    fieldsAfter = [statusField\<lparr>kf_dataType := ''Boolean''\<rparr>]\<rparr>"
  by (simp add: qual_defs deliveredProcessed_def deliveredSale_def findField_def evaluateRule_def
      getProp_def Let_def)

lemma qualified_payout:
  "payoutStep qualScheme agent True 1000 =
     Some (100, [PayoutCalculation agent ''1000.00'' ''100.00''])"
  by (simp add: qual_defs payout_eval)

lemma disqualified_payout:
  "payoutStep qualSchemeAfterFirstAgent agent False 1000 = Some (0, [])"
  by (simp add: payoutStep_def)

lemma qualScheme_after:
  "qualScheme\<lparr>qualificationRules := [deliveredRule\<lparr>rule_operator := ''='', rule_value := Bool True\<rparr>],
      kpiConfig := (kpiConfig qualScheme)\<lparr>qualificationFields :=
        [statusField\<lparr>kf_dataType := ''Boolean''\<rparr>]\<rparr>\<rparr> = qualSchemeAfterFirstAgent"
  "qualSchemeAfterFirstAgent\<lparr>qualificationRules :=
        [deliveredRule\<lparr>rule_operator := ''='', rule_value := Bool True\<rparr>],
      kpiConfig := (kpiConfig qualSchemeAfterFirstAgent)\<lparr>qualificationFields :=
        [statusField\<lparr>kf_dataType := ''Boolean''\<rparr>]\<rparr>\<rparr> = qualSchemeAfterFirstAgent"
  by (simp_all add: qualSchemeAfterFirstAgent_def)

lemma two_agent_run:
  "runScheme isoHost qualScheme twoAgentFiles (Str ''2024-06-15'') = Inr twoAgentFinal"
proof -
  note stA = processAgent_stages [OF delivered_records first_qualification qualified_payout,
      where h = "[]" and rd = 20240615]
  note stB = processAgent_stages [OF delivered_records_after second_qualification
      disqualified_payout, where h = "[]" and rd = 20240615]
  show ?thesis
    unfolding two_agent_stages initialState_def twoAgentFinal_def
    by (simp only: agentLoop.simps stA stB qualScheme_after sum.case)
       (simp add: toFixed2_zero toFixed2_100)
qed

lemma one_agent_run:
  "runScheme isoHost qualScheme oneAgentFiles (Str ''2024-06-15'') = Inr oneAgentFinal"
proof -
  note stB = processAgent_stages [OF delivered_records first_qualification qualified_payout,
      where h = "[]" and rd = 20240615]
  show ?thesis
    unfolding one_agent_stages initialState_def oneAgentFinal_def
    by (simp only: agentLoop.simps stB qualScheme_after sum.case)
       (simp add: toFixed2_100)
qed


subsection \<open>The run with the tier table of the specification's scenario\<close>

lemma unbounded_stages:
  "runScheme isoHost unboundedScheme unboundedFiles (Str ''2024-06-15'') =
     agentLoop isoHost [] 20240615 (initialState unboundedScheme [])
       [(''A'', [saleRecord ''rec_0'' ''A'' ''1500''])]"
proof -
  let ?base = "[[(''Date'', Str ''2024-06-01''), (''Amount'', Str ''1500''), (''Agent'', Str ''A'')]]"
  have h: "loadHierarchy unboundedScheme unboundedFiles = []"
    by (simp add: loadHierarchy_def unboundedScheme_def plainScheme_def)
  have "runScheme isoHost unboundedScheme unboundedFiles (Str ''2024-06-15'') =
     agentLoop isoHost (loadHierarchy unboundedScheme unboundedFiles) 20240615
       (initialState unboundedScheme []) [(''A'', [saleRecord ''rec_0'' ''A'' ''1500''])]"
  proof (rule runScheme_stages)
    show "parseDate isoHost (Str ''2024-06-15'') = Some 20240615" by (rule date_0615)
    show "sourceFile (baseMapping unboundedScheme) \<noteq> []"
      by (simp add: unboundedScheme_def plainScheme_def)
    show "unboundedFiles (sourceFile (baseMapping unboundedScheme)) =
        Some ''Agent,Amount,Date\<newline>A,1500,2024-06-01''"
      by (simp add: unboundedScheme_def plainScheme_def unboundedFiles_def)
    show "''Agent,Amount,Date\<newline>A,1500,2024-06-01'' \<noteq> []" by simp
    show "parseCSV ''Agent,Amount,Date\<newline>A,1500,2024-06-01'' = ?base"
      by (simp add: csv_eval)
    show "filterRecords isoHost unboundedScheme (parseDate isoHost (effectiveFrom unboundedScheme))
        20240615 ?base = (?base, [])"
      by (simp add: unboundedScheme_def plainScheme_def date_eval getProp_def)
    show "groupByAgent isoHost unboundedScheme 0 ?base ([], []) =
        Inr ([(''A'', [saleRecord ''rec_0'' ''A'' ''1500''])], [])"
      by (simp add: unboundedScheme_def plainScheme_def group_eval saleRecord_def)
    show "forInOrder [(''A'', [saleRecord ''rec_0'' ''A'' ''1500''])] =
        [(''A'', [saleRecord ''rec_0'' ''A'' ''1500''])]"
      by (simp add: group_eval)
  qed
  then show ?thesis by (simp add: h)
qed

lemma unbounded_records:
  "recordLoop isoHost unboundedScheme ''A'' [saleRecord ''rec_0'' ''A'' ''1500''] =
   \<lparr>loopLogs = [], loopBase = 1500, loopAdjusted = 1500,
    loopRecords = [processedRecord ''rec_0'' ''A'' ''1500'' 1500]\<rparr>"
  by (simp add: unboundedScheme_def plainScheme_def saleRecord_def processedRecord_def record_eval)

lemma unbounded_qualification:
  "qualificationLoop isoHost unboundedScheme agent recs
     (qualificationFields (kpiConfig unboundedScheme)) (qualificationRules unboundedScheme) [] =
   \<lparr>qualLogs = [], qualifiedFlag = True, rulesAfter = [], fieldsAfter = []\<rparr>"
  by (simp add: unboundedScheme_def plainScheme_def)

lemma unbounded_payout: "payoutStep unboundedScheme ''A'' True 1500 = None"
  by (simp add: unboundedScheme_def plainScheme_def exampleTiers_def payout_eval)

text \<open>
  The end-to-end scenario of the specification, two tiers 0 to 1000 at 5 percent and
  1000 upwards at 10 percent and an agent total of 1500: the run ends with the
  \<^verbatim>\<open>DecimalError\<close> of the tier without \<open>to\<close> and returns nothing.
\<close>

lemma unbounded_tier_aborts_run:
  "runScheme isoHost unboundedScheme unboundedFiles (Str ''2024-06-15'') =
     Inl InvalidDecimalArgument"
proof -
  note st = processAgent_throws [OF unbounded_records unbounded_qualification unbounded_payout,
      where h = "[]" and rd = 20240615 and ap = Map.empty and rh = Map.empty
        and cds = Map.empty and raw = "[]" and ad = Map.empty]
  show ?thesis
    unfolding unbounded_stages initialState_def
    by (simp only: agentLoop.simps st sum.case)
qed

text \<open>A tier that starts below zero pays on a negative total.\<close>

lemma negative_tier_pays_on_negative_total:
  "calculateTieredPayout (- 500)
     [\<lparr>tier_id = ''T0'', tier_from = - 1000, tier_to = Some 0, tier_rate = 10,
       tier_isPercentage = True\<rparr>] = Some 50"
  by (simp add: tier_eval)

section \<open>The claims on concrete runs\<close>

theorem quota_gate_witness:
  "runScheme isoHost quotaScheme quotaFiles (Str ''2024-06-15'') = Inr quotaFinal
   \<and> agentData quotaFinal ''A'' = Some quotaInfoA \<and> agent_qualified quotaInfoA
   \<and> agentData quotaFinal ''B'' = Some quotaInfoB \<and> agent_qualified quotaInfoB
   \<and> 0 < quotaAmount quotaScheme
   \<and> totalAdjustedAmount quotaInfoA < quotaAmount quotaScheme
   \<and> agentPayouts quotaFinal ''A'' = Some ''0.00''
   \<and> Quota ''A'' False \<in> set (logs quotaInfoA)
   \<and> \<not> list_ex isPayoutCalculation (logs quotaInfoA)
   \<and> quotaAmount quotaScheme \<le> totalAdjustedAmount quotaInfoB
   \<and> calculateTieredPayout (totalAdjustedAmount quotaInfoB) (payoutTiers quotaScheme)
       = Some (payout quotaInfoB)
   \<and> payout quotaInfoB = 300
   \<and> agentPayouts quotaFinal ''B'' = Some ''300.00''"
proof -
  have a: "agentData quotaFinal ''A'' = Some quotaInfoA" by (simp add: quotaFinal_def)
  have b: "agentData quotaFinal ''B'' = Some quotaInfoB" by (simp add: quotaFinal_def)
  have qa: "agent_qualified quotaInfoA" by (simp add: quotaInfoA_def)
  have qb: "agent_qualified quotaInfoB" by (simp add: quotaInfoB_def)
  have q: "0 < quotaAmount quotaScheme" by (simp add: quotaScheme_def plainScheme_def)
  have la: "totalAdjustedAmount quotaInfoA < quotaAmount quotaScheme"
    by (simp add: quotaInfoA_def quotaScheme_def plainScheme_def)
  have lb: "quotaAmount quotaScheme \<le> totalAdjustedAmount quotaInfoB"
    by (simp add: quotaInfoB_def quotaScheme_def plainScheme_def)
  have pb: "payout quotaInfoB = 300" by (simp add: quotaInfoB_def)
  note ta = quota_gate [OF quota_run a qa q]
  note tb = quota_gate [OF quota_run b qb q]
  from ta la have ra: "agentPayouts quotaFinal ''A'' = Some ''0.00''"
    "Quota ''A'' False \<in> set (logs quotaInfoA)"
    "\<not> list_ex isPayoutCalculation (logs quotaInfoA)" by blast+
  from tb lb have rb: "calculateTieredPayout (totalAdjustedAmount quotaInfoB)
      (payoutTiers quotaScheme) = Some (payout quotaInfoB)"
    "agentPayouts quotaFinal ''B'' = Some (toFixed2 (payout quotaInfoB))" by blast+
  from rb(2) pb have "agentPayouts quotaFinal ''B'' = Some ''300.00''"
    by (simp add: toFixed2_300)
  with quota_run a b qa qb q la lb pb ra rb(1) show ?thesis by blast
qed

theorem nonpositive_total_pays_zero_witness:
  "runScheme isoHost plainScheme zeroFiles (Str ''2024-06-15'') = Inr zeroFinal
   \<and> agentData zeroFinal ''A'' = Some zeroInfo
   \<and> totalAdjustedAmount zeroInfo \<le> 0
   \<and> tiersStartAtOrAboveZero (payoutTiers plainScheme)
   \<and> agentPayouts zeroFinal ''A'' = Some ''0.00'' \<and> payout zeroInfo = 0
   \<and> agent_qualified zeroInfo \<and> \<not> list_ex isDisqualified (logs zeroInfo)"
proof -
  have a: "agentData zeroFinal ''A'' = Some zeroInfo" by (simp add: zeroFinal_def)
  have t: "totalAdjustedAmount zeroInfo \<le> 0" by (simp add: zeroInfo_def)
  have s: "tiersStartAtOrAboveZero (payoutTiers plainScheme)"
    by (simp add: tiersStartAtOrAboveZero_def plainScheme_def)
  have q: "agent_qualified zeroInfo" by (simp add: zeroInfo_def)
  note r = nonpositive_total_pays_zero [OF zero_run a t s]
  from r q have "\<not> list_ex isDisqualified (logs zeroInfo)" by blast
  with zero_run a t s r q show ?thesis by blast
qed

text \<open>
  Claim C2 as stated fails: an agent whose only sale has the amount 0 has the total
  adjusted amount 0 and stays qualified; its log holds the payout calculation and no
  entry of a zero-credit skip.
\<close>

theorem zero_total_stays_qualified_counterexample:
  "runScheme isoHost plainScheme zeroFiles (Str ''2024-06-15'') = Inr zeroFinal
   \<and> agentData zeroFinal ''A'' = Some zeroInfo
   \<and> totalAdjustedAmount zeroInfo = 0
   \<and> agent_qualified zeroInfo
   \<and> logs zeroInfo = [PayoutCalculation ''A'' ''0.00'' ''0.00'']
   \<and> ruleHitLogs zeroFinal ''A'' = Some [PayoutCalculation ''A'' ''0.00'' ''0.00'']"
  using zero_run by (simp add: zeroFinal_def zeroInfo_def)



theorem runScheme_fatal_errors_witness:
  "parseDate isoHost (Str ''garbage'') = None
   \<and> runScheme isoHost plainScheme zeroFiles (Str ''garbage'') =
       Inl (InvalidRunAsOfDate (Str ''garbage''))
   \<and> parseDate isoHost (Str ''2024-06-15'') \<noteq> None
   \<and> baseFileMissing isoHost plainScheme Map.empty
   \<and> runScheme isoHost plainScheme Map.empty (Str ''2024-06-15'') =
       Inl (BaseDataFileNotFound ''SCH1.csv'')
   \<and> \<not> baseFileMissing isoHost creditScheme creditFiles
   \<and> \<not> isInvalidRunAsOfDate (runScheme isoHost lateFromScheme creditFiles (Str ''2024-06-15''))
   \<and> \<not> isBaseDataFileNotFound (runScheme isoHost lateFromScheme creditFiles (Str ''2024-06-15''))"
proof -
  have g: "parseDate isoHost (Str ''garbage'') = None" by (simp add: date_eval)
  have d: "parseDate isoHost (Str ''2024-06-15'') \<noteq> None" unfolding date_0615 by simp
  have m: "baseFileMissing isoHost plainScheme Map.empty"
    by (simp add: baseFileMissing_def plainScheme_def isoHost_def prototypeNames_def)
  have p: "\<not> baseFileMissing isoHost creditScheme creditFiles"
    by (simp add: baseFileMissing_def creditScheme_def plainScheme_def creditFiles_def)
  have f: "sourceFile (baseMapping plainScheme) = ''SCH1.csv''" by (simp add: plainScheme_def)
  note t1 = runScheme_fatal_errors [of isoHost "Str ''garbage''" plainScheme zeroFiles]
  note t2 = runScheme_fatal_errors [of isoHost "Str ''2024-06-15''" plainScheme Map.empty]
  note t3 = runScheme_fatal_errors [of isoHost "Str ''2024-06-15''" creditScheme creditFiles
      "Str ''not-a-date''"]
  from t1 g have r1: "runScheme isoHost plainScheme zeroFiles (Str ''garbage'') =
      Inl (InvalidRunAsOfDate (Str ''garbage''))" by blast
  from t2 d m f have r2: "runScheme isoHost plainScheme Map.empty (Str ''2024-06-15'') =
      Inl (BaseDataFileNotFound ''SCH1.csv'')" by simp
  from t3 d p have r3:
    "\<not> isInvalidRunAsOfDate (runScheme isoHost lateFromScheme creditFiles (Str ''2024-06-15''))"
    "\<not> isBaseDataFileNotFound (runScheme isoHost lateFromScheme creditFiles (Str ''2024-06-15''))"
    unfolding lateFromScheme_def by blast+
  from g d m p r1 r2 r3 show ?thesis by blast
qed

text \<open>
  Claim C9 as stated fails for \<open>effectiveFrom\<close>: the scheme whose \<open>effectiveFrom\<close> is
  the text \<^verbatim>\<open>not-a-date\<close> runs to the end and pays agent \<^verbatim>\<open>A\<close> "300.00".
\<close>

theorem unparseable_effectiveFrom_counterexample:
  "parseDate isoHost (effectiveFrom lateFromScheme) = None
   \<and> runScheme isoHost lateFromScheme creditFiles (Str ''2024-06-15'') =
       Inr (creditFinal (Str ''not-a-date''))
   \<and> agentPayouts (creditFinal (Str ''not-a-date'')) ''A'' = Some ''300.00''"
  using lateFrom_unparseable lateFrom_run by (simp add: creditFinal_def)

text \<open>
  Claim C4 fails in the code. The qualification loop assigns to the rule and field
  objects of the scheme on its per-record path, so the first agent's turn changes the
  rule that the later agents are checked against. With the rule "Status = Delivered"
  evaluated per record, agent \<^verbatim>\<open>B\<close> with one delivered sale of 1000 is paid "100.00"
  when it is the only agent of the file, and "0.00" (disqualified) when agent \<^verbatim>\<open>A\<close>
  comes before it.
\<close>

theorem per_record_rule_breaks_independence:
  "runScheme isoHost qualScheme oneAgentFiles (Str ''2024-06-15'') = Inr oneAgentFinal
   \<and> agentPayouts oneAgentFinal ''B'' = Some ''100.00''
   \<and> runScheme isoHost qualScheme twoAgentFiles (Str ''2024-06-15'') = Inr twoAgentFinal
   \<and> agentPayouts twoAgentFinal ''B'' = Some ''0.00''
   \<and> qualificationRules (schemeNow twoAgentFinal) =
       [deliveredRule\<lparr>rule_operator := ''='', rule_value := Bool True\<rparr>]
   \<and> qualificationRules qualScheme = [deliveredRule]"
  using one_agent_run two_agent_run
  by (simp add: oneAgentFinal_def twoAgentFinal_def qualSchemeAfterFirstAgent_def qualScheme_def)

section \<open>Manager lookup (claim C3)\<close>

lemma findManagerLoop_find:
  "findManagerLoop hst hierarchyData agentId d =
     map_option detailsOf
       (find (\<lambda>r. getProp r ''Sales Employee'' = agentId \<and> windowContains hst r d) hierarchyData)"
proof (induction hierarchyData)
  case Nil
  then show ?case by simp
next
  case (Cons r rs)
  have w: "hierarchyRecordValid hst r d = windowContains hst r d"
    by (auto simp: hierarchyRecordValid_def windowContains_def Let_def split: option.splits)
  show ?case using Cons by (simp add: w)
qed

text \<open>
  Claim C3, as amended. For every agent id, hierarchy record list and date, the manager
  lookup returns the details of the first hierarchy record, in file order, whose
  \<open>Sales Employee\<close> is exactly equal to the agent id (case matters; the lookup takes
  no level or role label and no scheme date) and whose validity window contains the
  date: \<open>Reports From\<close> parses and is on or before the date, and \<open>Reports To\<close> is on
  or after the date or is missing or unparseable. It returns null, not an error, when
  there is no such record, and when the agent id is empty or missing.
\<close>

theorem findManager_first_exact_match:
  "findManager hst hierarchyData (Str agentId) d =
     (if agentId = [] then None
      else map_option detailsOf
             (find (\<lambda>r. getProp r ''Sales Employee'' = Str agentId \<and> windowContains hst r d)
                hierarchyData))
   \<and> findManager hst hierarchyData Undefined d = None"
  by (simp add: findManager_def findManagerLoop_find)

theorem findManager_first_exact_match_witness:
  "find (\<lambda>r. getProp r ''Sales Employee'' = Str ''A'' \<and> windowContains isoHost r 20240615)
       (endedRow # lowerCaseRow # creditHierarchy) = Some (hd creditHierarchy)
   \<and> findManager isoHost (endedRow # lowerCaseRow # creditHierarchy) (Str ''A'') 20240615
       = Some managerM
   \<and> findManager isoHost creditHierarchy (Str ''Z'') 20240615 = None"
proof -
  have f: "find (\<lambda>r. getProp r ''Sales Employee'' = Str ''A'' \<and> windowContains isoHost r 20240615)
       (endedRow # lowerCaseRow # creditHierarchy) = Some (hd creditHierarchy)"
    by (simp add: endedRow_def lowerCaseRow_def creditHierarchy_def windowContains_def getProp_def
        date_eval)
  have g: "find (\<lambda>r. getProp r ''Sales Employee'' = Str ''Z'' \<and> windowContains isoHost r 20240615)
       creditHierarchy = None"
    by (simp add: creditHierarchy_def getProp_def)
  have d: "detailsOf (hd creditHierarchy) = managerM"
    by (simp add: creditHierarchy_def managerM_def detailsOf_def getProp_def)
  from findManager_first_exact_match [of isoHost "endedRow # lowerCaseRow # creditHierarchy"
      "''A''" 20240615]
    findManager_first_exact_match [of isoHost creditHierarchy "''Z''" 20240615] f g d
  show ?thesis by simp
qed

text \<open>
  Claim C3 as stated fails twice. A record for \<^verbatim>\<open>a001\<close> is not found for the agent id
  \<^verbatim>\<open>A001\<close>, although the ids are equal without regard to case. A record whose window
  ended on 2024-03-31 is not found for the run date 2024-06-15, although the window
  overlaps the interval from the scheme's \<open>effectiveFrom\<close> 2024-01-01 to the run date.
\<close>

theorem findManager_selection_counterexample:
  "specSelects isoHost 20240101 20240615 (Str ''A001'') lowerCaseRow
   \<and> findManager isoHost [lowerCaseRow] (Str ''A001'') 20240615 = None
   \<and> findManager isoHost [lowerCaseRow] (Str ''a001'') 20240615 = Some managerM
   \<and> specSelects isoHost 20240101 20240615 (Str ''B'') endedRow
   \<and> findManager isoHost [endedRow] (Str ''B'') 20240615 = None"
  by (simp add: specSelects_def lowercase_def char_of_def bit_Suc_0_iff lowerCaseRow_def endedRow_def
      managerM_def split_eval)

end
